theory Spec2Isabelle
  imports Complex_Main "HOL-Library.AList" "HOL-Library.Char_ord" "HOL-Library.List_Lexorder"
begin

section \<open>OpenSMOG: the SBM class of OpenSMOG.py\<close>

text \<open>
  The theory embeds the methods of class \<open>SBM\<close> that load the three input files and turn
  the parsed potential description into force objects of the simulation engine:
  \<open>__init__\<close>, \<open>setup_openmm\<close>, \<open>loadSystem\<close>, \<open>_check_file\<close>, \<open>loadGro\<close>, \<open>loadTop\<close>,
  \<open>_splitForces_contacts\<close>, \<open>_splitForces_nb\<close>, \<open>_customSmogForce\<close>,
  \<open>_customSmogForce_nb\<close>, \<open>loadXml\<close> (with its nested \<open>validate\<close> and
  \<open>import_xml2OpenSMOG\<close>) and \<open>createSimulation\<close>.

  Conventions.
  \<^item> The object \<open>self\<close> is a record that every method takes and returns. An attribute that
    Python creates only on assignment is an \<open>option\<close> field: \<open>None\<close> is "not set", and
    reading it raises \<open>AttributeError\<close>.
  \<^item> A method returns \<open>(Inl e, s)\<close> when it raises \<open>e\<close> and \<open>(Inr v, s)\<close> when it returns
    \<open>v\<close>; in both cases \<open>s\<close> is the object as the method left it, since an exception
    undoes nothing.
  \<^item> Force objects of the engine live in a store (\<open>heap\<close>), referenced by position: the
    system and the dictionary \<open>forcesDict\<close> hold references to the same objects.
  \<^item> What the engine, the file parsers and Python's \<open>int\<close> and \<open>float\<close> compute is not in
    this repository; it is the parameter \<open>env\<close>.
  \<^item> Python names that start with an underscore lose it (\<open>check_file\<close> for
    \<open>_check_file\<close>). \<open>print\<close> and \<open>warnings.warn\<close> are not modelled.
\<close>

subsection \<open>Python values and exceptions\<close>

text \<open>A float is either NaN or a number; only equality is ever computed on floats here.\<close>

datatype pyfloat = NaN | Num real

text \<open>IEEE equality, the \<open>==\<close> of Python and numpy: NaN equals nothing, itself included.\<close>

fun float_eq :: "pyfloat \<Rightarrow> pyfloat \<Rightarrow> bool" where
  "float_eq (Num a) (Num b) = (a = b)"
| "float_eq _ _ = False"

datatype error =
    ValueError string
  | AttributeError string
  | KeyError "string option"
  | IndexError
  | TypeError
  | ExternalError string

type_synonym attrs = "(string \<times> string) list"

text \<open>\<open>d[k]\<close> on a dictionary.\<close>

definition getitem :: "attrs \<Rightarrow> string \<Rightarrow> error + string" where
  "getitem d k = (case map_of d k of None \<Rightarrow> Inl (KeyError (Some k)) | Some v \<Rightarrow> Inr v)"

text \<open>\<open>xs[n]\<close> on a list, for an index that is never negative.\<close>

definition nth_py :: "'a list \<Rightarrow> nat \<Rightarrow> error + 'a" where
  "nth_py xs n = (if n < length xs then Inr (xs ! n) else Inl IndexError)"

text \<open>Sequencing of computations that may raise.\<close>

definition ebind :: "error + 'a \<Rightarrow> ('a \<Rightarrow> error + 'b) \<Rightarrow> error + 'b" where
  "ebind m f = (case m of Inl e \<Rightarrow> Inl e | Inr x \<Rightarrow> f x)"

text \<open>A list comprehension or appending loop whose body may raise: it stops at the first
  exception.\<close>

fun emap :: "('a \<Rightarrow> error + 'b) \<Rightarrow> 'a list \<Rightarrow> error + 'b list" where
  "emap f [] = Inr []"
| "emap f (x # xs) =
     (case f x of Inl e \<Rightarrow> Inl e
      | Inr y \<Rightarrow> (case emap f xs of Inl e \<Rightarrow> Inl e | Inr ys \<Rightarrow> Inr (y # ys)))"

text \<open>A loop that updates an accumulator and may raise.\<close>

fun efold :: "('a \<Rightarrow> 'b \<Rightarrow> error + 'b) \<Rightarrow> 'a list \<Rightarrow> 'b \<Rightarrow> error + 'b" where
  "efold f [] acc = Inr acc"
| "efold f (x # xs) acc = (case f x acc of Inl e \<Rightarrow> Inl e | Inr acc' \<Rightarrow> efold f xs acc')"

text \<open>\<open>str.lower\<close> on ASCII letters and \<open>str.endswith\<close>.\<close>

definition lower_char :: "char \<Rightarrow> char" where
  "lower_char c =
     (case map_of (zip ''ABCDEFGHIJKLMNOPQRSTUVWXYZ'' ''abcdefghijklmnopqrstuvwxyz'') c of
        Some l \<Rightarrow> l
      | None \<Rightarrow> c)"

definition lower :: "string \<Rightarrow> string" where
  "lower s = map lower_char s"

definition endswith :: "string \<Rightarrow> string \<Rightarrow> bool" where
  "endswith s ext = (length ext \<le> length s \<and> drop (length s - length ext) s = ext)"

text \<open>\<open>str(n)\<close> for a non-negative integer.\<close>

definition digit_char :: "nat \<Rightarrow> char" where
  "digit_char d = ''0123456789'' ! d"

function str_nat :: "nat \<Rightarrow> string" where
  "str_nat n = (if n < 10 then [digit_char n] else str_nat (n div 10) @ [digit_char (n mod 10)])"
  by pat_completeness auto
termination
  by (relation "measure (\<lambda>n. n)") auto

declare str_nat.simps [simp del]

text \<open>\<open>np.unique\<close> of an array of strings: sorted, each value once. \<open>index_of\<close> is
  \<open>np.where(arr == x)[0][0]\<close>: the first position of \<open>x\<close>, \<open>IndexError\<close> when there is
  none.\<close>

definition np_unique :: "string list \<Rightarrow> string list" where
  "np_unique xs = sort (remdups xs)"

fun find_index :: "string \<Rightarrow> string list \<Rightarrow> nat option" where
  "find_index x [] = None"
| "find_index x (y # ys) =
     (if y = x then Some 0 else (case find_index x ys of None \<Rightarrow> None | Some i \<Rightarrow> Some (Suc i)))"

definition index_of :: "string list \<Rightarrow> string \<Rightarrow> error + nat" where
  "index_of arr x = (case find_index x arr of None \<Rightarrow> Inl IndexError | Some i \<Rightarrow> Inr i)"

text \<open>\<open>int(v)\<close> and \<open>float(v)\<close> on a string: Python's parsers are parameters (the record
  \<open>env\<close> below); where they reject the string, Python raises \<open>ValueError\<close>.\<close>

definition to_int :: "(string \<Rightarrow> int option) \<Rightarrow> string \<Rightarrow> error + int" where
  "to_int conv v =
     (case conv v of
        None \<Rightarrow> Inl (ValueError (''invalid literal for int() with base 10: '' @ v))
      | Some i \<Rightarrow> Inr i)"

definition to_float :: "(string \<Rightarrow> pyfloat option) \<Rightarrow> string \<Rightarrow> error + pyfloat" where
  "to_float conv v =
     (case conv v of
        None \<Rightarrow> Inl (ValueError (''could not convert string to float: '' @ v))
      | Some x \<Rightarrow> Inr x)"

text \<open>\<open>d[k]\<close> where the key is the text of an XML element, which is \<open>None\<close> for an element
  without text.\<close>

definition getitem_opt :: "attrs \<Rightarrow> string option \<Rightarrow> error + string" where
  "getitem_opt d k = (case k of None \<Rightarrow> Inl (KeyError None) | Some k' \<Rightarrow> getitem d k')"

subsection \<open>XML elements (xml.etree.ElementTree)\<close>

datatype xml =
  Element (tag: string) (attrib: attrs) (elem_text: "string option") (children: "xml list")

text \<open>\<open>e.find(t)\<close>: the first child with tag \<open>t\<close>. \<open>e.iter(t)\<close>: \<open>e\<close> itself and all its
  descendants with tag \<open>t\<close>, in document order. \<open>len(e)\<close> and \<open>e[i]\<close> are
  \<open>length (children e)\<close> and \<open>children e ! i\<close>.\<close>

definition find_child :: "string \<Rightarrow> xml \<Rightarrow> xml option" where
  "find_child t e = List.find (\<lambda>c. tag c = t) (children e)"

fun iter :: "string \<Rightarrow> xml \<Rightarrow> xml list" where
  "iter t (Element tg a tx cs) =
     (if tg = t then [Element tg a tx cs] else []) @ concat (map (iter t) cs)"

subsection \<open>Objects of the simulation engine\<close>

text \<open>
  One record stands for every class of force object: it has the lists that the methods
  called in this file append to or read. A force made by the engine's \<open>createSystem\<close> is an
  \<open>EngineForce\<close>; its \<open>particles\<close> are the per-particle parameter lists (for the engine's
  nonbonded force: charge first) and its \<open>exclusions\<close> the excluded pairs.
\<close>

datatype force_class = CustomBondForce | CustomNonbondedForce | EngineForce

datatype nonbonded_method = CutoffPeriodic | CutoffNonPeriodic

record force =
  force_class :: force_class
  energy :: string
  perBondParameters :: "string list"
  bonds :: "(int \<times> int \<times> pyfloat list) list"
  perParticleParameters :: "string list"
  globalParameters :: "(string \<times> pyfloat) list"
  tabulatedFunctions :: "(string \<times> nat \<times> nat \<times> pyfloat list) list"
  exclusions :: "(int \<times> int) list"
  particles :: "pyfloat list list"
  nonbondedMethod :: "nonbonded_method option"
  cutoffDistance :: "pyfloat option"
  forceGroup :: int

definition new_force :: "force_class \<Rightarrow> string \<Rightarrow> force" where
  "new_force c expr =
     \<lparr>force_class = c, energy = expr, perBondParameters = [], bonds = [],
      perParticleParameters = [], globalParameters = [], tabulatedFunctions = [],
      exclusions = [], particles = [], nonbondedMethod = None, cutoffDistance = None,
      forceGroup = 0\<rparr>"

text \<open>The engine's methods take a string where a name is expected: \<open>None\<close> is a
  \<open>TypeError\<close>.\<close>

definition addPerBondParameter :: "string option \<Rightarrow> force \<Rightarrow> error + force" where
  "addPerBondParameter p ff =
     (case p of
        None \<Rightarrow> Inl TypeError
      | Some n \<Rightarrow> Inr (ff\<lparr>perBondParameters := perBondParameters ff @ [n]\<rparr>))"

definition addBond :: "int \<Rightarrow> int \<Rightarrow> pyfloat list \<Rightarrow> force \<Rightarrow> force" where
  "addBond i j ps ff = ff\<lparr>bonds := bonds ff @ [(i, j, ps)]\<rparr>"

definition addPerParticleParameter :: "string \<Rightarrow> force \<Rightarrow> force" where
  "addPerParticleParameter n ff = ff\<lparr>perParticleParameters := perParticleParameters ff @ [n]\<rparr>"

definition addGlobalParameter :: "string \<Rightarrow> pyfloat \<Rightarrow> force \<Rightarrow> force" where
  "addGlobalParameter n v ff = ff\<lparr>globalParameters := globalParameters ff @ [(n, v)]\<rparr>"

definition addTabulatedFunction ::
  "string option \<Rightarrow> nat \<times> nat \<times> pyfloat list \<Rightarrow> force \<Rightarrow> error + force" where
  "addTabulatedFunction p f ff =
     (case p of
        None \<Rightarrow> Inl TypeError
      | Some n \<Rightarrow> Inr (ff\<lparr>tabulatedFunctions := tabulatedFunctions ff @ [(n, f)]\<rparr>))"

definition addExclusion :: "int \<times> int \<Rightarrow> force \<Rightarrow> force" where
  "addExclusion e ff = ff\<lparr>exclusions := exclusions ff @ [e]\<rparr>"

definition addParticle :: "pyfloat list \<Rightarrow> force \<Rightarrow> force" where
  "addParticle ps ff = ff\<lparr>particles := particles ff @ [ps]\<rparr>"

type_synonym vec3 = "pyfloat \<times> pyfloat \<times> pyfloat"

record gro_file =
  positions :: "vec3 list"
  unitCellDimensions :: vec3

text \<open>A parsed topology file: \<open>molecules\<close> is \<open>_molecules\<close> (name and multiplicity),
  \<open>moleculeTypes\<close> maps a molecule name to the type labels of its atoms (\<open>atom[1]\<close> of each
  entry of \<open>_moleculeTypes[name].atoms\<close>).\<close>

record top_file =
  molecules :: "(string \<times> int) list"
  moleculeTypes :: "(string \<times> string list) list"
  topology :: "string list"

text \<open>The system holds references to its forces.\<close>

record system =
  sys_forces :: "nat list"
  numParticles :: nat

datatype integrator = LangevinIntegrator pyfloat pyfloat pyfloat | UserIntegrator string

record simulation =
  sim_topology :: "string list"
  sim_forces :: "nat list"
  sim_integrator :: integrator
  sim_platform :: string
  sim_properties :: attrs
  ctx_positions :: "vec3 list option"
  ctx_velocities :: "pyfloat option"

text \<open>What lies outside the repository: Python's number parsers, the engine's file
  readers and constructors (\<open>None\<close>: the call raises), the XML parser, and the bundled
  schema \<open>share/OpenSMOG_nb.xsd\<close> as the set of documents it accepts.\<close>

record env =
  py_int :: "string \<Rightarrow> int option"
  py_float :: "string \<Rightarrow> pyfloat option"
  GromacsGroFile :: "string \<Rightarrow> gro_file option"
  GromacsTopFile :: "string \<Rightarrow> vec3 option \<Rightarrow> top_file option"
  createSystem :: "top_file \<Rightarrow> nonbonded_method \<Rightarrow> pyfloat \<Rightarrow> (force list \<times> nat) option"
  parse_xml :: "string \<Rightarrow> xml option"
  xmlschema :: "xml \<Rightarrow> bool"
  getPlatformByName :: "string \<Rightarrow> bool"
  createContext :: "force list \<Rightarrow> nat \<Rightarrow> bool"

subsection \<open>The SBM object\<close>

text \<open>A record of the XML file: expression, parameter names, attribute dictionaries of the
  interactions (contacts) or of the \<open>nonbond_param\<close> entries (nonbonded).\<close>

type_synonym force_record = "string \<times> string option list \<times> attrs list"

text \<open>The dictionary \<open>xml_data\<close> that \<open>import_xml2OpenSMOG\<close> returns: the keys
  \<open>'constants'\<close> and \<open>'nonbond'\<close> exist only when the file has these sections.\<close>

record xml_data =
  xd_constants :: "(string \<times> pyfloat) list option"
  xd_contacts :: "string list \<times> string option list list \<times> attrs list list \<times> string list"
  xd_nonbond :: "(nat list \<times> string list \<times> string option list list \<times> attrs list list) option"

record sbm =
  name :: string
  dt :: pyfloat
  gamma :: pyfloat
  rcutoff :: pyfloat
  temperature :: pyfloat
  forceApplied :: bool
  loaded :: bool
  folder :: string
  forceCount :: int
  pbc :: bool
  properties :: "attrs option"
  platform :: "string option"
  integrator :: "integrator option"
  integrator_type :: "string option"
  forceDict :: "unit option"
  forcesDict :: "(string \<times> nat) list option"
  inputNames :: "string list option"
  Gro :: "gro_file option"
  Top :: "top_file option"
  system :: "system option"
  constants_present :: "bool option"
  nonbond_present :: "bool option"
  data :: "xml_data option"
  contacts :: "(string \<times> force_record) list option"
  nonbond :: "(nat \<times> force_record) list option"
  atom_types :: "string list option"
  simulation :: "simulation option"
  heap :: "force list"
  io_log :: "string list"

text \<open>
  \<open>heap\<close> is the store of force objects, \<open>io_log\<close> the names of the files handed to a
  reader, in order. Both belong to the world rather than to the object; they are fields
  of the same record so that one state is passed around.

  \<open>__init__\<close>: the quantities \<open>time_step * picoseconds\<close>, \<open>collision_rate / picosecond\<close>,
  \<open>r_cutoff * nanometers\<close> and \<open>(temperature / 0.008314) * kelvin\<close> are passed in as
  computed (floating-point arithmetic is not modelled); the warnings are prints.
\<close>

definition SBM_init ::
  "pyfloat \<Rightarrow> pyfloat \<Rightarrow> pyfloat \<Rightarrow> pyfloat \<Rightarrow> bool \<Rightarrow> string \<Rightarrow> sbm" where
  "SBM_init time_step collision_rate r_cutoff temperature_kelvin pbc_arg name_arg =
     \<lparr>name = name_arg, dt = time_step, gamma = collision_rate, rcutoff = r_cutoff,
      temperature = temperature_kelvin, forceApplied = False, loaded = False,
      folder = ''.'', forceCount = 0, pbc = pbc_arg,
      properties = None, platform = None, integrator = None, integrator_type = None,
      forceDict = None, forcesDict = None, inputNames = None, Gro = None, Top = None,
      system = None, constants_present = None, nonbond_present = None, data = None,
      contacts = None, nonbond = None, atom_types = None, simulation = None,
      heap = [], io_log = []\<rparr>"

text \<open>Sequencing of methods, and a \<open>for\<close> loop over a list whose body is a method: both
  stop at the first exception and keep the state reached.\<close>

definition seq ::
  "(sbm \<Rightarrow> (error + 'a) \<times> sbm) \<Rightarrow> ('a \<Rightarrow> sbm \<Rightarrow> (error + 'b) \<times> sbm) \<Rightarrow>
   sbm \<Rightarrow> (error + 'b) \<times> sbm" where
  "seq m f s = (case m s of (Inl e, s') \<Rightarrow> (Inl e, s') | (Inr x, s') \<Rightarrow> f x s')"

fun for_each ::
  "'a list \<Rightarrow> ('a \<Rightarrow> sbm \<Rightarrow> (error + unit) \<times> sbm) \<Rightarrow> sbm \<Rightarrow> (error + unit) \<times> sbm" where
  "for_each [] body s = (Inr (), s)"
| "for_each (x # xs) body s =
     (case body x s of (Inl e, s') \<Rightarrow> (Inl e, s') | (Inr _, s') \<Rightarrow> for_each xs body s')"

subsection \<open>setup_openmm\<close>

text \<open>The \<open>if\<close>/\<open>elif\<close> chain over \<open>platform.lower()\<close>: the engine's name of the platform,
  and whether the branch resets \<open>self.properties\<close> to the empty dictionary. The last branch
  calls \<open>self.exit\<close>, which class \<open>SBM\<close> does not define. The argument \<open>integrator\<close> is a
  string here.\<close>

definition platform_branch :: "string \<Rightarrow> (string \<times> bool) option" where
  "platform_branch p =
     (if p = ''opencl'' then Some (''OpenCL'', False)
      else if p = ''reference'' then Some (''Reference'', True)
      else if p = ''cuda'' then Some (''CUDA'', False)
      else if p = ''cpu'' then Some (''CPU'', True)
      else if p = ''hip'' then Some (''HIP'', False)
      else None)"

definition setup_openmm ::
  "env \<Rightarrow> string \<Rightarrow> string \<Rightarrow> string \<Rightarrow> string \<Rightarrow> sbm \<Rightarrow> (error + unit) \<times> sbm" where
  "setup_openmm env platform_arg precision_arg GPUindex integrator_arg s =
     (let precision = lower precision_arg in
      if precision \<notin> set [''mixed'', ''single'', ''double'']
      then (Inl (ValueError ''Precision must be mixed, single or double''), s)
      else
        let props = [(''Precision'', precision)] @
                    (if lower GPUindex \<noteq> ''default'' then [(''DeviceIndex'', GPUindex)] else []);
            s1 = s\<lparr>properties := Some props\<rparr>
        in (case platform_branch (lower platform_arg) of
              None \<Rightarrow> (Inl (AttributeError ''exit''), s1)
            | Some (pname, reset) \<Rightarrow>
                if \<not> getPlatformByName env pname
                then (Inl (ExternalError ''Platform.getPlatformByName''), s1)
                else
                  let s2 = (if reset then s1\<lparr>properties := Some []\<rparr> else s1);
                      s3 = s2\<lparr>platform := Some pname\<rparr>;
                      s4 = (if lower integrator_arg = ''langevin''
                            then s3\<lparr>integrator :=
                                      Some (LangevinIntegrator (temperature s3) (gamma s3) (dt s3)),
                                    integrator_type := Some integrator_arg\<rparr>
                            else s3\<lparr>integrator := Some (UserIntegrator integrator_arg),
                                    integrator_type := Some ''UserDefined''\<rparr>)
                  in (Inr (), s4\<lparr>forceDict := Some (), forcesDict := Some []\<rparr>)))"

subsection \<open>loadSystem, _check_file, loadGro, loadTop\<close>

definition check_file :: "string \<Rightarrow> string \<Rightarrow> error + unit" where
  "check_file filename ext =
     (if \<not> endswith (lower filename) ext
      then Inl (ValueError (''Wrong file extension: '' @ filename @ '' must to be '' @ ext @
                            '' extension''))
      else Inr ())"

definition loadGro :: "env \<Rightarrow> string \<Rightarrow> sbm \<Rightarrow> (error + unit) \<times> sbm" where
  "loadGro env Grofile s =
     (let s1 = s\<lparr>io_log := io_log s @ [Grofile]\<rparr> in
      case GromacsGroFile env Grofile of
        None \<Rightarrow> (Inl (ExternalError ''GromacsGroFile''), s1)
      | Some g \<Rightarrow> (Inr (), s1\<lparr>Gro := Some g\<rparr>))"

text \<open>\<open>force.setForceGroup(g)\<close> on the object that \<open>r\<close> refers to.\<close>

definition setForceGroup :: "nat \<Rightarrow> int \<Rightarrow> sbm \<Rightarrow> sbm" where
  "setForceGroup r g s = s\<lparr>heap := (heap s)[r := (heap s ! r)\<lparr>forceGroup := g\<rparr>]\<rparr>"

definition forceNamesCA :: "(nat \<times> string) list" where
  "forceNamesCA = [(0, ''electrostastic''), (1, ''Non-Contacts''), (2, ''Bonds''),
                   (3, ''Angles''), (4, ''Dihedrals'')]"

definition forceNamesAA :: "(nat \<times> string) list" where
  "forceNamesAA = [(0, ''electrostastic+default''), (1, ''Non-Contacts+default''),
                   (2, ''Bonds''), (3, ''Angles''), (4, ''Dihedrals''), (5, ''Impropers'')]"

text \<open>The three statements that register a force made from the topology under its
  standard name: \<open>force.setForceGroup(force_id)\<close>,
  \<open>self.forcesDict[names[force_id]] = force\<close>, \<open>self.forceCount += 1\<close>.\<close>

definition register_top_force ::
  "(nat \<times> string) list \<Rightarrow> nat \<Rightarrow> nat \<Rightarrow> sbm \<Rightarrow> (error + unit) \<times> sbm" where
  "register_top_force names force_id r s =
     (let s1 = setForceGroup r (int force_id) s in
      case forcesDict s1 of
        None \<Rightarrow> (Inl (AttributeError ''forcesDict''), s1)
      | Some fd \<Rightarrow>
          (case map_of names force_id of
             None \<Rightarrow> (Inl (KeyError None), s1)
           | Some n \<Rightarrow>
               (Inr (), s1\<lparr>forcesDict := Some (AList.update n r fd),
                           forceCount := forceCount s1 + 1\<rparr>)))"

text \<open>The body of the loop \<open>for force_id, force in enumerate(self.system.getForces())\<close>.\<close>

definition loadTop_body :: "nat \<Rightarrow> nat \<times> nat \<Rightarrow> sbm \<Rightarrow> (error + unit) \<times> sbm" where
  "loadTop_body nforces p s =
     (case p of (force_id, r) \<Rightarrow>
        if nforces = 7 then
          (if force_id \<le> 4 then register_top_force forceNamesCA force_id r s
           else (Inr (), setForceGroup r 30 s))
        else if nforces = 8 then
          (if force_id \<le> 5 then register_top_force forceNamesAA force_id r s
           else (Inr (), setForceGroup r 30 s))
        else (Inr (), s))"

text \<open>What both branches of \<open>loadTop\<close> do once the unit cell and the nonbonded method are
  chosen: read the topology, create the system (its forces are new objects of the store),
  and run the loop.\<close>

definition loadTop_system ::
  "env \<Rightarrow> string \<Rightarrow> vec3 option \<Rightarrow> nonbonded_method \<Rightarrow> sbm \<Rightarrow> (error + unit) \<times> sbm" where
  "loadTop_system env Topfile cell method s =
     (let s1 = s\<lparr>io_log := io_log s @ [Topfile]\<rparr> in
      case GromacsTopFile env Topfile cell of
        None \<Rightarrow> (Inl (ExternalError ''GromacsTopFile''), s1)
      | Some t \<Rightarrow>
          (let s2 = s1\<lparr>Top := Some t\<rparr> in
           case createSystem env t method (rcutoff s2) of
             None \<Rightarrow> (Inl (ExternalError ''createSystem''), s2)
           | Some (fs, n) \<Rightarrow>
               (let refs = [length (heap s2) ..< length (heap s2) + length fs];
                    s3 = s2\<lparr>heap := heap s2 @ fs,
                            system := Some \<lparr>sys_forces = refs, numParticles = n\<rparr>\<rparr>
                in for_each (zip [0 ..< length refs] refs) (loadTop_body (length refs)) s3)))"

definition loadTop :: "env \<Rightarrow> string \<Rightarrow> sbm \<Rightarrow> (error + unit) \<times> sbm" where
  "loadTop env Topfile s =
     (if pbc s then
        (case Gro s of
           None \<Rightarrow> (Inl (AttributeError ''Gro''), s)
         | Some g \<Rightarrow> loadTop_system env Topfile (Some (unitCellDimensions g)) CutoffPeriodic s)
      else loadTop_system env Topfile None CutoffNonPeriodic s)"

subsection \<open>_splitForces_contacts and _splitForces_nb\<close>

text \<open>The body of \<open>for n in range(n_forces)\<close>: the three values are read first, then the
  key.\<close>

definition split_entry ::
  "'e list \<Rightarrow> 'p list \<Rightarrow> 'x list \<Rightarrow> 'k list \<Rightarrow> nat \<Rightarrow> ('k \<times> 'e \<times> 'p \<times> 'x) list \<Rightarrow>
   error + ('k \<times> 'e \<times> 'p \<times> 'x) list" where
  "split_entry es ps xs ks n forces =
     ebind (nth_py es n) (\<lambda>e. ebind (nth_py ps n) (\<lambda>p. ebind (nth_py xs n) (\<lambda>x.
     ebind (nth_py ks n) (\<lambda>k. Inr (AList.update k (e, p, x) forces)))))"

definition splitForces_contacts :: "sbm \<Rightarrow> (error + unit) \<times> sbm" where
  "splitForces_contacts s =
     (case data s of
        None \<Rightarrow> (Inl (AttributeError ''data''), s)
      | Some d \<Rightarrow>
          (case xd_contacts d of (es, ps, xs, ks) \<Rightarrow>
             (case efold (split_entry es ps xs ks) [0 ..< length ks] [] of
                Inl e \<Rightarrow> (Inl e, s)
              | Inr forces \<Rightarrow> (Inr (), s\<lparr>contacts := Some forces\<rparr>))))"

definition splitForces_nb :: "sbm \<Rightarrow> (error + unit) \<times> sbm" where
  "splitForces_nb s =
     (case data s of
        None \<Rightarrow> (Inl (AttributeError ''data''), s)
      | Some d \<Rightarrow>
          (case xd_nonbond d of
             None \<Rightarrow> (Inl (KeyError (Some ''nonbond'')), s)
           | Some (ks, es, ps, xs) \<Rightarrow>
               (case efold (split_entry es ps xs ks) [0 ..< length ks] [] of
                  Inl e \<Rightarrow> (Inl e, s)
                | Inr forces \<Rightarrow> (Inr (), s\<lparr>nonbond := Some forces\<rparr>))))"

subsection \<open>_customSmogForce\<close>

text \<open>
  A force object that a method builds in a local variable is a value until the method
  stores it in \<open>self.forcesDict\<close>; at that moment it becomes an object of the store. An
  exception before that leaves no trace of it.

  The body of \<open>for iteraction in data[2]\<close>: the two indices, then the parameter values in
  the order of \<open>pars\<close>.
\<close>

definition interaction_bond ::
  "env \<Rightarrow> string option list \<Rightarrow> attrs \<Rightarrow> error + (int \<times> int \<times> pyfloat list)" where
  "interaction_bond env pars iteraction =
     ebind (getitem iteraction ''i'') (\<lambda>vi. ebind (to_int (py_int env) vi) (\<lambda>i.
     ebind (getitem iteraction ''j'') (\<lambda>vj. ebind (to_int (py_int env) vj) (\<lambda>j.
     ebind (emap (\<lambda>k. ebind (getitem_opt iteraction k) (to_float (py_float env))) pars)
       (\<lambda>parameters. Inr (i - 1, j - 1, parameters))))))"

text \<open>Lines 257 to 271: the expression, the per-bond parameters, the bonds.\<close>

definition contacts_force :: "env \<Rightarrow> force_record \<Rightarrow> error + force" where
  "contacts_force env fdata =
     (case fdata of (expr, pars, inters) \<Rightarrow>
        ebind (efold addPerBondParameter pars (new_force CustomBondForce expr)) (\<lambda>ff.
        efold (\<lambda>iteraction ff'.
                 ebind (interaction_bond env pars iteraction)
                   (\<lambda>b. case b of (i, j, ps) \<Rightarrow> Inr (addBond i j ps ff')))
          inters ff))"

text \<open>\<open>if self.constants_present==True: for const_key in self.data['constants']: ...\<close>,
  the same statement in both force builders.\<close>

definition add_constants :: "sbm \<Rightarrow> force \<Rightarrow> error + force" where
  "add_constants s ff =
     (case constants_present s of
        None \<Rightarrow> Inl (AttributeError ''constants_present'')
      | Some b \<Rightarrow>
          if b then
            (case data s of
               None \<Rightarrow> Inl (AttributeError ''data'')
             | Some d \<Rightarrow>
                 (case xd_constants d of
                    None \<Rightarrow> Inl (KeyError (Some ''constants''))
                  | Some cs \<Rightarrow> Inr (fold (\<lambda>kv. addGlobalParameter (fst kv) (snd kv)) cs ff)))
          else Inr ff)"

text \<open>The last three statements of both force builders:
  \<open>self.forcesDict[key] = ff\<close>, \<open>ff.setForceGroup(self.forceCount)\<close>,
  \<open>self.forceCount += 1\<close>.\<close>

definition register_force :: "string \<Rightarrow> force \<Rightarrow> sbm \<Rightarrow> (error + unit) \<times> sbm" where
  "register_force key ff s =
     (case forcesDict s of
        None \<Rightarrow> (Inl (AttributeError ''forcesDict''), s)
      | Some fd \<Rightarrow>
          (let r = length (heap s);
               s1 = s\<lparr>heap := heap s @ [ff], forcesDict := Some (AList.update key r fd)\<rparr>;
               s2 = setForceGroup r (forceCount s1) s1
           in (Inr (), s2\<lparr>forceCount := forceCount s2 + 1\<rparr>)))"

definition customSmogForce ::
  "env \<Rightarrow> string \<Rightarrow> force_record \<Rightarrow> sbm \<Rightarrow> (error + unit) \<times> sbm" where
  "customSmogForce env force_name fdata s =
     (case ebind (contacts_force env fdata) (add_constants s) of
        Inl e \<Rightarrow> (Inl e, s)
      | Inr contacts_ff \<Rightarrow> register_force force_name contacts_ff s)"

subsection \<open>_customSmogForce_nb\<close>

text \<open>\<open>self.system.getForce(i)\<close>, and reading the object behind a reference.\<close>

definition getForce :: "sbm \<Rightarrow> nat \<Rightarrow> error + nat" where
  "getForce s i =
     (case system s of
        None \<Rightarrow> Inl (AttributeError ''system'')
      | Some sy \<Rightarrow>
          if i < length (sys_forces sy) then Inr (sys_forces sy ! i)
          else Inl (ExternalError ''getForce''))"

definition deref :: "sbm \<Rightarrow> nat \<Rightarrow> error + force" where
  "deref s r = (if r < length (heap s) then Inr (heap s ! r) else Inl (ExternalError ''stale''))"

text \<open>"Generate tables for each parameter": one \<open>n\<close> by \<open>n\<close> array of NaN per name.\<close>

definition empty_tables ::
  "string option list \<Rightarrow> nat \<Rightarrow> (string option \<times> pyfloat list list) list" where
  "empty_tables pars n =
     fold (\<lambda>par tables. AList.update par (replicate n (replicate n NaN)) tables) pars []"

definition set_cell :: "nat \<Rightarrow> nat \<Rightarrow> pyfloat \<Rightarrow> pyfloat list list \<Rightarrow> pyfloat list list" where
  "set_cell i j v t = t[i := (t ! i)[j := v]]"

text \<open>"Fill tables with nonbond_param": the body of \<open>for nonbond_params in data[2]\<close>. The
  inner loop runs over the keys of \<open>tables\<close>; numpy converts the attribute string on
  assignment.\<close>

definition fill_entry ::
  "env \<Rightarrow> string list \<Rightarrow> attrs \<Rightarrow> (string option \<times> pyfloat list list) list \<Rightarrow>
   error + (string option \<times> pyfloat list list) list" where
  "fill_entry env types nonbond_params tables =
     ebind (ebind (getitem nonbond_params ''type1'') (index_of types)) (\<lambda>type1.
     ebind (ebind (getitem nonbond_params ''type2'') (index_of types)) (\<lambda>type2.
     efold (\<lambda>par tables'.
              ebind (ebind (getitem_opt nonbond_params par) (to_float (py_float env))) (\<lambda>v.
              Inr (map (\<lambda>kt. if fst kt = par
                              then (fst kt, set_cell type2 type1 v (set_cell type1 type2 v (snd kt)))
                              else kt) tables')))
       (map fst tables) tables))"

text \<open>"Generate Function from tables": the body of \<open>for par in data[1]\<close>, with the check
  \<open>np.sum(tables[par]==np.nan)!=0\<close> as written.\<close>

definition nan_count :: "pyfloat list list \<Rightarrow> nat" where
  "nan_count t = length (filter (\<lambda>c. float_eq c NaN) (concat t))"

definition table_function ::
  "nat \<Rightarrow> (string option \<times> pyfloat list list) list \<Rightarrow> string option \<Rightarrow> force \<Rightarrow>
   error + force" where
  "table_function n tables par ff =
     (case map_of tables par of
        None \<Rightarrow> Inl (KeyError par)
      | Some t \<Rightarrow>
          if nan_count t \<noteq> 0
          then Inl (ValueError (''Nonbonded force parameter: '' @ (case par of None \<Rightarrow> ''None'' | Some p \<Rightarrow> p) @
                                '' is not defined for all atom interactions''))
          else addTabulatedFunction par (n, n, concat t) ff)"

text \<open>"CHARGES": \<open>original_nonbonded.getParticleParameters(i)[0]\<close> for every particle of
  the system.\<close>

definition particle_charge :: "force \<Rightarrow> nat \<Rightarrow> error + pyfloat" where
  "particle_charge f i =
     (if i < length (particles f) then nth_py (particles f ! i) 0
      else Inl (ExternalError ''getParticleParameters''))"

text \<open>"ATOM TYPES": the type label of every atom of every molecule, each repeated by the
  multiplicity of the molecule.\<close>

definition top_atom_types :: "top_file \<Rightarrow> error + string list" where
  "top_atom_types t =
     ebind (emap (\<lambda>m. case map_of (moleculeTypes t) (fst m) of
                         None \<Rightarrow> Inl (KeyError (Some (fst m)))
                       | Some atoms \<Rightarrow> Inr (concat (map (replicate (nat (snd m))) atoms)))
              (molecules t))
       (\<lambda>xs. Inr (concat xs))"

text \<open>The body of the last loop over the particles.\<close>

definition nb_particle ::
  "string list \<Rightarrow> pyfloat list \<Rightarrow> string list \<Rightarrow> nat \<Rightarrow> force \<Rightarrow> error + force" where
  "nb_particle types atom_charges top_types i ff =
     ebind (nth_py top_types i) (\<lambda>label. ebind (index_of types label) (\<lambda>at_type.
     ebind (nth_py atom_charges i) (\<lambda>charge.
     Inr (addParticle [charge, Num (real at_type)] ff))))"

text \<open>Everything between the assignment of \<open>self.atom_types\<close> and the registration: the
  tables, the tabulated functions, the exclusions, the particles, the cutoff.\<close>

definition nonbond_force ::
  "env \<Rightarrow> sbm \<Rightarrow> force_record \<Rightarrow> nat \<Rightarrow> nat \<Rightarrow> string list \<Rightarrow> force \<Rightarrow> error + force" where
  "nonbond_force env s fdata original_nonbonded original_customnonbonded types ff =
     (case fdata of (expr, pars, nbparams) \<Rightarrow>
        (let natom_types = length types in
         ebind (efold (fill_entry env types) nbparams (empty_tables pars natom_types)) (\<lambda>tables.
         ebind (efold (table_function natom_types tables) pars ff) (\<lambda>ff1.
         ebind (deref s original_customnonbonded) (\<lambda>f1.
         (let ff2 = fold addExclusion (exclusions f1) ff1 in
          ebind (case system s of None \<Rightarrow> Inl (AttributeError ''system'') | Some sy \<Rightarrow> Inr (numParticles sy))
            (\<lambda>np.
          ebind (deref s original_nonbonded) (\<lambda>f0.
          ebind (emap (particle_charge f0) [0 ..< np]) (\<lambda>atom_charges.
          ebind (case Top s of None \<Rightarrow> Inl (AttributeError ''Top'') | Some t \<Rightarrow> top_atom_types t)
            (\<lambda>top_types.
          ebind (efold (nb_particle types atom_charges top_types) [0 ..< np] ff2) (\<lambda>ff3.
          Inr (ff3\<lparr>nonbondedMethod := Some CutoffPeriodic,
                   cutoffDistance := Some (rcutoff s)\<rparr>))))))))))))"

definition customSmogForce_nb ::
  "env \<Rightarrow> nat \<Rightarrow> force_record \<Rightarrow> sbm \<Rightarrow> (error + unit) \<times> sbm" where
  "customSmogForce_nb env nb_name fdata s =
     (case fdata of (expr, pars, nbparams) \<Rightarrow>
        (let ff0 = addPerParticleParameter ''type''
                     (addPerParticleParameter ''q'' (new_force CustomNonbondedForce expr)) in
         case add_constants s ff0 of
           Inl e \<Rightarrow> (Inl e, s)
         | Inr ff1 \<Rightarrow>
             (let ff2 = addGlobalParameter ''r_c'' (rcutoff s) ff1 in
              case ebind (getForce s 0) (\<lambda>f0. ebind (getForce s 1) (\<lambda>f1. Inr (f0, f1))) of
                Inl e \<Rightarrow> (Inl e, s)
              | Inr (original_nonbonded, original_customnonbonded) \<Rightarrow>
                  (case emap (\<lambda>p. getitem p ''type1'') nbparams of
                     Inl e \<Rightarrow> (Inl e, s)
                   | Inr types1 \<Rightarrow>
                       (let s1 = s\<lparr>atom_types := Some (np_unique types1)\<rparr> in
                        case nonbond_force env s1 fdata original_nonbonded
                               original_customnonbonded (np_unique types1) ff2 of
                          Inl e \<Rightarrow> (Inl e, s1)
                        | Inr nonbond_ff \<Rightarrow>
                            register_force (''Nonbonded'' @ str_nat nb_name) nonbond_ff s1)))))"

subsection \<open>loadXml\<close>

text \<open>\<open>validate\<close>: the schema and the file are parsed, the document is checked against the
  schema. The bundled schema file is taken to be in place and well formed.\<close>

definition validate :: "env \<Rightarrow> string \<Rightarrow> sbm \<Rightarrow> (error + bool) \<times> sbm" where
  "validate env Xmlfile s =
     (let s1 = s\<lparr>io_log := io_log s @ [''share/OpenSMOG_nb.xsd'', Xmlfile]\<rparr> in
      case parse_xml env Xmlfile of
        None \<Rightarrow> (Inl (ExternalError ''etree.parse''), s1)
      | Some doc \<Rightarrow> (Inr (xmlschema env doc), s1))"

text \<open>"Constants": \<open>constants[const.attrib['name']]=float(const.attrib['value'])\<close> for
  every \<open>constant\<close> element; the right-hand side is evaluated first.\<close>

definition parse_constants :: "env \<Rightarrow> xml \<Rightarrow> error + (string \<times> pyfloat) list" where
  "parse_constants env constants_xml =
     efold (\<lambda>const constants.
              ebind (ebind (getitem (attrib const) ''value'') (to_float (py_float env))) (\<lambda>v.
              ebind (getitem (attrib const) ''name'') (\<lambda>k.
              Inr (AList.update k v constants))))
       (iter ''constant'' constants_xml) []"

text \<open>"Contacts": the body of \<open>for i in range(len(contacts_xml))\<close> appends to the four
  lists \<open>Expression\<close>, \<open>Parameters\<close>, \<open>Pairs\<close>, \<open>Force_Names\<close>.\<close>

definition parse_contacts_child ::
  "xml \<Rightarrow> string list \<times> string option list list \<times> attrs list list \<times> string list \<Rightarrow>
   error + (string list \<times> string option list list \<times> attrs list list \<times> string list)" where
  "parse_contacts_child child acc =
     (case acc of (Expression, Parameters, Pairs, Force_Names) \<Rightarrow>
        ebind (emap (\<lambda>n. getitem (attrib n) ''name'') (iter ''contacts_type'' child)) (\<lambda>names.
        ebind (emap (\<lambda>e. getitem (attrib e) ''expr'') (iter ''expression'' child)) (\<lambda>exprs.
        Inr (Expression @ exprs,
             Parameters @ [map elem_text (iter ''parameter'' child)],
             Pairs @ [map attrib (iter ''interaction'' child)],
             Force_Names @ names))))"

definition parse_contacts ::
  "xml \<Rightarrow> error + (string list \<times> string option list list \<times> attrs list list \<times> string list)" where
  "parse_contacts contacts_xml = efold parse_contacts_child (children contacts_xml) ([], [], [], [])"

text \<open>The body of \<open>for i in range(len(nonbond_xml))\<close> appends to \<open>NonBond_Num\<close>,
  \<open>NBExpression\<close>, \<open>NBExpressionParameters\<close>, \<open>NBParameters\<close>.\<close>

definition parse_nonbond_child ::
  "nat \<times> xml \<Rightarrow> nat list \<times> string list \<times> string option list list \<times> attrs list list \<Rightarrow>
   error + (nat list \<times> string list \<times> string option list list \<times> attrs list list)" where
  "parse_nonbond_child ic acc =
     (case ic of (i, child) \<Rightarrow>
      case acc of (NonBond_Num, NBExpression, NBExpressionParameters, NBParameters) \<Rightarrow>
        ebind (emap (\<lambda>e. getitem (attrib e) ''expr'') (iter ''expression'' child)) (\<lambda>exprs.
        Inr (NonBond_Num @ map (\<lambda>_. i) (iter ''nonbond_bytype'' child),
             NBExpression @ exprs,
             NBExpressionParameters @ [map elem_text (iter ''parameter'' child)],
             NBParameters @ [map attrib (iter ''nonbond_param'' child)])))"

definition parse_nonbond ::
  "xml \<Rightarrow> error + (nat list \<times> string list \<times> string option list list \<times> attrs list list)" where
  "parse_nonbond nonbond_xml =
     efold parse_nonbond_child
       (zip [0 ..< length (children nonbond_xml)] (children nonbond_xml)) ([], [], [], [])"

text \<open>\<open>import_xml2OpenSMOG\<close>. It assigns two attributes of \<open>self\<close>:
  \<open>constants_present\<close> and \<open>nonbond_present\<close>, each only in the branch that finds the
  section.\<close>

definition import_constants ::
  "env \<Rightarrow> xml \<Rightarrow> sbm \<Rightarrow> (error + (string \<times> pyfloat) list option) \<times> sbm" where
  "import_constants env doc s =
     (case find_child ''constants'' doc of
        None \<Rightarrow> (Inr None, s)
      | Some constants_xml \<Rightarrow>
          (let s1 = s\<lparr>constants_present := Some True\<rparr> in
           case parse_constants env constants_xml of
             Inl e \<Rightarrow> (Inl e, s1)
           | Inr constants \<Rightarrow> (Inr (Some constants), s1)))"

definition import_nonbond ::
  "xml \<Rightarrow> sbm \<Rightarrow>
   (error + (nat list \<times> string list \<times> string option list list \<times> attrs list list) option) \<times> sbm"
  where
  "import_nonbond doc s =
     (case find_child ''nonbond'' doc of
        None \<Rightarrow> (Inr None, s)
      | Some nonbond_xml \<Rightarrow>
          if \<not> pbc s then (Inl (ValueError ''Nonbonded forces found, but PBC is off''), s)
          else
            (let s1 = s\<lparr>nonbond_present := Some True\<rparr> in
             case parse_nonbond nonbond_xml of
               Inl e \<Rightarrow> (Inl e, s1)
             | Inr nb \<Rightarrow> (Inr (Some nb), s1)))"

definition import_xml2OpenSMOG :: "env \<Rightarrow> string \<Rightarrow> sbm \<Rightarrow> (error + xml_data) \<times> sbm" where
  "import_xml2OpenSMOG env file_xml s =
     (let s0 = s\<lparr>io_log := io_log s @ [file_xml]\<rparr> in
      case parse_xml env file_xml of
        None \<Rightarrow> (Inl (ExternalError ''ET.parse''), s0)
      | Some doc \<Rightarrow>
          (case find_child ''OpenSMOGminVersion'' doc of
             None \<Rightarrow> (Inl (AttributeError ''text''), s0)
           | Some version \<Rightarrow>
               seq (import_constants env doc) (\<lambda>constants s1.
                 case find_child ''contacts'' doc of
                   None \<Rightarrow> (Inl (ValueError ''No contacts were found in the XML file''), s1)
                 | Some contacts_xml \<Rightarrow>
                     (case parse_contacts contacts_xml of
                        Inl e \<Rightarrow> (Inl e, s1)
                      | Inr cont \<Rightarrow>
                          seq (import_nonbond doc) (\<lambda>nb s2.
                            (Inr \<lparr>xd_constants = constants, xd_contacts = cont,
                                  xd_nonbond = nb\<rparr>, s2)) s1)) s0))"

text \<open>\<open>self.system.addForce(self.forcesDict[key])\<close> and \<open>self.system.removeForce(i)\<close>.\<close>

definition addForce_of :: "string \<Rightarrow> sbm \<Rightarrow> (error + unit) \<times> sbm" where
  "addForce_of key s =
     (case system s of
        None \<Rightarrow> (Inl (AttributeError ''system''), s)
      | Some sy \<Rightarrow>
          (case forcesDict s of
             None \<Rightarrow> (Inl (AttributeError ''forcesDict''), s)
           | Some fd \<Rightarrow>
               (case map_of fd key of
                  None \<Rightarrow> (Inl (KeyError (Some key)), s)
                | Some r \<Rightarrow>
                    (Inr (), s\<lparr>system := Some (sy\<lparr>sys_forces := sys_forces sy @ [r]\<rparr>)\<rparr>))))"

definition removeForce :: "nat \<Rightarrow> sbm \<Rightarrow> (error + unit) \<times> sbm" where
  "removeForce i s =
     (case system s of
        None \<Rightarrow> (Inl (AttributeError ''system''), s)
      | Some sy \<Rightarrow>
          if i < length (sys_forces sy)
          then (Inr (), s\<lparr>system := Some (sy\<lparr>sys_forces :=
                                   take i (sys_forces sy) @ drop (Suc i) (sys_forces sy)\<rparr>)\<rparr>)
          else (Inl (ExternalError ''removeForce''), s))"

text \<open>The loop \<open>for force in self.contacts\<close> and the block under
  \<open>if self.nonbond_present==True\<close>. The loops run over the keys of the dictionary and look
  the record up; the body never changes the dictionary, so the model runs over the
  entries.\<close>

definition loadXml_contacts :: "env \<Rightarrow> sbm \<Rightarrow> (error + unit) \<times> sbm" where
  "loadXml_contacts env s =
     (case contacts s of
        None \<Rightarrow> (Inl (AttributeError ''contacts''), s)
      | Some cs \<Rightarrow>
          for_each cs (\<lambda>entry. seq (customSmogForce env (fst entry) (snd entry))
                                  (\<lambda>_. addForce_of (fst entry))) s)"

definition loadXml_nonbond_forces :: "env \<Rightarrow> sbm \<Rightarrow> (error + unit) \<times> sbm" where
  "loadXml_nonbond_forces env s =
     (case nonbond s of
        None \<Rightarrow> (Inl (AttributeError ''nonbond''), s)
      | Some ns \<Rightarrow>
          for_each ns (\<lambda>entry. seq (customSmogForce_nb env (fst entry) (snd entry))
                                  (\<lambda>_. addForce_of (''Nonbonded'' @ str_nat (fst entry)))) s)"

definition loadXml_nonbond :: "env \<Rightarrow> sbm \<Rightarrow> (error + unit) \<times> sbm" where
  "loadXml_nonbond env s =
     (case nonbond_present s of
        None \<Rightarrow> (Inl (AttributeError ''nonbond_present''), s)
      | Some b \<Rightarrow>
          if b then
            seq splitForces_nb (\<lambda>_. seq (loadXml_nonbond_forces env) (\<lambda>_.
            seq (removeForce 0) (\<lambda>_. removeForce 0))) s
          else (Inr (), s))"

definition loadXml :: "env \<Rightarrow> string \<Rightarrow> sbm \<Rightarrow> (error + unit) \<times> sbm" where
  "loadXml env Xmlfile s =
     (if \<not> forceApplied s then
        seq (validate env Xmlfile) (\<lambda>valid s1.
          if \<not> valid then (Inl (ValueError ''The xml file is not in the correct format''), s1)
          else
            seq (import_xml2OpenSMOG env Xmlfile) (\<lambda>d s2.
              seq splitForces_contacts (\<lambda>_.
              seq (loadXml_contacts env) (\<lambda>_.
              seq (loadXml_nonbond env) (\<lambda>_ s3.
              (Inr (), s3\<lparr>forceApplied := True\<rparr>)))) (s2\<lparr>data := Some d\<rparr>)) s1) s
      else (Inr (), s))"

subsection \<open>loadSystem and createSimulation\<close>

text \<open>\<open>loadSystem\<close>: the comparison of the three prefixes only decides a warning.\<close>

definition loadSystem :: "env \<Rightarrow> string \<Rightarrow> string \<Rightarrow> string \<Rightarrow> sbm \<Rightarrow> (error + unit) \<times> sbm" where
  "loadSystem env Grofile Topfile Xmlfile s =
     (let s0 = s\<lparr>inputNames := Some [Grofile, Topfile, Xmlfile]\<rparr> in
      seq (\<lambda>s'. (check_file Grofile ''.gro'', s')) (\<lambda>_.
      seq (loadGro env Grofile) (\<lambda>_.
      seq (\<lambda>s'. (check_file Topfile ''.top'', s')) (\<lambda>_.
      seq (loadTop env Topfile) (\<lambda>_.
      seq (\<lambda>s'. (check_file Xmlfile ''.xml'', s')) (\<lambda>_.
      loadXml env Xmlfile))))) s0)"

text \<open>\<open>createSimulation\<close>: the engine may refuse the system when it creates the context
  (\<open>createContext\<close>) and refuses positions whose number is not that of the particles.
  \<open>setVelocitiesToTemperature\<close> draws random velocities; the context records the
  temperature asked for.\<close>

definition attr :: "string \<Rightarrow> 'a option \<Rightarrow> error + 'a" where
  "attr n v = (case v of None \<Rightarrow> Inl (AttributeError n) | Some x \<Rightarrow> Inr x)"

definition createSimulation :: "env \<Rightarrow> sbm \<Rightarrow> (error + unit) \<times> sbm" where
  "createSimulation env s =
     (if \<not> loaded s then
        (case ebind (attr ''Top'' (Top s)) (\<lambda>t. ebind (attr ''system'' (system s)) (\<lambda>sy.
              ebind (attr ''integrator'' (integrator s)) (\<lambda>ig.
              ebind (attr ''platform'' (platform s)) (\<lambda>pf.
              ebind (attr ''properties'' (properties s)) (\<lambda>props.
              if \<not> createContext env
                     (map (\<lambda>r. heap s ! r) (filter (\<lambda>r. r < length (heap s)) (sys_forces sy)))
                     (numParticles sy)
              then Inl (ExternalError ''Simulation'')
              else Inr (numParticles sy,
                        \<lparr>sim_topology = topology t, sim_forces = sys_forces sy,
                         sim_integrator = ig, sim_platform = pf, sim_properties = props,
                         ctx_positions = None, ctx_velocities = None\<rparr>)))))) of
           Inl e \<Rightarrow> (Inl e, s)
         | Inr (n, sim) \<Rightarrow>
             (let s1 = s\<lparr>simulation := Some sim\<rparr> in
              case Gro s1 of
                None \<Rightarrow> (Inl (AttributeError ''Gro''), s1)
              | Some g \<Rightarrow>
                  if length (positions g) \<noteq> n
                  then (Inl (ExternalError ''setPositions''), s1)
                  else
                    (Inr (), s1\<lparr>simulation :=
                                  Some (sim\<lparr>ctx_positions := Some (positions g),
                                            ctx_velocities := Some (temperature s1)\<rparr>),
                                loaded := True\<rparr>)))
      else (Inr (), s))"

subsection \<open>The claims' own notions\<close>

text \<open>"The file name ends, case-insensitively, with the extension": both sides are compared
  in lower case.\<close>

definition endswith_ci :: "string \<Rightarrow> string \<Rightarrow> bool" where
  "endswith_ci filename ext = endswith (lower filename) (lower ext)"

text \<open>The bond that claim C1 names for an interaction: its attributes \<open>i\<close> and \<open>j\<close> read as
  integers, each less 1, and its attributes for the names in \<open>ps\<close>, in that order, read as
  floats. \<open>None\<close> when an attribute is missing or does not parse.\<close>

definition claimed_bond ::
  "env \<Rightarrow> string list \<Rightarrow> attrs \<Rightarrow> (int \<times> int \<times> pyfloat list) option" where
  "claimed_bond env ps x =
     (case (Option.bind (map_of x ''i'') (py_int env), Option.bind (map_of x ''j'') (py_int env),
            those (map (\<lambda>k. Option.bind (map_of x k) (py_float env)) ps)) of
        (Some i, Some j, Some vs) \<Rightarrow> Some (i - 1, j - 1, vs)
      | _ \<Rightarrow> None)"

text \<open>The object can add the global constants: the flag is set, and when it is \<open>True\<close> the
  parsed data holds the constants.\<close>

definition constants_ready :: "sbm \<Rightarrow> bool" where
  "constants_ready s =
     (constants_present s = Some False \<or>
      constants_present s = Some True \<and>
        (case data s of None \<Rightarrow> False | Some d \<Rightarrow> xd_constants d \<noteq> None))"

text \<open>The dictionary that \<open>_splitForces_contacts\<close> builds from the four lists: for each index
  in turn the entry of the name at that index is set to the record at that index.\<close>

definition split_dict ::
  "string list \<Rightarrow> string option list list \<Rightarrow> attrs list list \<Rightarrow> string list \<Rightarrow>
   (string \<times> force_record) list" where
  "split_dict es ps xs ks =
     fold (\<lambda>i. AList.update (ks ! i) (es ! i, ps ! i, xs ! i)) [0 ..< length ks] []"

text \<open>\<open>f\<close> is the contact force that \<open>_customSmogForce\<close> makes of the record \<open>d\<close> in state \<open>s\<close>
  with force group \<open>g\<close>.\<close>

definition built_contact :: "env \<Rightarrow> sbm \<Rightarrow> int \<Rightarrow> force_record \<Rightarrow> force \<Rightarrow> bool" where
  "built_contact env s g d f =
     (\<exists>ff ff'. contacts_force env d = Inr ff \<and> add_constants s ff = Inr ff' \<and>
               f = ff'\<lparr>forceGroup := g\<rparr>)"

text \<open>The assignments \<open>forcesDict[key] = force\<close> for a list of keys and consecutive new
  references starting at \<open>l\<close>.\<close>

definition dict_updates :: "string list \<Rightarrow> nat \<Rightarrow> (string \<times> nat) list \<Rightarrow> (string \<times> nat) list" where
  "dict_updates keys l fd = fold (\<lambda>kr. AList.update (fst kr) (snd kr)) (zip keys [l ..< l + length keys]) fd"

text \<open>The keys \<open>'Nonbonded'+str(name)\<close> of the nonbonded forces.\<close>

definition nb_keys :: "nat list \<Rightarrow> string list" where
  "nb_keys ks = map (\<lambda>k. ''Nonbonded'' @ str_nat k) ks"

text \<open>Claim C10's copy: the force \<open>nf\<close> has the exclusion pairs of \<open>f1\<close> and one particle for
  each of the \<open>n\<close> particles of the system, whose first parameter is the charge (the first
  parameter) of that particle in \<open>f0\<close>.\<close>

definition copied_from :: "force \<Rightarrow> force \<Rightarrow> nat \<Rightarrow> force \<Rightarrow> bool" where
  "copied_from f0 f1 n nf =
     (exclusions nf = exclusions f1 \<and> length (particles nf) = n \<and>
      list_all (\<lambda>i. i < length (particles f0) \<and> particles f0 ! i \<noteq> [] \<and>
                    particles nf ! i \<noteq> [] \<and> hd (particles nf ! i) = hd (particles f0 ! i))
        [0 ..< n])"

text \<open>\<open>nf\<close> is such a copy of the first two forces of the system of \<open>s\<close>.\<close>

definition first_two_copied :: "sbm \<Rightarrow> force \<Rightarrow> bool" where
  "first_two_copied s nf =
     (case system s of
        None \<Rightarrow> False
      | Some sy \<Rightarrow>
          2 \<le> length (sys_forces sy) \<and>
          sys_forces sy ! 0 < length (heap s) \<and> sys_forces sy ! 1 < length (heap s) \<and>
          copied_from (heap s ! (sys_forces sy ! 0)) (heap s ! (sys_forces sy ! 1))
            (numParticles sy) nf)"

text \<open>The part of a document that \<open>import_xml2OpenSMOG\<close> reads before it looks for the
  contacts and the nonbond section can be read: the version element is there, and the
  constants and the contacts (when present) have the attributes that are looked up. The
  bundled schema is not part of the source; these are the properties of a validated document
  that the error cases rely on.\<close>

definition constants_readable :: "env \<Rightarrow> xml \<Rightarrow> bool" where
  "constants_readable env doc =
     (case find_child ''constants'' doc of
        None \<Rightarrow> True
      | Some c \<Rightarrow> \<not> isl (parse_constants env c))"

definition contacts_readable :: "xml \<Rightarrow> bool" where
  "contacts_readable doc =
     (case find_child ''contacts'' doc of
        None \<Rightarrow> True
      | Some c \<Rightarrow> \<not> isl (parse_contacts c))"

definition preamble_readable :: "env \<Rightarrow> xml \<Rightarrow> bool" where
  "preamble_readable env doc =
     (find_child ''OpenSMOGminVersion'' doc \<noteq> None \<and> constants_readable env doc \<and>
      contacts_readable doc)"

text \<open>A document that \<open>loadXml\<close> is to refuse: it fails the schema, or has no contacts
  element, or has a nonbond element while periodic boundary conditions are off; and the
  \<open>ValueError\<close> raised for it.\<close>

definition rejected :: "env \<Rightarrow> sbm \<Rightarrow> xml \<Rightarrow> bool" where
  "rejected env s doc =
     (\<not> xmlschema env doc \<or> find_child ''contacts'' doc = None \<or>
      (find_child ''nonbond'' doc \<noteq> None \<and> \<not> pbc s))"

definition rejection_error :: "env \<Rightarrow> xml \<Rightarrow> error" where
  "rejection_error env doc =
     (if \<not> xmlschema env doc then ValueError ''The xml file is not in the correct format''
      else if find_child ''contacts'' doc = None
      then ValueError ''No contacts were found in the XML file''
      else ValueError ''Nonbonded forces found, but PBC is off'')"

text \<open>No force was created (the store of force objects is the same), added to or removed
  from the system, or registered, and the counter of force groups is the same.\<close>

definition no_force_touched :: "sbm \<Rightarrow> sbm \<Rightarrow> bool" where
  "no_force_touched s s' =
     (heap s' = heap s \<and> system s' = system s \<and> forcesDict s' = forcesDict s \<and>
      forceCount s' = forceCount s)"

text \<open>The force groups of the objects that the references \<open>rs\<close> point to lie in
  \<open>0 \<le> g < c\<close> and are pairwise distinct, and every reference is below \<open>b\<close>.
  \<open>groups_inv\<close>: this holds of the references stored in \<open>forcesDict\<close>, with the counter
  \<open>forceCount\<close> as the bound of the groups.\<close>

definition groups_ok :: "force list \<Rightarrow> nat list \<Rightarrow> int \<Rightarrow> nat \<Rightarrow> bool" where
  "groups_ok h rs c b =
     (list_all (\<lambda>r. r < b \<and> 0 \<le> forceGroup (h ! r) \<and> forceGroup (h ! r) < c) rs \<and>
      distinct (map (\<lambda>r. forceGroup (h ! r)) rs))"

definition groups_inv :: "sbm \<Rightarrow> bool" where
  "groups_inv s =
     (0 \<le> forceCount s \<and>
      (case forcesDict s of
         None \<Rightarrow> True
       | Some fd \<Rightarrow> groups_ok (heap s) (map snd fd) (forceCount s) (length (heap s))))"

text \<open>The number of forces that the loop of \<open>loadTop\<close> registers in a system of
  \<open>nforces\<close> forces, and the invariant of that loop before the force with index \<open>j\<close>
  (the forces of the system are the objects \<open>l, l + 1, ...\<close> of the store): the counter is
  the number of forces registered so far, and the registered references are below
  \<open>l + j\<close>.\<close>

definition registered_count :: "nat \<Rightarrow> nat" where
  "registered_count nforces = (if nforces = 7 then 5 else if nforces = 8 then 6 else 0)"

definition loadTop_inv :: "nat \<Rightarrow> nat \<Rightarrow> nat \<Rightarrow> sbm \<Rightarrow> bool" where
  "loadTop_inv nforces l j s =
     (length (heap s) = l + nforces \<and>
      forceCount s = int (min j (registered_count nforces)) \<and>
      (case forcesDict s of
         None \<Rightarrow> True
       | Some fd \<Rightarrow> groups_ok (heap s) (map snd fd) (forceCount s) (l + j)))"

subsection \<open>A worked example\<close>

text \<open>
  A small environment on which the methods are run in the witnesses: number parsers for
  unsigned decimal strings (and \<open>nan\<close>), a coordinate file with two atoms, a topology whose
  system has seven forces (the C-alpha layout) and two particles of types \<open>A\<close> and \<open>B\<close>, and
  an XML file with one constant, two contact potentials and one nonbonded potential.
\<close>

definition ex_digit :: "char \<Rightarrow> nat option" where
  "ex_digit c = map_of (zip ''0123456789'' [0 ..< 10]) c"

fun ex_nat :: "string \<Rightarrow> nat \<Rightarrow> nat option" where
  "ex_nat [] acc = Some acc"
| "ex_nat (c # cs) acc = (case ex_digit c of None \<Rightarrow> None | Some d \<Rightarrow> ex_nat cs (10 * acc + d))"

definition ex_int :: "string \<Rightarrow> int option" where
  "ex_int v = (if v = [] then None else map_option int (ex_nat v 0))"

definition ex_float :: "string \<Rightarrow> pyfloat option" where
  "ex_float v = (if v = ''nan'' then Some NaN else if v = [] then None else map_option (\<lambda>n. Num (real n)) (ex_nat v 0))"

definition ex_version :: xml where
  "ex_version = Element ''OpenSMOGminVersion'' [] (Some ''1.0.4'') []"

definition ex_constants :: xml where
  "ex_constants = Element ''constants'' [] None
     [Element ''constant'' [(''name'', ''eps''), (''value'', ''2'')] None []]"

definition ex_contacts :: xml where
  "ex_contacts = Element ''contacts'' [] None
     [Element ''contacts_type'' [(''name'', ''c1'')] None
        [Element ''expression'' [(''expr'', ''A/r^12'')] None [],
         Element ''parameter'' [] (Some ''A'') [],
         Element ''interaction'' [(''i'', ''1''), (''j'', ''2''), (''A'', ''3'')] None []],
      Element ''contacts_type'' [(''name'', ''c2'')] None
        [Element ''expression'' [(''expr'', ''B*r+C'')] None [],
         Element ''parameter'' [] (Some ''B'') [],
         Element ''parameter'' [] (Some ''C'') [],
         Element ''interaction'' [(''i'', ''2''), (''j'', ''1''), (''B'', ''5''), (''C'', ''6'')] None [],
         Element ''interaction'' [(''i'', ''1''), (''j'', ''1''), (''C'', ''8''), (''B'', ''7'')] None []]]"

definition ex_nonbond :: "attrs list \<Rightarrow> xml" where
  "ex_nonbond entries = Element ''nonbond'' [] None
     [Element ''nonbond_bytype'' [] None
        ([Element ''expression'' [(''expr'', ''C12(type1,type2)/r^12'')] None [],
          Element ''parameter'' [] (Some ''C12'') []] @
         map (\<lambda>a. Element ''nonbond_param'' a None []) entries)]"

definition ex_pair :: "string \<Rightarrow> string \<Rightarrow> string \<Rightarrow> attrs" where
  "ex_pair t1 t2 v = [(''type1'', t1), (''type2'', t2), (''C12'', v)]"

text \<open>The complete file, and files that leave a section out or leave the nonbonded table
  incomplete. The schema of the example accepts every document whose root is
  \<open>OpenSMOGforces\<close>.\<close>

definition ex_doc :: xml where
  "ex_doc = Element ''OpenSMOGforces'' [] None
     [ex_version, ex_constants, ex_contacts,
      ex_nonbond [ex_pair ''A'' ''A'' ''1'', ex_pair ''B'' ''A'' ''2'', ex_pair ''B'' ''B'' ''3'']]"

definition ex_doc_contacts_only :: xml where
  "ex_doc_contacts_only = Element ''OpenSMOGforces'' [] None [ex_version, ex_contacts]"

definition ex_doc_no_nonbond :: xml where
  "ex_doc_no_nonbond = Element ''OpenSMOGforces'' [] None [ex_version, ex_constants, ex_contacts]"

definition ex_doc_no_contacts :: xml where
  "ex_doc_no_contacts = Element ''OpenSMOGforces'' [] None [ex_version, ex_constants]"

definition ex_doc_missing_pair :: xml where
  "ex_doc_missing_pair = Element ''OpenSMOGforces'' [] None
     [ex_version, ex_constants, ex_contacts,
      ex_nonbond [ex_pair ''A'' ''A'' ''1'', ex_pair ''B'' ''B'' ''3'']]"

definition ex_doc_type2_only :: xml where
  "ex_doc_type2_only = Element ''OpenSMOGforces'' [] None
     [ex_version, ex_constants, ex_contacts, ex_nonbond [ex_pair ''A'' ''B'' ''2'']]"

definition ex_doc_other :: xml where
  "ex_doc_other = Element ''html'' [] None []"

definition ex_files :: "(string \<times> xml) list" where
  "ex_files =
     [(''a.xml'', ex_doc),
      (''contacts_only.xml'', ex_doc_contacts_only),
      (''no_nonbond.xml'', ex_doc_no_nonbond),
      (''no_contacts.xml'', ex_doc_no_contacts),
      (''missing_pair.xml'', ex_doc_missing_pair),
      (''type2_only.xml'', ex_doc_type2_only),
      (''other.xml'', ex_doc_other)]"

definition ex_forces :: "force list" where
  "ex_forces =
     [(new_force EngineForce ''electrostatics'')\<lparr>particles := [[Num 1, Num 0, Num 0], [Num (-1), Num 0, Num 0]]\<rparr>,
      (new_force EngineForce ''noncontacts'')\<lparr>exclusions := [(0, 1)]\<rparr>,
      new_force EngineForce ''bonds'', new_force EngineForce ''angles'',
      new_force EngineForce ''dihedrals'', new_force EngineForce ''a'', new_force EngineForce ''b'']"

definition ex_top :: top_file where
  "ex_top = \<lparr>molecules = [(''M'', 1)], moleculeTypes = [(''M'', [''A'', ''B''])], topology = [''a1'', ''a2'']\<rparr>"

definition ex_env :: env where
  "ex_env = \<lparr>py_int = ex_int, py_float = ex_float,
     GromacsGroFile = (\<lambda>f. if f = ''a.gro'' then Some \<lparr>positions = [(Num 0, Num 0, Num 0), (Num 1, Num 0, Num 0)], unitCellDimensions = (Num 9, Num 9, Num 9)\<rparr> else None),
     GromacsTopFile = (\<lambda>f c. if f = ''a.top'' then Some ex_top else None),
     createSystem = (\<lambda>t m c. Some (ex_forces, 2)),
     parse_xml = map_of ex_files,
     xmlschema = (\<lambda>d. tag d = ''OpenSMOGforces''),
     getPlatformByName = (\<lambda>p. True),
     createContext = (\<lambda>fs n. True)\<rparr>"

definition ex_s0 :: sbm where
  "ex_s0 = snd (setup_openmm ex_env ''cpu'' ''single'' ''default'' ''langevin'' (SBM_init (Num 1) (Num 1) (Num 3) (Num 1) True ''x''))"

definition ex_sg :: sbm where
  "ex_sg = snd (loadGro ex_env ''a.gro'' ex_s0)"

definition ex_st :: sbm where
  "ex_st = snd (loadTop ex_env ''a.top'' ex_sg)"

definition ex_s1 :: sbm where
  "ex_s1 = snd (loadXml ex_env ''a.xml'' ex_st)"

definition ex_s2 :: sbm where
  "ex_s2 = snd (createSimulation ex_env ex_s1)"

definition ex_inters :: "attrs list" where
  "ex_inters = [[(''i'', ''1''), (''j'', ''2''), (''A'', ''3'')],
                [(''A'', ''40''), (''j'', ''7''), (''i'', ''5'')]]"

text \<open>The four parallel lists that the example file gives for its contacts.\<close>

definition ex_E :: "string list" where "ex_E = [''A/r^12'', ''B*r+C'']"
definition ex_P :: "string option list list" where "ex_P = [[Some ''A''], [Some ''B'', Some ''C'']]"
definition ex_X :: "attrs list list" where
  "ex_X = [[[(''i'', ''1''), (''j'', ''2''), (''A'', ''3'')]],
           [[(''i'', ''2''), (''j'', ''1''), (''B'', ''5''), (''C'', ''6'')],
            [(''i'', ''1''), (''j'', ''1''), (''C'', ''8''), (''B'', ''7'')]]]"
definition ex_N :: "string list" where "ex_N = [''c1'', ''c2'']"

text \<open>States for the registration of forces: a fresh object, the states after one more
  contact force and one more nonbonded force, the state at the start of the loop of \<open>loadTop\<close>
  and after its first step, and the state after \<open>loadSystem\<close> on the fresh object with its
  dictionary of forces.\<close>

definition ex_fresh :: sbm where
  "ex_fresh = SBM_init (Num 1) (Num 1) (Num 3) (Num 1) True ''x''"

definition ex_sc :: sbm where
  "ex_sc = snd (customSmogForce ex_env ''c3'' (''A/r^12'', [Some ''A''], ex_inters) ex_s1)"

definition ex_sn :: sbm where
  "ex_sn = snd (customSmogForce_nb ex_env 1
             (''C12(type1,type2)/r^12'', [Some ''C12''], [ex_pair ''A'' ''A'' ''1'', ex_pair ''B'' ''A'' ''2'', ex_pair ''B'' ''B'' ''3''])
             (ex_st\<lparr>constants_present := Some False\<rparr>))"

definition ex_l0 :: sbm where
  "ex_l0 = ex_sg\<lparr>heap := heap ex_sg @ ex_forces\<rparr>"

definition ex_l1 :: sbm where
  "ex_l1 = snd (loadTop_body 7 (0, 0) ex_l0)"

definition ex_sf :: sbm where
  "ex_sf = snd (loadSystem ex_env ''a.gro'' ''a.top'' ''a.xml''
                 (snd (setup_openmm ex_env ''cpu'' ''single'' ''default'' ''langevin'' ex_fresh)))"

definition ex_fd :: "(string \<times> nat) list" where
  "ex_fd = [(''electrostastic'', 0), (''Non-Contacts'', 1), (''Bonds'', 2), (''Angles'', 3),
            (''Dihedrals'', 4), (''c1'', 7), (''c2'', 8), (''Nonbonded0'', 9)]"

section \<open>Properties\<close>

subsection \<open>Sequencing and loops\<close>

lemma seq_Inr:
  "seq m f s = (Inr x, s') \<longleftrightarrow> (\<exists>y s1. m s = (Inr y, s1) \<and> f y s1 = (Inr x, s'))"
  by (auto simp: seq_def split: prod.splits sum.splits)

lemma seq_Inl_first: "m s = (Inl e, s1) \<Longrightarrow> seq m f s = (Inl e, s1)"
  by (simp add: seq_def)

lemma seq_Inr_first: "m s = (Inr y, s1) \<Longrightarrow> seq m f s = f y s1"
  by (simp add: seq_def)

lemma for_each_unchanged:
  "(\<And>x. x \<in> set xs \<Longrightarrow> body x s = (Inr (), s)) \<Longrightarrow> for_each xs body s = (Inr (), s)"
  by (induction xs) auto

lemma endswith_iff: "endswith s ext \<longleftrightarrow> (\<exists>p. s = p @ ext)"
proof
  assume "endswith s ext"
  then have "s = take (length s - length ext) s @ ext"
    by (metis append_take_drop_id endswith_def)
  then show "\<exists>p. s = p @ ext" ..
next
  assume "\<exists>p. s = p @ ext"
  then show "endswith s ext" by (auto simp: endswith_def)
qed

subsection \<open>The example run\<close>

lemma ex_loadGro: "loadGro ex_env ''a.gro'' ex_s0 = (Inr (), ex_sg)"
proof -
  have "fst (loadGro ex_env ''a.gro'' ex_s0) = Inr ()" by code_simp
  then show ?thesis by (simp add: ex_sg_def prod_eq_iff)
qed

lemma ex_loadTop: "loadTop ex_env ''a.top'' ex_sg = (Inr (), ex_st)"
proof -
  have "fst (loadTop ex_env ''a.top'' ex_sg) = Inr ()" by code_simp
  then show ?thesis by (simp add: ex_st_def prod_eq_iff)
qed

lemma ex_loadXml: "loadXml ex_env ''a.xml'' ex_st = (Inr (), ex_s1)"
proof -
  have "fst (loadXml ex_env ''a.xml'' ex_st) = Inr ()" by code_simp
  then show ?thesis by (simp add: ex_s1_def prod_eq_iff)
qed

lemma ex_createSimulation: "createSimulation ex_env ex_s1 = (Inr (), ex_s2)"
proof -
  have "fst (createSimulation ex_env ex_s1) = Inr ()" by code_simp
  then show ?thesis by (simp add: ex_s2_def prod_eq_iff)
qed

subsection \<open>File extensions and the order of loading\<close>

text \<open>
  C6. \<open>_check_file\<close> raises a \<open>ValueError\<close> exactly when the file name does not end,
  ignoring case, with the required extension (an extension written in lower case, as the
  three that \<open>loadSystem\<close> passes are). \<open>loadSystem\<close> checks and loads the coordinate
  file, then the topology, then the XML file, each check right before its load: a failing
  check of the coordinate file leaves everything but \<open>inputNames\<close> untouched; a failing
  check of the topology comes after the coordinate file has been read and stored and
  before anything else is read; the XML file is checked, and then loaded, only after both
  other loads have returned.
\<close>

theorem check_file_order:
  "(lower ext = ext \<longrightarrow>
      ((\<exists>msg. check_file filename ext = Inl (ValueError msg)) \<longleftrightarrow> \<not> endswith_ci filename ext) \<and>
      (check_file filename ext = Inr () \<longleftrightarrow> endswith_ci filename ext)) \<and>
   (check_file G ''.gro'' = Inl e \<longrightarrow>
      loadSystem env G T X s = (Inl e, s\<lparr>inputNames := Some [G, T, X]\<rparr>)) \<and>
   (check_file G ''.gro'' = Inr () \<and> GromacsGroFile env G = Some g \<and>
    check_file T ''.top'' = Inl e \<longrightarrow>
      loadSystem env G T X s =
        (Inl e, s\<lparr>inputNames := Some [G, T, X], io_log := io_log s @ [G], Gro := Some g\<rparr>)) \<and>
   (check_file G ''.gro'' = Inr () \<and>
    loadGro env G (s\<lparr>inputNames := Some [G, T, X]\<rparr>) = (Inr (), s1) \<and>
    check_file T ''.top'' = Inr () \<and> loadTop env T s1 = (Inr (), s2) \<longrightarrow>
      (check_file X ''.xml'' = Inl e \<longrightarrow> loadSystem env G T X s = (Inl e, s2)) \<and>
      (check_file X ''.xml'' = Inr () \<longrightarrow> loadSystem env G T X s = loadXml env X s2))"
proof (intro conjI impI)
  assume "lower ext = ext"
  then show "(\<exists>msg. check_file filename ext = Inl (ValueError msg)) \<longleftrightarrow> \<not> endswith_ci filename ext"
    by (auto simp: check_file_def endswith_ci_def)
next
  assume "lower ext = ext"
  then show "check_file filename ext = Inr () \<longleftrightarrow> endswith_ci filename ext"
    by (auto simp: check_file_def endswith_ci_def)
next
  assume "check_file G ''.gro'' = Inl e"
  then show "loadSystem env G T X s = (Inl e, s\<lparr>inputNames := Some [G, T, X]\<rparr>)"
    by (simp add: loadSystem_def seq_def)
next
  assume "check_file G ''.gro'' = Inr () \<and> GromacsGroFile env G = Some g \<and>
    check_file T ''.top'' = Inl e"
  then show "loadSystem env G T X s =
      (Inl e, s\<lparr>inputNames := Some [G, T, X], io_log := io_log s @ [G], Gro := Some g\<rparr>)"
    by (simp add: loadSystem_def seq_def loadGro_def)
next
  assume a: "check_file G ''.gro'' = Inr () \<and>
    loadGro env G (s\<lparr>inputNames := Some [G, T, X]\<rparr>) = (Inr (), s1) \<and>
    check_file T ''.top'' = Inr () \<and> loadTop env T s1 = (Inr (), s2)"
  {
    assume "check_file X ''.xml'' = Inl e"
    with a show "loadSystem env G T X s = (Inl e, s2)"
      by (simp add: loadSystem_def seq_def)
  next
    assume "check_file X ''.xml'' = Inr ()"
    with a show "loadSystem env G T X s = loadXml env X s2"
      by (simp add: loadSystem_def seq_def)
  }
qed

theorem check_file_order_witness:
  "lower ''.top'' = ''.top'' \<and>
   check_file ''model.TOP'' ''.top'' = Inr () \<and> endswith_ci ''model.TOP'' ''.top'' \<and>
   (\<exists>msg. check_file ''model.gro'' ''.top'' = Inl (ValueError msg)) \<and>
   \<not> endswith_ci ''model.gro'' ''.top'' \<and>
   (\<exists>e. check_file ''a.pdb'' ''.gro'' = Inl e \<and>
        loadSystem ex_env ''a.pdb'' ''a.top'' ''a.xml'' ex_s0 =
          (Inl e, ex_s0\<lparr>inputNames := Some [''a.pdb'', ''a.top'', ''a.xml'']\<rparr>)) \<and>
   (\<exists>e g. check_file ''a.gro'' ''.gro'' = Inr () \<and> GromacsGroFile ex_env ''a.gro'' = Some g \<and>
        check_file ''a.itp'' ''.top'' = Inl e \<and>
        loadSystem ex_env ''a.gro'' ''a.itp'' ''a.xml'' ex_s0 =
          (Inl e, ex_s0\<lparr>inputNames := Some [''a.gro'', ''a.itp'', ''a.xml''],
                        io_log := io_log ex_s0 @ [''a.gro''], Gro := Some g\<rparr>)) \<and>
   (\<exists>e s1 s2. check_file ''a.gro'' ''.gro'' = Inr () \<and>
        loadGro ex_env ''a.gro'' (ex_s0\<lparr>inputNames := Some [''a.gro'', ''a.top'', ''a.txt'']\<rparr>) =
          (Inr (), s1) \<and>
        check_file ''a.top'' ''.top'' = Inr () \<and> loadTop ex_env ''a.top'' s1 = (Inr (), s2) \<and>
        check_file ''a.txt'' ''.xml'' = Inl e \<and>
        loadSystem ex_env ''a.gro'' ''a.top'' ''a.txt'' ex_s0 = (Inl e, s2))"
proof -
  have l: "lower ''.top'' = ''.top''" by code_simp
  have c1: "check_file ''model.TOP'' ''.top'' = Inr ()" by code_simp
  have c2: "\<exists>msg. check_file ''model.gro'' ''.top'' = Inl (ValueError msg)"
    by (simp add: check_file_def endswith_def lower_def lower_char_def)
  obtain e1 where e1: "check_file ''a.pdb'' ''.gro'' = Inl e1"
    by (simp add: check_file_def endswith_def lower_def lower_char_def)
  have g1: "check_file ''a.gro'' ''.gro'' = Inr ()" by code_simp
  obtain g where g: "GromacsGroFile ex_env ''a.gro'' = Some g"
    by (simp add: ex_env_def)
  obtain e2 where e2: "check_file ''a.itp'' ''.top'' = Inl e2"
    by (simp add: check_file_def endswith_def lower_def lower_char_def)
  define sa where "sa = snd (loadGro ex_env ''a.gro''
    (ex_s0\<lparr>inputNames := Some [''a.gro'', ''a.top'', ''a.txt'']\<rparr>))"
  define sb where "sb = snd (loadTop ex_env ''a.top'' sa)"
  have "fst (loadGro ex_env ''a.gro''
      (ex_s0\<lparr>inputNames := Some [''a.gro'', ''a.top'', ''a.txt'']\<rparr>)) = Inr ()"
    by code_simp
  then have la: "loadGro ex_env ''a.gro''
      (ex_s0\<lparr>inputNames := Some [''a.gro'', ''a.top'', ''a.txt'']\<rparr>) = (Inr (), sa)"
    by (simp add: sa_def prod_eq_iff)
  have "fst (loadTop ex_env ''a.top'' (snd (loadGro ex_env ''a.gro''
      (ex_s0\<lparr>inputNames := Some [''a.gro'', ''a.top'', ''a.txt'']\<rparr>)))) = Inr ()"
    by code_simp
  then have lb: "loadTop ex_env ''a.top'' sa = (Inr (), sb)"
    by (simp add: sa_def sb_def prod_eq_iff)
  have t1: "check_file ''a.top'' ''.top'' = Inr ()" by code_simp
  obtain e3 where e3: "check_file ''a.txt'' ''.xml'' = Inl e3"
    by (simp add: check_file_def endswith_def lower_def lower_char_def)
  note A = check_file_order [of "''.top''" "''model.TOP''" "''a.pdb''" e1 ex_env "''a.top''"
      "''a.xml''" ex_s0 g sa sb]
  note B = check_file_order [of "''.top''" "''model.gro''" "''a.gro''" e2 ex_env "''a.itp''"
      "''a.xml''" ex_s0 g sa sb]
  note C = check_file_order [of "''.top''" "''model.gro''" "''a.gro''" e3 ex_env "''a.top''"
      "''a.txt''" ex_s0 g sa sb]
  from A l c1 have w1: "endswith_ci ''model.TOP'' ''.top''" by blast
  from B l c2 have w2: "\<not> endswith_ci ''model.gro'' ''.top''" by blast
  from A e1 have w3: "loadSystem ex_env ''a.pdb'' ''a.top'' ''a.xml'' ex_s0 =
      (Inl e1, ex_s0\<lparr>inputNames := Some [''a.pdb'', ''a.top'', ''a.xml'']\<rparr>)" by blast
  from B g1 g e2 have w4: "loadSystem ex_env ''a.gro'' ''a.itp'' ''a.xml'' ex_s0 =
      (Inl e2, ex_s0\<lparr>inputNames := Some [''a.gro'', ''a.itp'', ''a.xml''],
                    io_log := io_log ex_s0 @ [''a.gro''], Gro := Some g\<rparr>)" by blast
  from C g1 la t1 lb e3 have w5: "loadSystem ex_env ''a.gro'' ''a.top'' ''a.txt'' ex_s0 = (Inl e3, sb)"
    by blast
  show ?thesis
    using l c1 c2 w1 w2 e1 w3 g1 g e2 w4 la t1 lb e3 w5 by blast
qed

subsection \<open>The loading pass runs once\<close>

lemma loadXml_sets_forceApplied:
  "loadXml env x s = (Inr (), s') \<Longrightarrow> forceApplied s'"
  by (auto simp: loadXml_def seq_Inr split: if_splits)

lemma createSimulation_sets_loaded:
  "createSimulation env s = (Inr (), s') \<Longrightarrow> loaded s'"
  by (auto simp: createSimulation_def Let_def split: if_splits sum.splits option.splits prod.splits)

text \<open>
  C8. A call of \<open>loadXml\<close> that returns has set \<open>forceApplied\<close>; from a state with
  \<open>forceApplied\<close> set, any number of further calls of \<open>loadXml\<close>, with any files, return
  and leave the whole object as it is (the system, the dictionary of forces and the
  counter of force groups in particular). In the same way a call of \<open>createSimulation\<close>
  that returns has set \<open>loaded\<close>, and from then on any number of further calls leave the
  object, and with it the simulation context, as it is.
\<close>

theorem loading_runs_once:
  "(loadXml env x s = (Inr (), s') \<longrightarrow> forceApplied s') \<and>
   (forceApplied s \<longrightarrow> for_each xs (loadXml env) s = (Inr (), s)) \<and>
   (createSimulation env s = (Inr (), s') \<longrightarrow> loaded s') \<and>
   (loaded s \<longrightarrow> for_each us (\<lambda>_. createSimulation env) s = (Inr (), s))"
proof (intro conjI impI)
  assume "loadXml env x s = (Inr (), s')"
  then show "forceApplied s'" by (rule loadXml_sets_forceApplied)
next
  assume "forceApplied s"
  then have "\<And>y. loadXml env y s = (Inr (), s)" by (simp add: loadXml_def)
  then show "for_each xs (loadXml env) s = (Inr (), s)" by (simp add: for_each_unchanged)
next
  assume "createSimulation env s = (Inr (), s')"
  then show "loaded s'" by (rule createSimulation_sets_loaded)
next
  assume "loaded s"
  then have "createSimulation env s = (Inr (), s)" by (simp add: createSimulation_def)
  then show "for_each us (\<lambda>_. createSimulation env) s = (Inr (), s)"
    by (simp add: for_each_unchanged)
qed

theorem loading_runs_once_witness:
  "loadXml ex_env ''a.xml'' ex_st = (Inr (), ex_s1) \<and> forceApplied ex_s1 \<and>
   for_each [''a.xml'', ''b.xml''] (loadXml ex_env) ex_s1 = (Inr (), ex_s1) \<and>
   createSimulation ex_env ex_s1 = (Inr (), ex_s2) \<and> loaded ex_s2 \<and>
   for_each [(), ()] (\<lambda>_. createSimulation ex_env) ex_s2 = (Inr (), ex_s2)"
proof -
  note A = loading_runs_once [of ex_env "''a.xml''" ex_st ex_s1 "[]" "[]"]
  note B = loading_runs_once [of ex_env "''a.xml''" ex_s1 ex_s2 "[''a.xml'', ''b.xml'']" "[]"]
  note C = loading_runs_once [of ex_env "''a.xml''" ex_s2 ex_s2 "[]" "[(), ()]"]
  from A ex_loadXml have a: "forceApplied ex_s1" by blast
  from B a have b: "for_each [''a.xml'', ''b.xml''] (loadXml ex_env) ex_s1 = (Inr (), ex_s1)"
    by blast
  from B ex_createSimulation have c: "loaded ex_s2" by blast
  from C c have d: "for_each [(), ()] (\<lambda>_. createSimulation ex_env) ex_s2 = (Inr (), ex_s2)"
    by blast
  show ?thesis using ex_loadXml a b ex_createSimulation c d by blast
qed

subsection \<open>Sections that the XML file may leave out\<close>

text \<open>
  C4 (the code departs from the claim). On a freshly constructed object, after
  \<open>setup_openmm\<close>, \<open>loadGro\<close> and \<open>loadTop\<close>, two files that the schema accepts make
  \<open>loadXml\<close> raise \<open>AttributeError\<close>, not \<open>ValueError\<close>: a file with a \<open>contacts\<close> section
  and no \<open>constants\<close> section (the attribute \<open>constants_present\<close> is read by
  \<open>_customSmogForce\<close> but was never assigned), and a file with \<open>constants\<close> and \<open>contacts\<close>
  and no \<open>nonbond\<close> section (\<open>nonbond_present\<close> was never assigned). In the second case the
  contact force has already been added to the system and \<open>forceApplied\<close> is still unset.
\<close>

theorem loadXml_missing_section_AttributeError:
  "parse_xml ex_env ''contacts_only.xml'' = Some ex_doc_contacts_only \<and>
   xmlschema ex_env ex_doc_contacts_only \<and>
   find_child ''contacts'' ex_doc_contacts_only = Some ex_contacts \<and>
   find_child ''constants'' ex_doc_contacts_only = None \<and>
   fst (loadXml ex_env ''contacts_only.xml'' ex_st) = Inl (AttributeError ''constants_present'') \<and>
   fst (loadSystem ex_env ''a.gro'' ''a.top'' ''contacts_only.xml'' ex_s0) =
     Inl (AttributeError ''constants_present'') \<and>
   parse_xml ex_env ''no_nonbond.xml'' = Some ex_doc_no_nonbond \<and>
   xmlschema ex_env ex_doc_no_nonbond \<and>
   find_child ''contacts'' ex_doc_no_nonbond = Some ex_contacts \<and>
   find_child ''nonbond'' ex_doc_no_nonbond = None \<and>
   fst (loadXml ex_env ''no_nonbond.xml'' ex_st) = Inl (AttributeError ''nonbond_present'') \<and>
   map_option sys_forces (system (snd (loadXml ex_env ''no_nonbond.xml'' ex_st))) =
     Some [0, 1, 2, 3, 4, 5, 6, 7, 8] \<and>
   \<not> forceApplied (snd (loadXml ex_env ''no_nonbond.xml'' ex_st))"
  by code_simp

subsection \<open>The check for undefined table entries\<close>

text \<open>
  C2 (the code departs from the claim). The check \<open>np.sum(tables[par]==np.nan)!=0\<close>
  counts the cells that are equal to NaN, and no float is equal to NaN: the count is 0 for
  every table, so the \<open>ValueError\<close> is never raised. With the nonbonded entries \<open>(A, A)\<close>
  and \<open>(B, B)\<close> only, the pair \<open>(A, B)\<close> is undefined; \<open>loadXml\<close> returns normally and the
  tabulated function \<open>C12\<close> of the force it registered holds NaN in both cells of that
  pair.
\<close>

theorem nan_check_never_fires:
  "nan_count t = 0 \<and>
   parse_xml ex_env ''missing_pair.xml'' = Some ex_doc_missing_pair \<and>
   fst (loadXml ex_env ''missing_pair.xml'' ex_st) = Inr () \<and>
   atom_types (snd (loadXml ex_env ''missing_pair.xml'' ex_st)) = Some [''A'', ''B''] \<and>
   map_option (\<lambda>fd. map_of fd ''Nonbonded0'')
     (forcesDict (snd (loadXml ex_env ''missing_pair.xml'' ex_st))) = Some (Some 9) \<and>
   tabulatedFunctions (heap (snd (loadXml ex_env ''missing_pair.xml'' ex_st)) ! 9) =
     [(''C12'', 2, 2, [Num 1, NaN, NaN, Num 3])]"
proof -
  have "float_eq c NaN = False" for c by (cases c) simp_all
  then have a: "nan_count t = 0" by (simp add: nan_count_def)
  have b: "parse_xml ex_env ''missing_pair.xml'' = Some ex_doc_missing_pair \<and>
   fst (loadXml ex_env ''missing_pair.xml'' ex_st) = Inr () \<and>
   atom_types (snd (loadXml ex_env ''missing_pair.xml'' ex_st)) = Some [''A'', ''B''] \<and>
   map_option (\<lambda>fd. map_of fd ''Nonbonded0'')
     (forcesDict (snd (loadXml ex_env ''missing_pair.xml'' ex_st))) = Some (Some 9) \<and>
   tabulatedFunctions (heap (snd (loadXml ex_env ''missing_pair.xml'' ex_st)) ! 9) =
     [(''C12'', 2, 2, [Num 1, NaN, NaN, Num 3])]"
    by code_simp
  from a b show ?thesis by blast
qed

subsection \<open>The type index\<close>

text \<open>
  C3 (the code departs from the claim). The index is built from the \<open>type1\<close> attributes
  alone. A record whose only entry has \<open>type1 = A\<close> and \<open>type2 = B\<close> gives the index
  \<open>[A]\<close>; the label \<open>B\<close> is not in it, its lookup raises \<open>IndexError\<close>, and the entry's pair
  resolves to no position of the table.
\<close>

theorem type2_label_not_indexed:
  "parse_xml ex_env ''type2_only.xml'' = Some ex_doc_type2_only \<and>
   map_option xd_nonbond (data (snd (loadXml ex_env ''type2_only.xml'' ex_st))) =
     Some (Some ([0], [''C12(type1,type2)/r^12''], [[Some ''C12'']],
                 [[[(''type1'', ''A''), (''type2'', ''B''), (''C12'', ''2'')]]])) \<and>
   fst (loadXml ex_env ''type2_only.xml'' ex_st) = Inl IndexError \<and>
   atom_types (snd (loadXml ex_env ''type2_only.xml'' ex_st)) = Some [''A''] \<and>
   index_of [''A''] ''B'' = Inl IndexError \<and>
   customSmogForce_nb ex_env 0
     (''C12(type1,type2)/r^12'', [Some ''C12''],
      [[(''type1'', ''A''), (''type2'', ''B''), (''C12'', ''2'')]]) ex_s1 =
     (Inl IndexError, ex_s1\<lparr>atom_types := Some [''A'']\<rparr>)"
  by code_simp

subsection \<open>The contact force\<close>

lemma ebind_Inr [simp]: "ebind (Inr x) f = f x"
  by (simp add: ebind_def)

lemma ebind_Inl [simp]: "ebind (Inl e) f = Inl e"
  by (simp add: ebind_def)

lemma efold_addPerBondParameter:
  "efold addPerBondParameter (map Some ps) ff =
     Inr (ff\<lparr>perBondParameters := perBondParameters ff @ ps\<rparr>)"
  by (induction ps arbitrary: ff) (simp_all add: addPerBondParameter_def)

lemma emap_parameters:
  "those (map (\<lambda>k. Option.bind (map_of x k) (py_float env)) ps) = Some vs \<Longrightarrow>
   emap (\<lambda>k. ebind (getitem_opt x k) (to_float (py_float env))) (map Some ps) = Inr vs"
proof (induction ps arbitrary: vs)
  case Nil
  then show ?case by simp
next
  case (Cons k ps)
  then show ?case
    by (auto simp: getitem_opt_def getitem_def to_float_def Option.bind_eq_Some_conv
        split: option.splits)
qed

lemma interaction_bond_claimed:
  "claimed_bond env ps x = Some b \<Longrightarrow> interaction_bond env (map Some ps) x = Inr b"
  by (auto simp: claimed_bond_def interaction_bond_def getitem_def to_int_def
      emap_parameters Option.bind_eq_Some_conv split: option.splits)

lemma efold_bonds:
  "those (map (claimed_bond env ps) xs) = Some bs \<Longrightarrow>
   efold (\<lambda>iteraction ff'. ebind (interaction_bond env (map Some ps) iteraction)
            (\<lambda>b. case b of (i, j, vs) \<Rightarrow> Inr (addBond i j vs ff'))) xs ff =
     Inr (ff\<lparr>bonds := bonds ff @ bs\<rparr>)"
proof (induction xs arbitrary: ff bs)
  case Nil
  then show ?case by simp
next
  case (Cons x xs)
  from Cons.prems obtain b bs' where b: "claimed_bond env ps x = Some b"
    and bs': "those (map (claimed_bond env ps) xs) = Some bs'" and bs: "bs = b # bs'"
    by (auto split: option.splits)
  obtain i j vs where bt: "b = (i, j, vs)" by (cases b) auto
  show ?case
    using Cons.IH [OF bs', of "addBond i j vs ff"] b bt bs
    by (simp add: interaction_bond_claimed addBond_def)
qed

lemma those_length: "those xs = Some ys \<Longrightarrow> length ys = length xs"
  by (induction xs arbitrary: ys) (auto split: option.splits)

lemma those_all_Some: "list_all (\<lambda>x. f x \<noteq> None) xs \<Longrightarrow> \<exists>ys. those (map f xs) = Some ys"
  by (induction xs) auto

lemma contacts_force_claimed:
  "those (map (claimed_bond env ps) xs) = Some bs \<Longrightarrow>
   contacts_force env (e, map Some ps, xs) =
     Inr ((new_force CustomBondForce e)\<lparr>perBondParameters := ps, bonds := bs\<rparr>)"
  by (simp add: contacts_force_def efold_addPerBondParameter efold_bonds new_force_def)

lemma add_constants_frame:
  "add_constants s ff = Inr ff' \<Longrightarrow>
   force_class ff' = force_class ff \<and> energy ff' = energy ff \<and>
   perBondParameters ff' = perBondParameters ff \<and> bonds ff' = bonds ff \<and>
   perParticleParameters ff' = perParticleParameters ff \<and>
   tabulatedFunctions ff' = tabulatedFunctions ff \<and> exclusions ff' = exclusions ff \<and>
   particles ff' = particles ff"
proof -
  have "force_class (fold (\<lambda>kv. addGlobalParameter (fst kv) (snd kv)) cs ff) = force_class ff \<and>
        energy (fold (\<lambda>kv. addGlobalParameter (fst kv) (snd kv)) cs ff) = energy ff \<and>
        perBondParameters (fold (\<lambda>kv. addGlobalParameter (fst kv) (snd kv)) cs ff) = perBondParameters ff \<and>
        bonds (fold (\<lambda>kv. addGlobalParameter (fst kv) (snd kv)) cs ff) = bonds ff \<and>
        perParticleParameters (fold (\<lambda>kv. addGlobalParameter (fst kv) (snd kv)) cs ff) = perParticleParameters ff \<and>
        tabulatedFunctions (fold (\<lambda>kv. addGlobalParameter (fst kv) (snd kv)) cs ff) = tabulatedFunctions ff \<and>
        exclusions (fold (\<lambda>kv. addGlobalParameter (fst kv) (snd kv)) cs ff) = exclusions ff \<and>
        particles (fold (\<lambda>kv. addGlobalParameter (fst kv) (snd kv)) cs ff) = particles ff" for cs
    by (induction cs arbitrary: ff) (simp_all add: addGlobalParameter_def)
  then show "add_constants s ff = Inr ff' \<Longrightarrow> ?thesis"
    by (auto simp: add_constants_def split: option.splits if_splits)
qed

lemma register_force_result:
  "register_force key ff s = (Inr (), s') \<longleftrightarrow>
   (\<exists>fd. forcesDict s = Some fd \<and>
         s' = s\<lparr>heap := heap s @ [ff\<lparr>forceGroup := forceCount s\<rparr>],
                forcesDict := Some (AList.update key (length (heap s)) fd),
                forceCount := forceCount s + 1\<rparr>)"
  by (auto simp: register_force_def setForceGroup_def Let_def split: option.splits)

lemma register_force_error:
  "register_force key ff s = (Inl e, s') \<longleftrightarrow>
   (forcesDict s = None \<and> e = AttributeError ''forcesDict'' \<and> s' = s)"
  by (auto simp: register_force_def setForceGroup_def Let_def split: option.splits)

lemma customSmogForce_result:
  "customSmogForce env fname fdata s = (Inr (), s') \<longleftrightarrow>
   (\<exists>ff ff' fd. contacts_force env fdata = Inr ff \<and> add_constants s ff = Inr ff' \<and>
        forcesDict s = Some fd \<and>
        s' = s\<lparr>heap := heap s @ [ff'\<lparr>forceGroup := forceCount s\<rparr>],
               forcesDict := Some (AList.update fname (length (heap s)) fd),
               forceCount := forceCount s + 1\<rparr>)"
  by (auto simp: customSmogForce_def ebind_def register_force_result split: sum.splits)

lemma add_constants_ready: "constants_ready s \<Longrightarrow> \<exists>ff'. add_constants s ff = Inr ff'"
  by (auto simp: constants_ready_def add_constants_def split: option.splits)

text \<open>
  C1. For a record \<open>(e, ps, xs)\<close> whose interactions all have the attributes \<open>i\<close>, \<open>j\<close> and
  those named in \<open>ps\<close>, readable as numbers, \<open>_customSmogForce\<close> builds a custom bond force
  with energy expression \<open>e\<close>, per-bond parameters \<open>ps\<close> in list order, and one bond per
  element of \<open>xs\<close>, in order: the bond of an element has its \<open>i\<close> and \<open>j\<close> less 1 as particle
  indices and its attributes in the order of \<open>ps\<close>, as floats, as parameter values. When
  the method returns, that force is the new object of the store that
  \<open>forcesDict\<close> holds under the given name; and it does return whenever the global
  constants can be added and \<open>forcesDict\<close> exists.
\<close>

theorem customSmogForce_builds_bonds:
  assumes ok: "list_all (\<lambda>x. claimed_bond env ps x \<noteq> None) xs"
  shows "\<exists>ff. contacts_force env (e, map Some ps, xs) = Inr ff \<and>
           force_class ff = CustomBondForce \<and> energy ff = e \<and> perBondParameters ff = ps \<and>
           those (map (claimed_bond env ps) xs) = Some (bonds ff) \<and>
           length (bonds ff) = length xs \<and>
           (\<forall>fname s s'. customSmogForce env fname (e, map Some ps, xs) s = (Inr (), s') \<longrightarrow>
              (\<exists>fd r. forcesDict s' = Some fd \<and> map_of fd fname = Some r \<and>
                 r = length (heap s) \<and> length (heap s') = Suc (length (heap s)) \<and>
                 force_class (heap s' ! r) = CustomBondForce \<and> energy (heap s' ! r) = e \<and>
                 perBondParameters (heap s' ! r) = ps \<and> bonds (heap s' ! r) = bonds ff)) \<and>
           (\<forall>fname s. constants_ready s \<and> forcesDict s \<noteq> None \<longrightarrow>
              fst (customSmogForce env fname (e, map Some ps, xs) s) = Inr ())"
proof -
  from ok obtain bs where bs: "those (map (claimed_bond env ps) xs) = Some bs"
    using those_all_Some by blast
  define ff where "ff = (new_force CustomBondForce e)\<lparr>perBondParameters := ps, bonds := bs\<rparr>"
  have cf: "contacts_force env (e, map Some ps, xs) = Inr ff"
    using bs by (simp add: contacts_force_claimed ff_def)
  have len: "length (bonds ff) = length xs"
    using those_length [OF bs] by (simp add: ff_def)
  have reg: "\<exists>fd r. forcesDict s' = Some fd \<and> map_of fd fname = Some r \<and>
                 r = length (heap s) \<and> length (heap s') = Suc (length (heap s)) \<and>
                 force_class (heap s' ! r) = CustomBondForce \<and> energy (heap s' ! r) = e \<and>
                 perBondParameters (heap s' ! r) = ps \<and> bonds (heap s' ! r) = bonds ff"
    if "customSmogForce env fname (e, map Some ps, xs) s = (Inr (), s')" for fname s s'
  proof -
    from that cf obtain ff' fd where a: "add_constants s ff = Inr ff'"
      and fd: "forcesDict s = Some fd"
      and s': "s' = s\<lparr>heap := heap s @ [ff'\<lparr>forceGroup := forceCount s\<rparr>],
               forcesDict := Some (AList.update fname (length (heap s)) fd),
               forceCount := forceCount s + 1\<rparr>"
      by (auto simp: customSmogForce_result)
    from add_constants_frame [OF a] show ?thesis
      by (simp add: s' update_conv' ff_def new_force_def)
  qed
  have ret: "fst (customSmogForce env fname (e, map Some ps, xs) s) = Inr ()"
    if "constants_ready s \<and> forcesDict s \<noteq> None" for fname s
  proof -
    from that obtain ff' where "add_constants s ff = Inr ff'"
      using add_constants_ready by blast
    with that cf show ?thesis
      by (auto simp: customSmogForce_def ebind_def register_force_def Let_def)
  qed
  show ?thesis
    using cf len bs reg ret by (intro exI [of _ ff]) (simp add: ff_def new_force_def)
qed

theorem customSmogForce_builds_bonds_witness:
  "list_all (\<lambda>x. claimed_bond ex_env [''A''] x \<noteq> None) ex_inters \<and>
   constants_ready ex_s1 \<and> forcesDict ex_s1 \<noteq> None \<and>
   (\<exists>ff. contacts_force ex_env (''A/r^12'', [Some ''A''], ex_inters) = Inr ff \<and>
         energy ff = ''A/r^12'' \<and> perBondParameters ff = [''A''] \<and>
         bonds ff = [(0, 1, [Num 3]), (4, 6, [Num 40])] \<and>
         (\<exists>s' r. customSmogForce ex_env ''c3'' (''A/r^12'', [Some ''A''], ex_inters) ex_s1 = (Inr (), s') \<and>
            Option.bind (forcesDict s') (\<lambda>fd. map_of fd ''c3'') = Some r \<and>
            r = 10 \<and> energy (heap s' ! r) = ''A/r^12'' \<and> perBondParameters (heap s' ! r) = [''A''] \<and>
            bonds (heap s' ! r) = [(0, 1, [Num 3]), (4, 6, [Num 40])]))"
proof -
  have ok: "list_all (\<lambda>x. claimed_bond ex_env [''A''] x \<noteq> None) ex_inters" by code_simp
  have cr: "constants_ready ex_s1 \<and> forcesDict ex_s1 \<noteq> None" by code_simp
  have th: "those (map (claimed_bond ex_env [''A'']) ex_inters) = Some [(0, 1, [Num 3]), (4, 6, [Num 40])]"
    by code_simp
  have hl: "length (heap ex_s1) = 10" by code_simp
  from customSmogForce_builds_bonds [OF ok, of "''A/r^12''"]
  obtain ff where cf: "contacts_force ex_env (''A/r^12'', map Some [''A''], ex_inters) = Inr ff"
    and en: "energy ff = ''A/r^12''" and pb: "perBondParameters ff = [''A'']"
    and bs: "those (map (claimed_bond ex_env [''A'']) ex_inters) = Some (bonds ff)"
    and reg: "\<forall>fname s s'. customSmogForce ex_env fname (''A/r^12'', map Some [''A''], ex_inters) s = (Inr (), s') \<longrightarrow>
              (\<exists>fd r. forcesDict s' = Some fd \<and> map_of fd fname = Some r \<and>
                 r = length (heap s) \<and> length (heap s') = Suc (length (heap s)) \<and>
                 force_class (heap s' ! r) = CustomBondForce \<and> energy (heap s' ! r) = ''A/r^12'' \<and>
                 perBondParameters (heap s' ! r) = [''A''] \<and> bonds (heap s' ! r) = bonds ff)"
    and ret: "\<forall>fname s. constants_ready s \<and> forcesDict s \<noteq> None \<longrightarrow>
              fst (customSmogForce ex_env fname (''A/r^12'', map Some [''A''], ex_inters) s) = Inr ()"
    by blast
  from bs th have b: "bonds ff = [(0, 1, [Num 3]), (4, 6, [Num 40])]" by simp
  from ret cr have "fst (customSmogForce ex_env ''c3'' (''A/r^12'', map Some [''A''], ex_inters) ex_s1) = Inr ()"
    by blast
  then obtain s' where s': "customSmogForce ex_env ''c3'' (''A/r^12'', map Some [''A''], ex_inters) ex_s1 = (Inr (), s')"
    by (metis prod.collapse)
  with reg obtain fd r where "forcesDict s' = Some fd" "map_of fd ''c3'' = Some r" "r = length (heap ex_s1)"
    "energy (heap s' ! r) = ''A/r^12''" "perBondParameters (heap s' ! r) = [''A'']"
    "bonds (heap s' ! r) = bonds ff"
    by blast
  with hl b s' have "\<exists>s' r. customSmogForce ex_env ''c3'' (''A/r^12'', [Some ''A''], ex_inters) ex_s1 = (Inr (), s') \<and>
            Option.bind (forcesDict s') (\<lambda>fd. map_of fd ''c3'') = Some r \<and>
            r = 10 \<and> energy (heap s' ! r) = ''A/r^12'' \<and> perBondParameters (heap s' ! r) = [''A''] \<and>
            bonds (heap s' ! r) = [(0, 1, [Num 3]), (4, 6, [Num 40])]"
    by auto
  with ok cr cf en pb b show ?thesis by auto
qed

subsection \<open>The forces that loadXml creates\<close>

lemma efold_split_entry:
  "\<forall>i\<in>set ns. i < length es \<and> i < length ps \<and> i < length xs \<and> i < length ks \<Longrightarrow>
   efold (split_entry es ps xs ks) ns acc =
     Inr (fold (\<lambda>i. AList.update (ks ! i) (es ! i, ps ! i, xs ! i)) ns acc)"
  by (induction ns arbitrary: acc) (simp_all add: split_entry_def nth_py_def)

lemma update_fresh: "k \<notin> fst ` set al \<Longrightarrow> AList.update k v al = al @ [(k, v)]"
  by (induction al) auto

lemma fold_update_distinct:
  "distinct (map f ns) \<Longrightarrow> f ` set ns \<inter> fst ` set acc = {} \<Longrightarrow>
   fold (\<lambda>i. AList.update (f i) (g i)) ns acc = acc @ map (\<lambda>i. (f i, g i)) ns"
proof (induction ns arbitrary: acc)
  case Nil
  then show ?case by simp
next
  case (Cons n ns)
  from Cons.prems have fresh: "f n \<notin> fst ` set acc" by auto
  have "f ` set ns \<inter> fst ` set (acc @ [(f n, g n)]) = {}"
    using Cons.prems by auto
  with Cons.IH [of "acc @ [(f n, g n)]"] Cons.prems fresh show ?case
    by (simp add: update_fresh)
qed

lemma fold_update_keys:
  "fst ` set (fold (\<lambda>i. AList.update (f i) (g i)) ns acc) = f ` set ns \<union> fst ` set acc"
  by (induction ns arbitrary: acc) (auto simp: dom_update)

lemma fold_update_distinct_keys:
  "distinct (map fst acc) \<Longrightarrow> distinct (map fst (fold (\<lambda>i. AList.update (f i) (g i)) ns acc))"
  by (induction ns arbitrary: acc) (simp_all add: distinct_update)

lemma fold_update_lookup:
  "k \<in> f ` set ns \<Longrightarrow>
   \<exists>i\<in>set ns. f i = k \<and> map_of (fold (\<lambda>i. AList.update (f i) (g i)) ns acc) k = Some (g i)"
proof (induction ns arbitrary: acc)
  case Nil
  then show ?case by simp
next
  case (Cons n ns)
  show ?case
  proof (cases "k \<in> f ` set ns")
    case True
    from Cons.IH [OF True, of "AList.update (f n) (g n) acc"] show ?thesis by auto
  next
    case False
    with Cons.prems have kn: "f n = k" by auto
    have "map_of (fold (\<lambda>i. AList.update (f i) (g i)) ns acc') k = map_of acc' k" for acc'
      using False by (induction ns arbitrary: acc') (auto simp: update_conv')
    then show ?thesis using kn by (auto simp: update_conv')
  qed
qed

lemma zip_as_map:
  "length es = length ks \<Longrightarrow> length ps = length ks \<Longrightarrow> length xs = length ks \<Longrightarrow>
   map (\<lambda>i. (ks ! i, es ! i, ps ! i, xs ! i)) [0 ..< length ks] = zip ks (zip es (zip ps xs))"
  by (rule nth_equalityI) simp_all

lemma addForce_of_result:
  "addForce_of k s = (Inr (), s') \<longleftrightarrow>
   (\<exists>sy fd r. system s = Some sy \<and> forcesDict s = Some fd \<and> map_of fd k = Some r \<and>
      s' = s\<lparr>system := Some (sy\<lparr>sys_forces := sys_forces sy @ [r]\<rparr>)\<rparr>)"
  by (auto simp: addForce_of_def split: option.splits)

lemma contact_step:
  "seq (customSmogForce env k d) (\<lambda>_. addForce_of k) s = (Inr (), s') \<longleftrightarrow>
   (\<exists>f fd sy. built_contact env s (forceCount s) d f \<and> forcesDict s = Some fd \<and>
      system s = Some sy \<and>
      s' = s\<lparr>heap := heap s @ [f],
             forcesDict := Some (AList.update k (length (heap s)) fd),
             forceCount := forceCount s + 1,
             system := Some (sy\<lparr>sys_forces := sys_forces sy @ [length (heap s)]\<rparr>)\<rparr>)"
proof
  assume "seq (customSmogForce env k d) (\<lambda>_. addForce_of k) s = (Inr (), s')"
  then obtain s1 where a: "customSmogForce env k d s = (Inr (), s1)"
    and b: "addForce_of k s1 = (Inr (), s')"
    by (auto simp: seq_Inr)
  from a obtain ff ff' fd where cf: "contacts_force env d = Inr ff"
    and ac: "add_constants s ff = Inr ff'" and fd: "forcesDict s = Some fd"
    and s1: "s1 = s\<lparr>heap := heap s @ [ff'\<lparr>forceGroup := forceCount s\<rparr>],
               forcesDict := Some (AList.update k (length (heap s)) fd),
               forceCount := forceCount s + 1\<rparr>"
    unfolding customSmogForce_result by blast
  from b obtain sy where sy: "system s1 = Some sy"
    and s': "s' = s1\<lparr>system := Some (sy\<lparr>sys_forces := sys_forces sy @ [length (heap s)]\<rparr>)\<rparr>"
    unfolding addForce_of_result by (auto simp: s1 update_conv')
  have "built_contact env s (forceCount s) d (ff'\<lparr>forceGroup := forceCount s\<rparr>)"
    using cf ac by (auto simp: built_contact_def)
  moreover have "system s = Some sy" using sy by (simp add: s1)
  ultimately show "\<exists>f fd sy. built_contact env s (forceCount s) d f \<and> forcesDict s = Some fd \<and>
      system s = Some sy \<and>
      s' = s\<lparr>heap := heap s @ [f],
             forcesDict := Some (AList.update k (length (heap s)) fd),
             forceCount := forceCount s + 1,
             system := Some (sy\<lparr>sys_forces := sys_forces sy @ [length (heap s)]\<rparr>)\<rparr>"
    using fd by (intro exI [of _ "ff'\<lparr>forceGroup := forceCount s\<rparr>"] exI [of _ fd] exI [of _ sy])
      (simp add: s' s1)
next
  assume "\<exists>f fd sy. built_contact env s (forceCount s) d f \<and> forcesDict s = Some fd \<and>
      system s = Some sy \<and>
      s' = s\<lparr>heap := heap s @ [f],
             forcesDict := Some (AList.update k (length (heap s)) fd),
             forceCount := forceCount s + 1,
             system := Some (sy\<lparr>sys_forces := sys_forces sy @ [length (heap s)]\<rparr>)\<rparr>"
  then obtain ff ff' fd sy where cf: "contacts_force env d = Inr ff"
    and ac: "add_constants s ff = Inr ff'" and fd: "forcesDict s = Some fd"
    and sy: "system s = Some sy"
    and s': "s' = s\<lparr>heap := heap s @ [ff'\<lparr>forceGroup := forceCount s\<rparr>],
             forcesDict := Some (AList.update k (length (heap s)) fd),
             forceCount := forceCount s + 1,
             system := Some (sy\<lparr>sys_forces := sys_forces sy @ [length (heap s)]\<rparr>)\<rparr>"
    by (auto simp: built_contact_def)
  define s1 where "s1 = s\<lparr>heap := heap s @ [ff'\<lparr>forceGroup := forceCount s\<rparr>],
               forcesDict := Some (AList.update k (length (heap s)) fd),
               forceCount := forceCount s + 1\<rparr>"
  have a: "customSmogForce env k d s = (Inr (), s1)"
    unfolding customSmogForce_result using cf ac fd by (auto simp: s1_def)
  have b: "addForce_of k s1 = (Inr (), s')"
    unfolding addForce_of_result using sy by (auto simp: s1_def s' update_conv')
  from a b show "seq (customSmogForce env k d) (\<lambda>_. addForce_of k) s = (Inr (), s')"
    by (auto simp: seq_Inr)
qed

lemma built_contact_cong:
  "constants_present s1 = constants_present s \<Longrightarrow> data s1 = data s \<Longrightarrow>
   built_contact env s1 g d f = built_contact env s g d f"
  by (auto simp: built_contact_def add_constants_def split: option.splits)

lemma dict_updates_Cons:
  "dict_updates (k # keys) l fd = dict_updates keys (Suc l) (AList.update k l fd)"
proof -
  have "[l ..< l + length (k # keys)] = l # [Suc l ..< Suc l + length keys]"
    by (simp del: upt_Suc add: upt_conv_Cons)
  then show ?thesis
    unfolding dict_updates_def by (simp del: upt_Suc)
qed

lemma contacts_loop:
  "for_each cs (\<lambda>entry. seq (customSmogForce env (fst entry) (snd entry))
                            (\<lambda>_. addForce_of (fst entry))) s = (Inr (), s') \<Longrightarrow>
   \<exists>fs. length fs = length cs \<and>
        (\<forall>i<length cs. built_contact env s (forceCount s + int i) (snd (cs ! i)) (fs ! i)) \<and>
        s' = s\<lparr>heap := heap s @ fs,
               forcesDict := map_option (dict_updates (map fst cs) (length (heap s))) (forcesDict s),
               forceCount := forceCount s + int (length cs),
               system := map_option
                 (\<lambda>sy. sy\<lparr>sys_forces := sys_forces sy @
                                          [length (heap s) ..< length (heap s) + length cs]\<rparr>)
                 (system s)\<rparr>"
proof (induction cs arbitrary: s)
  case Nil
  then show ?case by (simp add: dict_updates_def option.map_ident)
next
  case (Cons c cs)
  from Cons.prems obtain s1 where
    c: "seq (customSmogForce env (fst c) (snd c)) (\<lambda>_. addForce_of (fst c)) s = (Inr (), s1)"
    and r: "for_each cs (\<lambda>entry. seq (customSmogForce env (fst entry) (snd entry))
                            (\<lambda>_. addForce_of (fst entry))) s1 = (Inr (), s')"
    by (auto split: prod.splits sum.splits)
  from c obtain f fd sy where f: "built_contact env s (forceCount s) (snd c) f"
    and fd: "forcesDict s = Some fd" and sy: "system s = Some sy"
    and s1: "s1 = s\<lparr>heap := heap s @ [f],
             forcesDict := Some (AList.update (fst c) (length (heap s)) fd),
             forceCount := forceCount s + 1,
             system := Some (sy\<lparr>sys_forces := sys_forces sy @ [length (heap s)]\<rparr>)\<rparr>"
    unfolding contact_step by blast
  from Cons.IH [OF r] obtain fs where len: "length fs = length cs"
    and built: "\<forall>i<length cs. built_contact env s1 (forceCount s1 + int i) (snd (cs ! i)) (fs ! i)"
    and s': "s' = s1\<lparr>heap := heap s1 @ fs,
               forcesDict := map_option (dict_updates (map fst cs) (length (heap s1))) (forcesDict s1),
               forceCount := forceCount s1 + int (length cs),
               system := map_option
                 (\<lambda>sy. sy\<lparr>sys_forces := sys_forces sy @
                                          [length (heap s1) ..< length (heap s1) + length cs]\<rparr>)
                 (system s1)\<rparr>"
    by blast
  have cong: "built_contact env s1 g d x = built_contact env s g d x" for g d x
    by (rule built_contact_cong) (simp_all add: s1)
  have fc: "forceCount s1 = forceCount s + 1" by (simp add: s1)
  have hp: "heap s1 = heap s @ [f]" by (simp add: s1)
  have b: "\<forall>i<length (c # cs). built_contact env s (forceCount s + int i) (snd ((c # cs) ! i)) ((f # fs) ! i)"
  proof (intro allI impI)
    fix i assume i: "i < length (c # cs)"
    show "built_contact env s (forceCount s + int i) (snd ((c # cs) ! i)) ((f # fs) ! i)"
    proof (cases i)
      case 0
      with f show ?thesis by simp
    next
      case (Suc j)
      with i built have "built_contact env s1 (forceCount s1 + int j) (snd (cs ! j)) (fs ! j)"
        by simp
      then show ?thesis using Suc by (simp add: cong fc add.assoc)
    qed
  qed
  have e: "s' = s\<lparr>heap := heap s @ (f # fs),
               forcesDict := map_option (dict_updates (map fst (c # cs)) (length (heap s))) (forcesDict s),
               forceCount := forceCount s + int (length (c # cs)),
               system := map_option
                 (\<lambda>sy. sy\<lparr>sys_forces := sys_forces sy @
                                          [length (heap s) ..< length (heap s) + length (c # cs)]\<rparr>)
                 (system s)\<rparr>"
  proof -
    have u: "[length (heap s) ..< length (heap s) + length (c # cs)] =
        length (heap s) # [Suc (length (heap s)) ..< Suc (length (heap s)) + length cs]"
      by (simp del: upt_Suc add: upt_conv_Cons)
    show ?thesis
      unfolding u by (simp del: upt_Suc add: s' s1 fd sy dict_updates_Cons)
  qed
  from len b e show ?case by (intro exI [of _ "f # fs"]) simp
qed

lemma emap_nth:
  "emap f xs = Inr ys \<Longrightarrow> length ys = length xs \<and> (\<forall>i<length xs. f (xs ! i) = Inr (ys ! i))"
proof (induction xs arbitrary: ys)
  case Nil
  then show ?case by simp
next
  case (Cons x xs)
  from Cons.prems obtain y ys' where y: "f x = Inr y" and ys': "emap f xs = Inr ys'"
    and ys: "ys = y # ys'"
    by (auto split: sum.splits)
  from Cons.IH [OF ys'] y ys show ?case
    by (auto simp: nth_Cons split: nat.splits)
qed

lemma table_function_frame:
  "table_function n tables par ff = Inr ff' \<Longrightarrow>
   exclusions ff' = exclusions ff \<and> particles ff' = particles ff \<and>
   force_class ff' = force_class ff \<and> energy ff' = energy ff"
  by (auto simp: table_function_def addTabulatedFunction_def split: option.splits if_splits)

lemma efold_table_function_frame:
  "efold (table_function n tables) pars ff = Inr ff' \<Longrightarrow>
   exclusions ff' = exclusions ff \<and> particles ff' = particles ff \<and>
   force_class ff' = force_class ff \<and> energy ff' = energy ff"
proof (induction pars arbitrary: ff)
  case Nil
  then show ?case by simp
next
  case (Cons p pars)
  from Cons.prems obtain ff1 where a: "table_function n tables p ff = Inr ff1"
    and b: "efold (table_function n tables) pars ff1 = Inr ff'"
    by (auto split: sum.splits)
  from table_function_frame [OF a] Cons.IH [OF b] show ?case by simp
qed

lemma fold_addExclusion:
  "exclusions (fold addExclusion xs ff) = exclusions ff @ xs \<and>
   particles (fold addExclusion xs ff) = particles ff \<and>
   force_class (fold addExclusion xs ff) = force_class ff \<and>
   energy (fold addExclusion xs ff) = energy ff"
  by (induction xs arbitrary: ff) (simp_all add: addExclusion_def)

lemma efold_nb_particle:
  "efold (nb_particle types charges tt) ns ff = Inr ff' \<Longrightarrow>
   exclusions ff' = exclusions ff \<and> force_class ff' = force_class ff \<and> energy ff' = energy ff \<and>
   (\<exists>ps. particles ff' = particles ff @ ps \<and> length ps = length ns \<and>
         (\<forall>j<length ns. ns ! j < length charges \<and> ps ! j \<noteq> [] \<and> hd (ps ! j) = charges ! (ns ! j)))"
proof (induction ns arbitrary: ff)
  case Nil
  then show ?case by simp
next
  case (Cons n ns)
  from Cons.prems obtain ff1 where a: "nb_particle types charges tt n ff = Inr ff1"
    and b: "efold (nb_particle types charges tt) ns ff1 = Inr ff'"
    by (auto split: sum.splits)
  from a obtain t where n: "n < length charges"
    and ff1: "ff1 = addParticle [charges ! n, t] ff"
    by (auto simp: nb_particle_def nth_py_def ebind_def split: sum.splits if_splits)
  from Cons.IH [OF b] obtain ps where ps: "particles ff' = particles ff1 @ ps"
    and len: "length ps = length ns"
    and each: "\<forall>j<length ns. ns ! j < length charges \<and> ps ! j \<noteq> [] \<and> hd (ps ! j) = charges ! (ns ! j)"
    and fr: "exclusions ff' = exclusions ff1" "force_class ff' = force_class ff1" "energy ff' = energy ff1"
    by blast
  have "particles ff' = particles ff @ ([charges ! n, t] # ps)"
    using ps by (simp add: ff1 addParticle_def)
  moreover have "\<forall>j<length (n # ns). (n # ns) ! j < length charges \<and> ([charges ! n, t] # ps) ! j \<noteq> [] \<and>
      hd (([charges ! n, t] # ps) ! j) = charges ! ((n # ns) ! j)"
    using each n by (auto simp: nth_Cons split: nat.splits)
  ultimately show ?case
    using fr len by (auto simp: ff1 addParticle_def)
qed

lemma particle_charge_Inr:
  "particle_charge f i = Inr c \<Longrightarrow> i < length (particles f) \<and> particles f ! i \<noteq> [] \<and> c = hd (particles f ! i)"
  by (auto simp: particle_charge_def nth_py_def hd_conv_nth split: if_splits)

lemma nonbond_force_copies:
  assumes "nonbond_force env s d r0 r1 types ff = Inr nf"
    and "exclusions ff = []" and "particles ff = []"
  shows "\<exists>sy. system s = Some sy \<and> r0 < length (heap s) \<and> r1 < length (heap s) \<and>
           copied_from (heap s ! r0) (heap s ! r1) (numParticles sy) nf \<and>
           force_class nf = force_class ff \<and> energy nf = energy ff"
proof -
  obtain expr pars nbparams where d: "d = (expr, pars, nbparams)" by (cases d) auto
  from assms(1) obtain tables ff1 f1 sy f0 charges tt ff3 where
    t: "efold (table_function (length types) tables) pars ff = Inr ff1"
    and f1: "deref s r1 = Inr f1" and sy: "system s = Some sy"
    and f0: "deref s r0 = Inr f0"
    and ch: "emap (particle_charge f0) [0 ..< numParticles sy] = Inr charges"
    and p: "efold (nb_particle types charges tt) [0 ..< numParticles sy]
              (fold addExclusion (exclusions f1) ff1) = Inr ff3"
    and nf: "nf = ff3\<lparr>nonbondedMethod := Some CutoffPeriodic, cutoffDistance := Some (rcutoff s)\<rparr>"
    by (auto simp: nonbond_force_def d ebind_def Let_def split: sum.splits option.splits)
  from f0 f1 have r: "r0 < length (heap s)" "r1 < length (heap s)"
    and h: "f0 = heap s ! r0" "f1 = heap s ! r1"
    by (auto simp: deref_def split: if_splits)
  note fr1 = efold_table_function_frame [OF t]
  note fr2 = fold_addExclusion [of "exclusions f1" ff1]
  from emap_nth [OF ch] have cl: "length charges = numParticles sy"
    and ce: "\<forall>i<numParticles sy. particle_charge f0 i = Inr (charges ! i)"
    by auto
  from efold_nb_particle [OF p] obtain ps where
    ex: "exclusions ff3 = exclusions (fold addExclusion (exclusions f1) ff1)"
    and cls: "force_class ff3 = force_class (fold addExclusion (exclusions f1) ff1)"
    and en: "energy ff3 = energy (fold addExclusion (exclusions f1) ff1)"
    and pp: "particles ff3 = particles (fold addExclusion (exclusions f1) ff1) @ ps"
    and pl: "length ps = numParticles sy"
    and pe: "\<forall>j<numParticles sy. ps ! j \<noteq> [] \<and> hd (ps ! j) = charges ! j"
    by auto
  have "exclusions nf = exclusions f1"
    using ex fr1 fr2 assms(2) by (simp add: nf)
  moreover have pn: "particles nf = ps"
    using pp fr1 fr2 assms(3) by (simp add: nf)
  moreover have "list_all (\<lambda>i. i < length (particles f0) \<and> particles f0 ! i \<noteq> [] \<and>
                    particles nf ! i \<noteq> [] \<and> hd (particles nf ! i) = hd (particles f0 ! i))
        [0 ..< numParticles sy]"
    unfolding list_all_iff
  proof
    fix i assume "i \<in> set [0 ..< numParticles sy]"
    then have i: "i < numParticles sy" by simp
    from ce i have "particle_charge f0 i = Inr (charges ! i)" by blast
    from particle_charge_Inr [OF this] pe i pn
    show "i < length (particles f0) \<and> particles f0 ! i \<noteq> [] \<and>
                    particles nf ! i \<noteq> [] \<and> hd (particles nf ! i) = hd (particles f0 ! i)"
      by simp
  qed
  moreover have "force_class nf = force_class ff \<and> energy nf = energy ff"
    using cls en fr1 fr2 by (simp add: nf)
  ultimately show ?thesis
    using sy r pl pn h by (simp add: copied_from_def)
qed

lemma customSmogForce_nb_result:
  assumes "customSmogForce_nb env k d s = (Inr (), s')"
  shows "\<exists>nf fd sy types. system s = Some sy \<and> 2 \<le> length (sys_forces sy) \<and>
           sys_forces sy ! 0 < length (heap s) \<and> sys_forces sy ! 1 < length (heap s) \<and>
           copied_from (heap s ! (sys_forces sy ! 0)) (heap s ! (sys_forces sy ! 1)) (numParticles sy) nf \<and>
           force_class nf = CustomNonbondedForce \<and> energy nf = fst d \<and>
           forcesDict s = Some fd \<and>
           s' = s\<lparr>heap := heap s @ [nf\<lparr>forceGroup := forceCount s\<rparr>],
                  forcesDict := Some (AList.update (''Nonbonded'' @ str_nat k) (length (heap s)) fd),
                  forceCount := forceCount s + 1,
                  atom_types := Some types\<rparr>"
proof -
  obtain expr pars nbparams where d: "d = (expr, pars, nbparams)" by (cases d) auto
  define ff0 where "ff0 = addPerParticleParameter ''type''
                     (addPerParticleParameter ''q'' (new_force CustomNonbondedForce expr))"
  from assms obtain ff1 r0 r1 types1 nf where
    ac: "add_constants s ff0 = Inr ff1"
    and g0: "getForce s 0 = Inr r0" and g1: "getForce s 1 = Inr r1"
    and ty: "emap (\<lambda>p. getitem p ''type1'') nbparams = Inr types1"
    and nb: "nonbond_force env (s\<lparr>atom_types := Some (np_unique types1)\<rparr>) d r0 r1
               (np_unique types1) (addGlobalParameter ''r_c'' (rcutoff s) ff1) = Inr nf"
    and rg: "register_force (''Nonbonded'' @ str_nat k) nf (s\<lparr>atom_types := Some (np_unique types1)\<rparr>)
               = (Inr (), s')"
    by (auto simp: customSmogForce_nb_def d ff0_def Let_def ebind_def split: sum.splits prod.splits)
  from g0 g1 obtain sy where sy: "system s = Some sy" and two: "2 \<le> length (sys_forces sy)"
    and r0: "r0 = sys_forces sy ! 0" and r1: "r1 = sys_forces sy ! 1"
    by (auto simp: getForce_def split: option.splits if_splits)
  note fr = add_constants_frame [OF ac]
  have e: "exclusions (addGlobalParameter ''r_c'' (rcutoff s) ff1) = []"
    and p: "particles (addGlobalParameter ''r_c'' (rcutoff s) ff1) = []"
    and c: "force_class (addGlobalParameter ''r_c'' (rcutoff s) ff1) = CustomNonbondedForce"
    and en: "energy (addGlobalParameter ''r_c'' (rcutoff s) ff1) = expr"
    using fr by (simp_all add: addGlobalParameter_def ff0_def addPerParticleParameter_def new_force_def)
  from nonbond_force_copies [OF nb e p] sy
  have cp: "r0 < length (heap s)" "r1 < length (heap s)"
    "copied_from (heap s ! r0) (heap s ! r1) (numParticles sy) nf"
    "force_class nf = CustomNonbondedForce" "energy nf = expr"
    using c en by auto
  from rg obtain fd where fd: "forcesDict s = Some fd"
    and s': "s' = s\<lparr>heap := heap s @ [nf\<lparr>forceGroup := forceCount s\<rparr>],
                  forcesDict := Some (AList.update (''Nonbonded'' @ str_nat k) (length (heap s)) fd),
                  forceCount := forceCount s + 1,
                  atom_types := Some (np_unique types1)\<rparr>"
    unfolding register_force_result by auto
  show ?thesis
    using sy two cp fd s' r0 r1 d by auto
qed

lemma nonbond_step:
  assumes "seq (customSmogForce_nb env k d) (\<lambda>_. addForce_of (''Nonbonded'' @ str_nat k)) s = (Inr (), s')"
  shows "\<exists>f fd sy tys. first_two_copied s f \<and> force_class f = CustomNonbondedForce \<and>
      energy f = fst d \<and> forceGroup f = forceCount s \<and>
      forcesDict s = Some fd \<and> system s = Some sy \<and>
      s' = s\<lparr>heap := heap s @ [f],
             forcesDict := Some (AList.update (''Nonbonded'' @ str_nat k) (length (heap s)) fd),
             forceCount := forceCount s + 1,
             system := Some (sy\<lparr>sys_forces := sys_forces sy @ [length (heap s)]\<rparr>),
             atom_types := tys\<rparr>"
proof -
  from assms obtain s1 where a: "customSmogForce_nb env k d s = (Inr (), s1)"
    and b: "addForce_of (''Nonbonded'' @ str_nat k) s1 = (Inr (), s')"
    by (auto simp: seq_Inr)
  from customSmogForce_nb_result [OF a] obtain nf fd sy types where
    sy: "system s = Some sy" and two: "2 \<le> length (sys_forces sy)"
    and r: "sys_forces sy ! 0 < length (heap s)" "sys_forces sy ! 1 < length (heap s)"
    and cp: "copied_from (heap s ! (sys_forces sy ! 0)) (heap s ! (sys_forces sy ! 1)) (numParticles sy) nf"
    and cl: "force_class nf = CustomNonbondedForce" "energy nf = fst d"
    and fd: "forcesDict s = Some fd"
    and s1: "s1 = s\<lparr>heap := heap s @ [nf\<lparr>forceGroup := forceCount s\<rparr>],
                  forcesDict := Some (AList.update (''Nonbonded'' @ str_nat k) (length (heap s)) fd),
                  forceCount := forceCount s + 1,
                  atom_types := Some types\<rparr>"
    by blast
  from b have s': "s' = s1\<lparr>system := Some (sy\<lparr>sys_forces := sys_forces sy @ [length (heap s)]\<rparr>)\<rparr>"
    unfolding addForce_of_result by (auto simp: s1 sy update_conv')
  have c: "first_two_copied s (nf\<lparr>forceGroup := forceCount s\<rparr>)"
    using sy two r cp by (simp add: first_two_copied_def copied_from_def)
  show ?thesis
    using c cl fd sy
    by (intro exI [of _ "nf\<lparr>forceGroup := forceCount s\<rparr>"] exI [of _ fd] exI [of _ sy]
        exI [of _ "Some types"]) (simp add: s' s1)
qed

lemma first_two_copied_extend:
  assumes "system s = Some sy" "2 \<le> length (sys_forces sy)"
    "sys_forces sy ! 0 < length (heap s)" "sys_forces sy ! 1 < length (heap s)"
    "system s1 = Some (sy\<lparr>sys_forces := sys_forces sy @ rs\<rparr>)" "heap s1 = heap s @ hs"
  shows "first_two_copied s1 f = first_two_copied s f"
  using assms by (auto simp: first_two_copied_def nth_append)

lemma nonbond_loop:
  "for_each ns (\<lambda>entry. seq (customSmogForce_nb env (fst entry) (snd entry))
                            (\<lambda>_. addForce_of (''Nonbonded'' @ str_nat (fst entry)))) s = (Inr (), s') \<Longrightarrow>
   \<exists>fs tys. length fs = length ns \<and>
        (\<forall>i<length ns. first_two_copied s (fs ! i) \<and> force_class (fs ! i) = CustomNonbondedForce \<and>
                        energy (fs ! i) = fst (snd (ns ! i)) \<and>
                        forceGroup (fs ! i) = forceCount s + int i) \<and>
        s' = s\<lparr>heap := heap s @ fs,
               forcesDict := map_option (dict_updates (nb_keys (map fst ns)) (length (heap s))) (forcesDict s),
               forceCount := forceCount s + int (length ns),
               system := map_option
                 (\<lambda>sy. sy\<lparr>sys_forces := sys_forces sy @
                                          [length (heap s) ..< length (heap s) + length ns]\<rparr>)
                 (system s),
               atom_types := tys\<rparr>"
proof (induction ns arbitrary: s)
  case Nil
  then show ?case
    by (intro exI [of _ "[]"] exI [of _ "atom_types s"])
      (simp add: dict_updates_def nb_keys_def option.map_ident)
next
  case (Cons c cs)
  from Cons.prems obtain s1 where
    c: "seq (customSmogForce_nb env (fst c) (snd c))
          (\<lambda>_. addForce_of (''Nonbonded'' @ str_nat (fst c))) s = (Inr (), s1)"
    and r: "for_each cs (\<lambda>entry. seq (customSmogForce_nb env (fst entry) (snd entry))
                            (\<lambda>_. addForce_of (''Nonbonded'' @ str_nat (fst entry)))) s1 = (Inr (), s')"
    by (auto split: prod.splits sum.splits)
  from nonbond_step [OF c] obtain f fd sy tys1 where f: "first_two_copied s f"
    and fc: "force_class f = CustomNonbondedForce" "energy f = fst (snd c)"
      "forceGroup f = forceCount s"
    and fd: "forcesDict s = Some fd" and sy: "system s = Some sy"
    and s1: "s1 = s\<lparr>heap := heap s @ [f],
             forcesDict := Some (AList.update (''Nonbonded'' @ str_nat (fst c)) (length (heap s)) fd),
             forceCount := forceCount s + 1,
             system := Some (sy\<lparr>sys_forces := sys_forces sy @ [length (heap s)]\<rparr>),
             atom_types := tys1\<rparr>"
    by blast
  from Cons.IH [OF r] obtain fs tys where len: "length fs = length cs"
    and built: "\<forall>i<length cs. first_two_copied s1 (fs ! i) \<and> force_class (fs ! i) = CustomNonbondedForce \<and>
                        energy (fs ! i) = fst (snd (cs ! i)) \<and>
                        forceGroup (fs ! i) = forceCount s1 + int i"
    and s': "s' = s1\<lparr>heap := heap s1 @ fs,
               forcesDict := map_option (dict_updates (nb_keys (map fst cs)) (length (heap s1))) (forcesDict s1),
               forceCount := forceCount s1 + int (length cs),
               system := map_option
                 (\<lambda>sy. sy\<lparr>sys_forces := sys_forces sy @
                                          [length (heap s1) ..< length (heap s1) + length cs]\<rparr>)
                 (system s1),
               atom_types := tys\<rparr>"
    by blast
  from f sy have two: "2 \<le> length (sys_forces sy)"
    "sys_forces sy ! 0 < length (heap s)" "sys_forces sy ! 1 < length (heap s)"
    by (auto simp: first_two_copied_def)
  have ext: "first_two_copied s1 x = first_two_copied s x" for x
    by (rule first_two_copied_extend [OF sy two, of _ "[length (heap s)]" "[f]"]) (simp_all add: s1)
  have fcn: "forceCount s1 = forceCount s + 1" by (simp add: s1)
  have b: "\<forall>i<length (c # cs). first_two_copied s ((f # fs) ! i) \<and>
      force_class ((f # fs) ! i) = CustomNonbondedForce \<and>
      energy ((f # fs) ! i) = fst (snd ((c # cs) ! i)) \<and>
      forceGroup ((f # fs) ! i) = forceCount s + int i"
  proof (intro allI impI)
    fix i assume i: "i < length (c # cs)"
    show "first_two_copied s ((f # fs) ! i) \<and>
      force_class ((f # fs) ! i) = CustomNonbondedForce \<and>
      energy ((f # fs) ! i) = fst (snd ((c # cs) ! i)) \<and>
      forceGroup ((f # fs) ! i) = forceCount s + int i"
    proof (cases i)
      case 0
      with f fc show ?thesis by simp
    next
      case (Suc j)
      with i built have "first_two_copied s1 (fs ! j) \<and> force_class (fs ! j) = CustomNonbondedForce \<and>
                        energy (fs ! j) = fst (snd (cs ! j)) \<and>
                        forceGroup (fs ! j) = forceCount s1 + int j"
        by simp
      then show ?thesis using Suc by (simp add: ext fcn)
    qed
  qed
  have e: "s' = s\<lparr>heap := heap s @ (f # fs),
               forcesDict := map_option (dict_updates (nb_keys (map fst (c # cs))) (length (heap s))) (forcesDict s),
               forceCount := forceCount s + int (length (c # cs)),
               system := map_option
                 (\<lambda>sy. sy\<lparr>sys_forces := sys_forces sy @
                                          [length (heap s) ..< length (heap s) + length (c # cs)]\<rparr>)
                 (system s),
               atom_types := tys\<rparr>"
  proof -
    have u: "[length (heap s) ..< length (heap s) + length (c # cs)] =
        length (heap s) # [Suc (length (heap s)) ..< Suc (length (heap s)) + length cs]"
      by (simp del: upt_Suc add: upt_conv_Cons)
    show ?thesis
      unfolding u by (simp del: upt_Suc add: s' s1 fd sy dict_updates_Cons nb_keys_def)
  qed
  from len b e show ?case by (intro exI [of _ "f # fs"] exI [of _ tys]) simp
qed

lemma validate_result:
  "validate env x s = (Inr b, s1) \<longleftrightarrow>
   (\<exists>doc. parse_xml env x = Some doc \<and> b = xmlschema env doc \<and>
          s1 = s\<lparr>io_log := io_log s @ [''share/OpenSMOG_nb.xsd'', x]\<rparr>)"
  by (auto simp: validate_def Let_def split: option.splits)

lemma import_constants_frame:
  "import_constants env doc s = (r, s') \<Longrightarrow> \<exists>cp. s' = s\<lparr>constants_present := cp\<rparr>"
proof (cases "find_child ''constants'' doc")
  case None
  assume "import_constants env doc s = (r, s')"
  with None have "s' = s\<lparr>constants_present := constants_present s\<rparr>"
    by (simp add: import_constants_def)
  then show ?thesis ..
next
  case (Some c)
  assume "import_constants env doc s = (r, s')"
  with Some have "s' = s\<lparr>constants_present := Some True\<rparr>"
    by (auto simp: import_constants_def Let_def split: sum.splits)
  then show ?thesis ..
qed

lemma import_nonbond_frame:
  "import_nonbond doc s = (r, s') \<Longrightarrow> \<exists>np. s' = s\<lparr>nonbond_present := np\<rparr>"
proof (cases "find_child ''nonbond'' doc")
  case None
  assume "import_nonbond doc s = (r, s')"
  with None have "s' = s\<lparr>nonbond_present := nonbond_present s\<rparr>"
    by (simp add: import_nonbond_def)
  then show ?thesis ..
next
  case (Some c)
  assume a: "import_nonbond doc s = (r, s')"
  show ?thesis
  proof (cases "pbc s")
    case True
    with a Some have "s' = s\<lparr>nonbond_present := Some True\<rparr>"
      by (auto simp: import_nonbond_def Let_def split: sum.splits)
    then show ?thesis ..
  next
    case False
    with a Some have "s' = s\<lparr>nonbond_present := nonbond_present s\<rparr>"
      by (auto simp: import_nonbond_def Let_def split: sum.splits)
    then show ?thesis ..
  qed
qed

lemma import_nonbond_Inr:
  "import_nonbond doc s = (Inr nb, s') \<Longrightarrow>
   (find_child ''nonbond'' doc = None \<and> nb = None \<and> s' = s) \<or>
   (find_child ''nonbond'' doc \<noteq> None \<and> pbc s \<and> nb \<noteq> None \<and> s' = s\<lparr>nonbond_present := Some True\<rparr>)"
  by (auto simp: import_nonbond_def Let_def split: option.splits sum.splits if_splits)

lemma import_frame:
  assumes "import_xml2OpenSMOG env f s = (r, s')"
  shows "\<exists>cp np. s' = s\<lparr>constants_present := cp, nonbond_present := np, io_log := io_log s @ [f]\<rparr>"
proof -
  define s0 where "s0 = s\<lparr>io_log := io_log s @ [f]\<rparr>"
  have base: "s0 = s\<lparr>constants_present := constants_present s, nonbond_present := nonbond_present s,
      io_log := io_log s @ [f]\<rparr>"
    by (simp add: s0_def)
  show ?thesis
  proof (cases "parse_xml env f")
    case None
    with assms have "s' = s0" by (simp add: import_xml2OpenSMOG_def s0_def)
    with base show ?thesis by blast
  next
    case (Some doc)
    show ?thesis
    proof (cases "find_child ''OpenSMOGminVersion'' doc")
      case None
      with assms Some have "s' = s0" by (simp add: import_xml2OpenSMOG_def s0_def)
      with base show ?thesis by blast
    next
      case v: (Some version)
      obtain rc s1 where ic: "import_constants env doc s0 = (rc, s1)" by (cases "import_constants env doc s0") auto
      from import_constants_frame [OF ic] obtain cp where s1: "s1 = s0\<lparr>constants_present := cp\<rparr>" by blast
      show ?thesis
      proof (cases rc)
        case (Inl e)
        with assms Some v ic have "s' = s1"
          by (simp add: import_xml2OpenSMOG_def s0_def [symmetric] seq_def)
        then have "s' = s\<lparr>constants_present := cp, nonbond_present := nonbond_present s,
            io_log := io_log s @ [f]\<rparr>"
          by (simp add: s1 s0_def)
        then show ?thesis by blast
      next
        case (Inr constants)
        show ?thesis
        proof (cases "find_child ''contacts'' doc")
          case None
          with assms Some v ic Inr have "s' = s1"
            by (simp add: import_xml2OpenSMOG_def s0_def [symmetric] seq_def)
          then have "s' = s\<lparr>constants_present := cp, nonbond_present := nonbond_present s,
              io_log := io_log s @ [f]\<rparr>"
            by (simp add: s1 s0_def)
          then show ?thesis by blast
        next
          case c: (Some contacts_xml)
          show ?thesis
          proof (cases "parse_contacts contacts_xml")
            case (Inl e)
            with assms Some v ic Inr c have "s' = s1"
              by (simp add: import_xml2OpenSMOG_def s0_def [symmetric] seq_def)
            then have "s' = s\<lparr>constants_present := cp, nonbond_present := nonbond_present s,
                io_log := io_log s @ [f]\<rparr>"
              by (simp add: s1 s0_def)
            then show ?thesis by blast
          next
            case pc: (Inr cont)
            obtain rn s2 where nb: "import_nonbond doc s1 = (rn, s2)" by (cases "import_nonbond doc s1") auto
            from import_nonbond_frame [OF nb] obtain np where s2: "s2 = s1\<lparr>nonbond_present := np\<rparr>" by blast
            from assms Some v ic Inr c pc nb have "s' = s2"
              by (auto simp: import_xml2OpenSMOG_def s0_def [symmetric] seq_def split: sum.splits)
            then have "s' = s\<lparr>constants_present := cp, nonbond_present := np,
                io_log := io_log s @ [f]\<rparr>"
              by (simp add: s2 s1 s0_def)
            then show ?thesis by blast
          qed
        qed
      qed
    qed
  qed
qed

lemma import_Inr:
  assumes "import_xml2OpenSMOG env f s = (Inr d, s')"
  shows "\<exists>doc c. parse_xml env f = Some doc \<and> find_child ''OpenSMOGminVersion'' doc \<noteq> None \<and>
           find_child ''contacts'' doc = Some c \<and> parse_contacts c = Inr (xd_contacts d) \<and>
           (find_child ''nonbond'' doc = None \<and> xd_nonbond d = None \<and>
              nonbond_present s' = nonbond_present s \<or>
            find_child ''nonbond'' doc \<noteq> None \<and> pbc s \<and> xd_nonbond d \<noteq> None \<and>
              nonbond_present s' = Some True)"
proof -
  define s0 where "s0 = s\<lparr>io_log := io_log s @ [f]\<rparr>"
  from assms obtain doc where doc: "parse_xml env f = Some doc"
    by (auto simp: import_xml2OpenSMOG_def Let_def split: option.splits)
  from assms doc have v: "find_child ''OpenSMOGminVersion'' doc \<noteq> None"
    by (auto simp: import_xml2OpenSMOG_def Let_def split: option.splits)
  from assms doc v obtain constants s1 where ic: "import_constants env doc s0 = (Inr constants, s1)"
    by (auto simp: import_xml2OpenSMOG_def s0_def [symmetric] seq_def split: option.splits sum.splits prod.splits)
  from import_constants_frame [OF ic] obtain cp where s1: "s1 = s0\<lparr>constants_present := cp\<rparr>" by blast
  from assms doc v ic obtain c where c: "find_child ''contacts'' doc = Some c"
    by (auto simp: import_xml2OpenSMOG_def s0_def [symmetric] seq_def split: option.splits)
  from assms doc v ic c obtain cont where pc: "parse_contacts c = Inr cont"
    by (auto simp: import_xml2OpenSMOG_def s0_def [symmetric] seq_def split: option.splits sum.splits)
  from assms doc v ic c pc obtain nb where nb: "import_nonbond doc s1 = (Inr nb, s')"
    and d: "d = \<lparr>xd_constants = constants, xd_contacts = cont, xd_nonbond = nb\<rparr>"
    by (auto simp: import_xml2OpenSMOG_def s0_def [symmetric] seq_def split: option.splits sum.splits prod.splits)
  from import_nonbond_Inr [OF nb] have
    "find_child ''nonbond'' doc = None \<and> xd_nonbond d = None \<and> nonbond_present s' = nonbond_present s \<or>
     find_child ''nonbond'' doc \<noteq> None \<and> pbc s \<and> xd_nonbond d \<noteq> None \<and> nonbond_present s' = Some True"
    by (auto simp: d s1 s0_def)
  with doc v c pc d show ?thesis by auto
qed

lemma efold_split_entry_Inr:
  "efold (split_entry es ps xs ks) ns acc = Inr r \<Longrightarrow>
   (\<forall>i\<in>set ns. i < length es \<and> i < length ps \<and> i < length xs \<and> i < length ks) \<and>
   r = fold (\<lambda>i. AList.update (ks ! i) (es ! i, ps ! i, xs ! i)) ns acc"
proof (induction ns arbitrary: acc)
  case Nil
  then show ?case by simp
next
  case (Cons n ns)
  from Cons.prems obtain acc1 where a: "split_entry es ps xs ks n acc = Inr acc1"
    and b: "efold (split_entry es ps xs ks) ns acc1 = Inr r"
    by (auto split: sum.splits)
  from a have n: "n < length es \<and> n < length ps \<and> n < length xs \<and> n < length ks"
    and acc1: "acc1 = AList.update (ks ! n) (es ! n, ps ! n, xs ! n) acc"
    by (auto simp: split_entry_def nth_py_def ebind_def split: if_splits)
  from Cons.IH [OF b] n acc1 show ?case by simp
qed

lemma splitForces_contacts_result:
  "splitForces_contacts s = (Inr (), s') \<longleftrightarrow>
   (\<exists>d es ps xs ks. data s = Some d \<and> xd_contacts d = (es, ps, xs, ks) \<and>
      length ks \<le> length es \<and> length ks \<le> length ps \<and> length ks \<le> length xs \<and>
      s' = s\<lparr>contacts := Some (fold (\<lambda>i. AList.update (ks ! i) (es ! i, ps ! i, xs ! i))
                                [0 ..< length ks] [])\<rparr>)"
proof
  assume a: "splitForces_contacts s = (Inr (), s')"
  then obtain d where d: "data s = Some d"
    by (auto simp: splitForces_contacts_def split: option.splits)
  obtain es ps xs ks where c: "xd_contacts d = (es, ps, xs, ks)" by (cases "xd_contacts d") auto
  from a d c obtain forces where f: "efold (split_entry es ps xs ks) [0 ..< length ks] [] = Inr forces"
    and s': "s' = s\<lparr>contacts := Some forces\<rparr>"
    by (auto simp: splitForces_contacts_def split: sum.splits)
  from efold_split_entry_Inr [OF f] have
    r: "\<forall>i\<in>set [0 ..< length ks]. i < length es \<and> i < length ps \<and> i < length xs \<and> i < length ks"
    and fo: "forces = fold (\<lambda>i. AList.update (ks ! i) (es ! i, ps ! i, xs ! i)) [0 ..< length ks] []"
    by auto
  have "length ks \<le> length es \<and> length ks \<le> length ps \<and> length ks \<le> length xs"
  proof (cases "length ks")
    case 0
    then show ?thesis by simp
  next
    case (Suc m)
    with r have "m < length es \<and> m < length ps \<and> m < length xs" by auto
    with Suc show ?thesis by simp
  qed
  with d c s' fo show "\<exists>d es ps xs ks. data s = Some d \<and> xd_contacts d = (es, ps, xs, ks) \<and>
      length ks \<le> length es \<and> length ks \<le> length ps \<and> length ks \<le> length xs \<and>
      s' = s\<lparr>contacts := Some (fold (\<lambda>i. AList.update (ks ! i) (es ! i, ps ! i, xs ! i))
                                [0 ..< length ks] [])\<rparr>"
    by blast
next
  assume "\<exists>d es ps xs ks. data s = Some d \<and> xd_contacts d = (es, ps, xs, ks) \<and>
      length ks \<le> length es \<and> length ks \<le> length ps \<and> length ks \<le> length xs \<and>
      s' = s\<lparr>contacts := Some (fold (\<lambda>i. AList.update (ks ! i) (es ! i, ps ! i, xs ! i))
                                [0 ..< length ks] [])\<rparr>"
  then obtain d es ps xs ks where d: "data s = Some d" and c: "xd_contacts d = (es, ps, xs, ks)"
    and l: "length ks \<le> length es" "length ks \<le> length ps" "length ks \<le> length xs"
    and s': "s' = s\<lparr>contacts := Some (fold (\<lambda>i. AList.update (ks ! i) (es ! i, ps ! i, xs ! i))
                                [0 ..< length ks] [])\<rparr>"
    by blast
  from l have "\<forall>i\<in>set [0 ..< length ks]. i < length es \<and> i < length ps \<and> i < length xs \<and> i < length ks"
    by auto
  from efold_split_entry [OF this, of "[]"] d c s'
  show "splitForces_contacts s = (Inr (), s')"
    by (simp add: splitForces_contacts_def)
qed

lemma splitForces_nb_result:
  "splitForces_nb s = (Inr (), s') \<Longrightarrow> \<exists>ns. s' = s\<lparr>nonbond := Some ns\<rparr>"
  by (auto simp: splitForces_nb_def split: option.splits sum.splits prod.splits)

lemma removeForce_result:
  "removeForce 0 s = (Inr (), s') \<longleftrightarrow>
   (\<exists>sy. system s = Some sy \<and> sys_forces sy \<noteq> [] \<and>
         s' = s\<lparr>system := Some (sy\<lparr>sys_forces := tl (sys_forces sy)\<rparr>)\<rparr>)"
  by (auto simp: removeForce_def drop_Suc split: option.splits if_splits)

lemma loadXml_contacts_result:
  assumes "loadXml_contacts env s = (Inr (), s')"
  shows "\<exists>cs fs. contacts s = Some cs \<and> length fs = length cs \<and>
        (\<forall>i<length cs. built_contact env s (forceCount s + int i) (snd (cs ! i)) (fs ! i)) \<and>
        s' = s\<lparr>heap := heap s @ fs,
               forcesDict := map_option (dict_updates (map fst cs) (length (heap s))) (forcesDict s),
               forceCount := forceCount s + int (length cs),
               system := map_option
                 (\<lambda>sy. sy\<lparr>sys_forces := sys_forces sy @
                                          [length (heap s) ..< length (heap s) + length cs]\<rparr>)
                 (system s)\<rparr>"
proof -
  from assms obtain cs where cs: "contacts s = Some cs"
    by (auto simp: loadXml_contacts_def split: option.splits)
  with assms have "for_each cs (\<lambda>entry. seq (customSmogForce env (fst entry) (snd entry))
                            (\<lambda>_. addForce_of (fst entry))) s = (Inr (), s')"
    by (simp add: loadXml_contacts_def)
  from contacts_loop [OF this] obtain fs where "length fs = length cs"
    "\<forall>i<length cs. built_contact env s (forceCount s + int i) (snd (cs ! i)) (fs ! i)"
    "s' = s\<lparr>heap := heap s @ fs,
               forcesDict := map_option (dict_updates (map fst cs) (length (heap s))) (forcesDict s),
               forceCount := forceCount s + int (length cs),
               system := map_option
                 (\<lambda>sy. sy\<lparr>sys_forces := sys_forces sy @
                                          [length (heap s) ..< length (heap s) + length cs]\<rparr>)
                 (system s)\<rparr>"
    by blast
  with cs show ?thesis by (intro exI [of _ cs] exI [of _ fs] conjI)
qed

lemma loadXml_nonbond_result:
  assumes "loadXml_nonbond env s = (Inr (), s')"
  shows "(nonbond_present s = Some False \<and> s' = s) \<or>
     (nonbond_present s = Some True \<and>
      (\<exists>ns fs tys sy. length fs = length ns \<and>
        (\<forall>i<length ns. first_two_copied s (fs ! i) \<and> force_class (fs ! i) = CustomNonbondedForce \<and>
                        energy (fs ! i) = fst (snd (ns ! i)) \<and>
                        forceGroup (fs ! i) = forceCount s + int i) \<and>
        system s = Some sy \<and>
        2 \<le> length (sys_forces sy) + length ns \<and>
        s' = s\<lparr>heap := heap s @ fs,
               forcesDict := map_option (dict_updates (nb_keys (map fst ns)) (length (heap s))) (forcesDict s),
               forceCount := forceCount s + int (length ns),
               system := Some (sy\<lparr>sys_forces := drop 2 (sys_forces sy @
                                          [length (heap s) ..< length (heap s) + length ns])\<rparr>),
               nonbond := Some ns,
               atom_types := tys\<rparr>))"
proof -
  from assms obtain b where b: "nonbond_present s = Some b"
    by (auto simp: loadXml_nonbond_def split: option.splits)
  show ?thesis
  proof (cases b)
    case False
    with assms b show ?thesis by (simp add: loadXml_nonbond_def)
  next
    case True
    with assms b obtain s1 s2 s3 where
      sp: "splitForces_nb s = (Inr (), s1)"
      and lp: "loadXml_nonbond_forces env s1 = (Inr (), s2)"
      and r1: "removeForce 0 s2 = (Inr (), s3)" and r2: "removeForce 0 s3 = (Inr (), s')"
      by (auto simp: loadXml_nonbond_def seq_Inr)
    from splitForces_nb_result [OF sp] obtain ns where s1: "s1 = s\<lparr>nonbond := Some ns\<rparr>" by blast
    from lp s1 have "for_each ns (\<lambda>entry. seq (customSmogForce_nb env (fst entry) (snd entry))
                            (\<lambda>_. addForce_of (''Nonbonded'' @ str_nat (fst entry)))) s1 = (Inr (), s2)"
      by (simp add: loadXml_nonbond_forces_def)
    from nonbond_loop [OF this] obtain fs tys where len: "length fs = length ns"
      and each: "\<forall>i<length ns. first_two_copied s1 (fs ! i) \<and> force_class (fs ! i) = CustomNonbondedForce \<and>
                        energy (fs ! i) = fst (snd (ns ! i)) \<and>
                        forceGroup (fs ! i) = forceCount s1 + int i"
      and s2: "s2 = s1\<lparr>heap := heap s1 @ fs,
               forcesDict := map_option (dict_updates (nb_keys (map fst ns)) (length (heap s1))) (forcesDict s1),
               forceCount := forceCount s1 + int (length ns),
               system := map_option
                 (\<lambda>sy. sy\<lparr>sys_forces := sys_forces sy @
                                          [length (heap s1) ..< length (heap s1) + length ns]\<rparr>)
                 (system s1),
               atom_types := tys\<rparr>"
      by blast
    have ftc: "first_two_copied s1 x = first_two_copied s x" for x
      by (auto simp: first_two_copied_def s1 split: option.splits)
    from r1 obtain sy2 where sy2: "system s2 = Some sy2" and ne2: "sys_forces sy2 \<noteq> []"
      and s3: "s3 = s2\<lparr>system := Some (sy2\<lparr>sys_forces := tl (sys_forces sy2)\<rparr>)\<rparr>"
      unfolding removeForce_result by blast
    from r2 s3 have ne3: "tl (sys_forces sy2) \<noteq> []"
      and s': "s' = s3\<lparr>system := Some (sy2\<lparr>sys_forces := tl (tl (sys_forces sy2))\<rparr>)\<rparr>"
      unfolding removeForce_result by auto
    from sy2 s2 s1 obtain sy where sy: "system s = Some sy"
      and sy2e: "sy2 = sy\<lparr>sys_forces := sys_forces sy @ [length (heap s) ..< length (heap s) + length ns]\<rparr>"
      by (cases "system s") auto
    have two: "2 \<le> length (sys_forces sy) + length ns"
    proof -
      from ne2 ne3 have "2 \<le> length (sys_forces sy2)"
        by (cases "sys_forces sy2"; cases "tl (sys_forces sy2)") auto
      then show ?thesis by (simp add: sy2e)
    qed
    have dr: "tl (tl xs) = drop 2 xs" for xs :: "nat list"
      by (simp add: drop_Suc numeral_2_eq_2 drop_tl [symmetric] tl_drop)
    have e: "s' = s\<lparr>heap := heap s @ fs,
               forcesDict := map_option (dict_updates (nb_keys (map fst ns)) (length (heap s))) (forcesDict s),
               forceCount := forceCount s + int (length ns),
               system := Some (sy\<lparr>sys_forces := drop 2 (sys_forces sy @
                                          [length (heap s) ..< length (heap s) + length ns])\<rparr>),
               nonbond := Some ns,
               atom_types := tys\<rparr>"
      by (simp add: s' s3 s2 s1 sy sy2e dr)
    from each have each': "\<forall>i<length ns. first_two_copied s (fs ! i) \<and> force_class (fs ! i) = CustomNonbondedForce \<and>
                        energy (fs ! i) = fst (snd (ns ! i)) \<and>
                        forceGroup (fs ! i) = forceCount s + int i"
    proof -
      have fcs: "forceCount s1 = forceCount s" by (simp add: s1)
      from each show ?thesis by (simp add: ftc fcs)
    qed
    have "nonbond_present s = Some True" using b True by simp
    moreover have "\<exists>ns fs tys sy. length fs = length ns \<and>
        (\<forall>i<length ns. first_two_copied s (fs ! i) \<and> force_class (fs ! i) = CustomNonbondedForce \<and>
                        energy (fs ! i) = fst (snd (ns ! i)) \<and>
                        forceGroup (fs ! i) = forceCount s + int i) \<and>
        system s = Some sy \<and>
        2 \<le> length (sys_forces sy) + length ns \<and>
        s' = s\<lparr>heap := heap s @ fs,
               forcesDict := map_option (dict_updates (nb_keys (map fst ns)) (length (heap s))) (forcesDict s),
               forceCount := forceCount s + int (length ns),
               system := Some (sy\<lparr>sys_forces := drop 2 (sys_forces sy @
                                          [length (heap s) ..< length (heap s) + length ns])\<rparr>),
               nonbond := Some ns,
               atom_types := tys\<rparr>"
      using len each' sy two e
      by (intro exI [of _ ns] exI [of _ fs] exI [of _ tys] exI [of _ sy] conjI)
    ultimately show ?thesis by (rule disjI2 [OF conjI])
  qed
qed

lemma loadXml_chain:
  assumes "\<not> forceApplied s" and "loadXml env x s = (Inr (), s')"
  shows "\<exists>doc d sI sS sC sN.
     parse_xml env x = Some doc \<and> xmlschema env doc \<and>
     import_xml2OpenSMOG env x (s\<lparr>io_log := io_log s @ [''share/OpenSMOG_nb.xsd'', x]\<rparr>) = (Inr d, sI) \<and>
     splitForces_contacts (sI\<lparr>data := Some d\<rparr>) = (Inr (), sS) \<and>
     loadXml_contacts env sS = (Inr (), sC) \<and>
     loadXml_nonbond env sC = (Inr (), sN) \<and>
     s' = sN\<lparr>forceApplied := True\<rparr>"
proof -
  from assms obtain b s1 where v: "validate env x s = (Inr b, s1)"
    and rest: "(if \<not> b then (Inl (ValueError ''The xml file is not in the correct format''), s1)
          else
            seq (import_xml2OpenSMOG env x) (\<lambda>d s2.
              seq splitForces_contacts (\<lambda>_.
              seq (loadXml_contacts env) (\<lambda>_.
              seq (loadXml_nonbond env) (\<lambda>_ s3.
              (Inr (), s3\<lparr>forceApplied := True\<rparr>)))) (s2\<lparr>data := Some d\<rparr>)) s1) = (Inr (), s')"
    by (auto simp: loadXml_def seq_Inr)
  from v obtain doc where doc: "parse_xml env x = Some doc" and b: "b = xmlschema env doc"
    and s1: "s1 = s\<lparr>io_log := io_log s @ [''share/OpenSMOG_nb.xsd'', x]\<rparr>"
    unfolding validate_result by blast
  from rest have bt: "b" by (auto split: if_splits)
  with rest obtain d sI sS sC sN where
    "import_xml2OpenSMOG env x s1 = (Inr d, sI)"
    "splitForces_contacts (sI\<lparr>data := Some d\<rparr>) = (Inr (), sS)"
    "loadXml_contacts env sS = (Inr (), sC)"
    "loadXml_nonbond env sC = (Inr (), sN)"
    "s' = sN\<lparr>forceApplied := True\<rparr>"
    by (auto simp: seq_Inr)
  with doc b bt s1 show ?thesis
    by (intro exI [of _ doc] exI [of _ d] exI [of _ sI] exI [of _ sS] exI [of _ sC] exI [of _ sN])
      simp
qed

lemma zip_as_map_le:
  "length ks \<le> length es \<Longrightarrow> length ks \<le> length ps \<Longrightarrow> length ks \<le> length xs \<Longrightarrow>
   map (\<lambda>i. (ks ! i, es ! i, ps ! i, xs ! i)) [0 ..< length ks] = zip ks (zip es (zip ps xs))"
  by (rule nth_equalityI) simp_all

lemma split_dict_props:
  assumes "length ks \<le> length es" "length ks \<le> length ps" "length ks \<le> length xs"
  shows "fst ` set (split_dict es ps xs ks) = set ks"
    and "distinct (map fst (split_dict es ps xs ks))"
    and "\<forall>k\<in>set ks. \<exists>i<length ks. ks ! i = k \<and>
            map_of (split_dict es ps xs ks) k = Some (es ! i, ps ! i, xs ! i)"
    and "distinct ks \<longrightarrow> split_dict es ps xs ks = zip ks (zip es (zip ps xs)) \<and>
            length (split_dict es ps xs ks) = length ks"
proof -
  have "set (map (\<lambda>i. ks ! i) [0 ..< length ks]) = set ks"
    by (simp only: map_nth)
  then have im: "(\<lambda>i. ks ! i) ` set [0 ..< length ks] = set ks"
    by (simp only: set_map)
  show "fst ` set (split_dict es ps xs ks) = set ks"
    unfolding split_dict_def fold_update_keys im by simp
  show "distinct (map fst (split_dict es ps xs ks))"
    unfolding split_dict_def by (rule fold_update_distinct_keys) simp
  show "\<forall>k\<in>set ks. \<exists>i<length ks. ks ! i = k \<and>
            map_of (split_dict es ps xs ks) k = Some (es ! i, ps ! i, xs ! i)"
  proof
    fix k assume "k \<in> set ks"
    then have "k \<in> (\<lambda>i. ks ! i) ` set [0 ..< length ks]" using im by simp
    from fold_update_lookup [OF this, of "\<lambda>i. (es ! i, ps ! i, xs ! i)" "[]"]
    show "\<exists>i<length ks. ks ! i = k \<and>
            map_of (split_dict es ps xs ks) k = Some (es ! i, ps ! i, xs ! i)"
      by (auto simp: split_dict_def)
  qed
  show "distinct ks \<longrightarrow> split_dict es ps xs ks = zip ks (zip es (zip ps xs)) \<and>
            length (split_dict es ps xs ks) = length ks"
  proof
    assume d: "distinct ks"
    have "map (\<lambda>i. ks ! i) [0 ..< length ks] = ks" by (rule map_nth)
    with d have "distinct (map (\<lambda>i. ks ! i) [0 ..< length ks])" by simp
    from fold_update_distinct [OF this, of "[]" "\<lambda>i. (es ! i, ps ! i, xs ! i)"]
    have "split_dict es ps xs ks = zip ks (zip es (zip ps xs))"
      using assms by (simp add: split_dict_def zip_as_map_le)
    then show "split_dict es ps xs ks = zip ks (zip es (zip ps xs)) \<and>
            length (split_dict es ps xs ks) = length ks"
      using assms by simp
  qed
qed

text \<open>
  C7. For parsed contact data of four lists of the same length \<open>n\<close>,
  \<open>_splitForces_contacts\<close> returns and stores a dictionary whose keys are the force names and
  which maps every name to the expression, parameters and interactions found at one index
  at which that name stands; when the names are pairwise distinct, the dictionary is the
  list of the \<open>n\<close> records in order. A call of \<open>loadXml\<close> that finds \<open>forceApplied\<close> unset and
  returns has created one custom bond force per entry of that dictionary, in order, each
  built from its record and with its own force group; these and the custom nonbonded
  forces are the only new objects, and references to all of them were appended to the
  system's forces (of which the nonbonded block then removed the first two, if the file
  has such a block).
\<close>

theorem contacts_split_and_added:
  "(data s = Some d \<and> xd_contacts d = (es, ps, xs, ks) \<and>
    length es = length ks \<and> length ps = length ks \<and> length xs = length ks \<longrightarrow>
      (\<exists>cs. splitForces_contacts s = (Inr (), s\<lparr>contacts := Some cs\<rparr>) \<and>
            fst ` set cs = set ks \<and> distinct (map fst cs) \<and>
            (\<forall>k\<in>set ks. \<exists>i<length ks. ks ! i = k \<and> map_of cs k = Some (es ! i, ps ! i, xs ! i)) \<and>
            (distinct ks \<longrightarrow> cs = zip ks (zip es (zip ps xs)) \<and> length cs = length ks))) \<and>
   (\<not> forceApplied s \<and> loadXml env x s = (Inr (), s') \<longrightarrow>
      (\<exists>d' es' ps' xs' ks' cs cfs nfs n.
          data s' = Some d' \<and> xd_contacts d' = (es', ps', xs', ks') \<and> contacts s' = Some cs \<and>
          (distinct ks' \<longrightarrow> cs = zip ks' (zip es' (zip ps' xs')) \<and> length cs = length ks') \<and>
          heap s' = heap s @ cfs @ nfs \<and> length cfs = length cs \<and>
          (\<forall>i<length cs. force_class (cfs ! i) = CustomBondForce \<and>
             forceGroup (cfs ! i) = forceCount s + int i \<and>
             (\<exists>ff. contacts_force env (snd (cs ! i)) = Inr ff \<and> energy (cfs ! i) = energy ff \<and>
                   perBondParameters (cfs ! i) = perBondParameters ff \<and>
                   bonds (cfs ! i) = bonds ff)) \<and>
          (\<forall>f\<in>set nfs. force_class f = CustomNonbondedForce) \<and>
          (n = 0 \<or> n = 2) \<and>
          map_option sys_forces (system s') =
            map_option (\<lambda>sy. drop n (sys_forces sy @ [length (heap s) ..< length (heap s')]))
              (system s)))"
proof (intro conjI impI)
  assume a: "data s = Some d \<and> xd_contacts d = (es, ps, xs, ks) \<and>
    length es = length ks \<and> length ps = length ks \<and> length xs = length ks"
  then have l: "length ks \<le> length es" "length ks \<le> length ps" "length ks \<le> length xs"
    by simp_all
  have "splitForces_contacts s = (Inr (), s\<lparr>contacts := Some (split_dict es ps xs ks)\<rparr>)"
    unfolding splitForces_contacts_result split_dict_def using a l by blast
  with split_dict_props [OF l]
  show "\<exists>cs. splitForces_contacts s = (Inr (), s\<lparr>contacts := Some cs\<rparr>) \<and>
            fst ` set cs = set ks \<and> distinct (map fst cs) \<and>
            (\<forall>k\<in>set ks. \<exists>i<length ks. ks ! i = k \<and> map_of cs k = Some (es ! i, ps ! i, xs ! i)) \<and>
            (distinct ks \<longrightarrow> cs = zip ks (zip es (zip ps xs)) \<and> length cs = length ks)"
    by (intro exI [of _ "split_dict es ps xs ks"] conjI)
next
  assume a: "\<not> forceApplied s \<and> loadXml env x s = (Inr (), s')"
  from loadXml_chain [of s env x s'] a obtain doc d' sI sS sC sN where
    im: "import_xml2OpenSMOG env x (s\<lparr>io_log := io_log s @ [''share/OpenSMOG_nb.xsd'', x]\<rparr>) = (Inr d', sI)"
    and sp: "splitForces_contacts (sI\<lparr>data := Some d'\<rparr>) = (Inr (), sS)"
    and lc: "loadXml_contacts env sS = (Inr (), sC)"
    and ln: "loadXml_nonbond env sC = (Inr (), sN)"
    and s': "s' = sN\<lparr>forceApplied := True\<rparr>"
    by blast
  from import_frame [OF im] obtain cp np where
    sI: "sI = s\<lparr>constants_present := cp, nonbond_present := np,
                io_log := io_log s @ [''share/OpenSMOG_nb.xsd'', x] @ [x]\<rparr>"
    by auto
  from sp obtain es' ps' xs' ks' where c: "xd_contacts d' = (es', ps', xs', ks')"
    and l: "length ks' \<le> length es'" "length ks' \<le> length ps'" "length ks' \<le> length xs'"
    and sS: "sS = sI\<lparr>data := Some d', contacts := Some (split_dict es' ps' xs' ks')\<rparr>"
    unfolding splitForces_contacts_result split_dict_def by auto
  define cs where "cs = split_dict es' ps' xs' ks'"
  from loadXml_contacts_result [OF lc] obtain cfs where len: "length cfs = length cs"
    and built: "\<forall>i<length cs. built_contact env sS (forceCount sS + int i) (snd (cs ! i)) (cfs ! i)"
    and sC: "sC = sS\<lparr>heap := heap sS @ cfs,
               forcesDict := map_option (dict_updates (map fst cs) (length (heap sS))) (forcesDict sS),
               forceCount := forceCount sS + int (length cs),
               system := map_option
                 (\<lambda>sy. sy\<lparr>sys_forces := sys_forces sy @
                                          [length (heap sS) ..< length (heap sS) + length cs]\<rparr>)
                 (system sS)\<rparr>"
    by (auto simp: sS cs_def)
  have hS: "heap sS = heap s" "forceCount sS = forceCount s" "system sS = system s"
    by (simp_all add: sS sI)
  have each: "\<forall>i<length cs. force_class (cfs ! i) = CustomBondForce \<and>
             forceGroup (cfs ! i) = forceCount s + int i \<and>
             (\<exists>ff. contacts_force env (snd (cs ! i)) = Inr ff \<and> energy (cfs ! i) = energy ff \<and>
                   perBondParameters (cfs ! i) = perBondParameters ff \<and>
                   bonds (cfs ! i) = bonds ff)"
  proof (intro allI impI)
    fix i assume "i < length cs"
    with built obtain ff ff' where cf: "contacts_force env (snd (cs ! i)) = Inr ff"
      and ac: "add_constants sS ff = Inr ff'"
      and e: "cfs ! i = ff'\<lparr>forceGroup := forceCount sS + int i\<rparr>"
      by (auto simp: built_contact_def)
    obtain expr pars inters where r: "snd (cs ! i) = (expr, pars, inters)"
      by (cases "snd (cs ! i)") auto
    from cf r have cl: "force_class ff = CustomBondForce"
    proof -
      from cf r obtain ffa where a1: "efold addPerBondParameter pars (new_force CustomBondForce expr) = Inr ffa"
        and a2: "efold (\<lambda>iteraction ff'.
                 ebind (interaction_bond env pars iteraction)
                   (\<lambda>b. case b of (i, j, ps) \<Rightarrow> Inr (addBond i j ps ff'))) inters ffa = Inr ff"
        by (auto simp: contacts_force_def ebind_def split: sum.splits)
      have p1: "efold addPerBondParameter qs f = Inr f' \<Longrightarrow> force_class f' = force_class f" for qs f f'
        by (induction qs arbitrary: f) (auto simp: addPerBondParameter_def split: option.splits sum.splits)
      have p2: "efold (\<lambda>iteraction ff'.
                 ebind (interaction_bond env pars iteraction)
                   (\<lambda>b. case b of (i, j, ps) \<Rightarrow> Inr (addBond i j ps ff'))) ys f = Inr f' \<Longrightarrow>
                force_class f' = force_class f" for ys f f'
        by (induction ys arbitrary: f) (auto simp: addBond_def ebind_def split: sum.splits)
      from p1 [OF a1] p2 [OF a2] show ?thesis by (simp add: new_force_def)
    qed
    from add_constants_frame [OF ac] cf cl e hS
    show "force_class (cfs ! i) = CustomBondForce \<and>
             forceGroup (cfs ! i) = forceCount s + int i \<and>
             (\<exists>ff. contacts_force env (snd (cs ! i)) = Inr ff \<and> energy (cfs ! i) = energy ff \<and>
                   perBondParameters (cfs ! i) = perBondParameters ff \<and>
                   bonds (cfs ! i) = bonds ff)"
      by simp
  qed
  have dk: "distinct ks' \<longrightarrow> cs = zip ks' (zip es' (zip ps' xs')) \<and> length cs = length ks'"
    using split_dict_props(4) [OF l] unfolding cs_def .
  have hC: "heap sC = heap s @ cfs" by (simp add: sC hS)
  have dC: "data sC = Some d'" "contacts sC = Some cs" by (simp_all add: sC sS cs_def)
  have yC: "map_option sys_forces (system sC) =
      map_option (\<lambda>sy. sys_forces sy @ [length (heap s) ..< length (heap s) + length cs]) (system s)"
    by (cases "system s") (simp_all add: sC hS)
  from loadXml_nonbond_result [OF ln]
  show "\<exists>d' es' ps' xs' ks' cs cfs nfs n.
          data s' = Some d' \<and> xd_contacts d' = (es', ps', xs', ks') \<and> contacts s' = Some cs \<and>
          (distinct ks' \<longrightarrow> cs = zip ks' (zip es' (zip ps' xs')) \<and> length cs = length ks') \<and>
          heap s' = heap s @ cfs @ nfs \<and> length cfs = length cs \<and>
          (\<forall>i<length cs. force_class (cfs ! i) = CustomBondForce \<and>
             forceGroup (cfs ! i) = forceCount s + int i \<and>
             (\<exists>ff. contacts_force env (snd (cs ! i)) = Inr ff \<and> energy (cfs ! i) = energy ff \<and>
                   perBondParameters (cfs ! i) = perBondParameters ff \<and>
                   bonds (cfs ! i) = bonds ff)) \<and>
          (\<forall>f\<in>set nfs. force_class f = CustomNonbondedForce) \<and>
          (n = 0 \<or> n = 2) \<and>
          map_option sys_forces (system s') =
            map_option (\<lambda>sy. drop n (sys_forces sy @ [length (heap s) ..< length (heap s')]))
              (system s)"
  proof
    assume "nonbond_present sC = Some False \<and> sN = sC"
    then have sN: "sN = sC" by simp
    have "map_option sys_forces (system s') =
            map_option (\<lambda>sy. drop 0 (sys_forces sy @ [length (heap s) ..< length (heap s')]))
              (system s)"
      using yC len by (simp add: s' sN hC)
    with c dk each len dC hC show ?thesis
      by (rule_tac x = d' in exI, rule_tac x = es' in exI, rule_tac x = ps' in exI,
          rule_tac x = xs' in exI, rule_tac x = ks' in exI, rule_tac x = cs in exI,
          rule_tac x = cfs in exI, rule_tac x = "[]" in exI, rule_tac x = 0 in exI)
        (simp add: s' sN)
  next
    assume "nonbond_present sC = Some True \<and>
      (\<exists>ns fs tys sy. length fs = length ns \<and>
        (\<forall>i<length ns. first_two_copied sC (fs ! i) \<and> force_class (fs ! i) = CustomNonbondedForce \<and>
                        energy (fs ! i) = fst (snd (ns ! i)) \<and>
                        forceGroup (fs ! i) = forceCount sC + int i) \<and>
        system sC = Some sy \<and>
        2 \<le> length (sys_forces sy) + length ns \<and>
        sN = sC\<lparr>heap := heap sC @ fs,
               forcesDict := map_option (dict_updates (nb_keys (map fst ns)) (length (heap sC))) (forcesDict sC),
               forceCount := forceCount sC + int (length ns),
               system := Some (sy\<lparr>sys_forces := drop 2 (sys_forces sy @
                                          [length (heap sC) ..< length (heap sC) + length ns])\<rparr>),
               nonbond := Some ns,
               atom_types := tys\<rparr>)"
    then obtain ns nfs tys syC where nl: "length nfs = length ns"
      and ne: "\<forall>i<length ns. force_class (nfs ! i) = CustomNonbondedForce"
      and syC: "system sC = Some syC"
      and sN: "sN = sC\<lparr>heap := heap sC @ nfs,
               forcesDict := map_option (dict_updates (nb_keys (map fst ns)) (length (heap sC))) (forcesDict sC),
               forceCount := forceCount sC + int (length ns),
               system := Some (syC\<lparr>sys_forces := drop 2 (sys_forces syC @
                                          [length (heap sC) ..< length (heap sC) + length ns])\<rparr>),
               nonbond := Some ns,
               atom_types := tys\<rparr>"
      by blast
    from syC yC obtain sy where sy: "system s = Some sy"
      and fC: "sys_forces syC = sys_forces sy @ [length (heap s) ..< length (heap s) + length cs]"
      by (cases "system s") auto
    have up: "[length (heap s) ..< length (heap s) + length cs] @
        [length (heap s) + length cs ..< length (heap s) + (length cs + length ns)] =
        [length (heap s) ..< length (heap s) + (length cs + length ns)]"
      by (metis le_add1 upt_add_eq_append add.assoc)
    have ys: "map_option sys_forces (system s') =
            map_option (\<lambda>sy. drop 2 (sys_forces sy @ [length (heap s) ..< length (heap s')]))
              (system s)"
      using up by (simp add: s' sN sy fC hC len nl add.assoc)
    have na: "\<forall>f\<in>set nfs. force_class f = CustomNonbondedForce"
      using ne nl by (auto simp: in_set_conv_nth)
    have hs: "heap s' = heap s @ cfs @ nfs" by (simp add: s' sN hC)
    have ds: "data s' = Some d'" "contacts s' = Some cs" using dC by (simp_all add: s' sN)
    from c dk each len ds hs na ys show ?thesis
      by (rule_tac x = d' in exI, rule_tac x = es' in exI, rule_tac x = ps' in exI,
          rule_tac x = xs' in exI, rule_tac x = ks' in exI, rule_tac x = cs in exI,
          rule_tac x = cfs in exI, rule_tac x = nfs in exI, rule_tac x = 2 in exI) simp
  qed
qed

theorem contacts_split_and_added_witness:
  "map_option xd_contacts (data ex_s1) = Some (ex_E, ex_P, ex_X, ex_N) \<and>
   length ex_E = length ex_N \<and> length ex_P = length ex_N \<and> length ex_X = length ex_N \<and>
   distinct ex_N \<and>
   splitForces_contacts ex_s1 =
     (Inr (), ex_s1\<lparr>contacts := Some (zip ex_N (zip ex_E (zip ex_P ex_X)))\<rparr>) \<and>
   \<not> forceApplied ex_st \<and> loadXml ex_env ''a.xml'' ex_st = (Inr (), ex_s1) \<and>
   contacts ex_s1 = Some (zip ex_N (zip ex_E (zip ex_P ex_X))) \<and>
   (\<exists>cfs nfs. heap ex_s1 = heap ex_st @ cfs @ nfs \<and> length cfs = 2 \<and>
      force_class (cfs ! 0) = CustomBondForce \<and> force_class (cfs ! 1) = CustomBondForce \<and>
      forceGroup (cfs ! 0) = forceCount ex_st \<and> forceGroup (cfs ! 1) = forceCount ex_st + 1)"
proof -
  obtain d where d: "data ex_s1 = Some d" and c: "xd_contacts d = (ex_E, ex_P, ex_X, ex_N)"
  proof -
    have "map_option xd_contacts (data ex_s1) = Some (ex_E, ex_P, ex_X, ex_N)" by code_simp
    then show ?thesis using that by (cases "data ex_s1") auto
  qed
  have l: "length ex_E = length ex_N \<and> length ex_P = length ex_N \<and> length ex_X = length ex_N"
    by code_simp
  have dn: "distinct ex_N" by code_simp
  have na: "\<not> forceApplied ex_st" by code_simp
  note A = contacts_split_and_added [of ex_s1 d ex_E ex_P ex_X ex_N ex_env "''a.xml''" ex_s1]
  note B = contacts_split_and_added [of ex_st d ex_E ex_P ex_X ex_N ex_env "''a.xml''" ex_s1]
  have pre: "data ex_s1 = Some d \<and> xd_contacts d = (ex_E, ex_P, ex_X, ex_N) \<and>
      length ex_E = length ex_N \<and> length ex_P = length ex_N \<and> length ex_X = length ex_N"
    using d c l by (intro conjI) (simp_all only:)
  from A [THEN conjunct1, THEN mp, OF pre] obtain cs0 where
    s0: "splitForces_contacts ex_s1 = (Inr (), ex_s1\<lparr>contacts := Some cs0\<rparr>)"
    and z: "distinct ex_N \<longrightarrow> cs0 = zip ex_N (zip ex_E (zip ex_P ex_X)) \<and> length cs0 = length ex_N"
    by (elim exE conjE)
  from z dn have "cs0 = zip ex_N (zip ex_E (zip ex_P ex_X))" by (simp only: simp_thms)
  with s0 have sp: "splitForces_contacts ex_s1 =
     (Inr (), ex_s1\<lparr>contacts := Some (zip ex_N (zip ex_E (zip ex_P ex_X)))\<rparr>)"
    by (simp only:)
  from B [THEN conjunct2, THEN mp, OF conjI [OF na ex_loadXml]]
  obtain d' es' ps' xs' ks' cs cfs nfs where
    d': "data ex_s1 = Some d'" and c': "xd_contacts d' = (es', ps', xs', ks')"
    and cs: "contacts ex_s1 = Some cs"
    and dk: "distinct ks' \<longrightarrow> cs = zip ks' (zip es' (zip ps' xs')) \<and> length cs = length ks'"
    and h: "heap ex_s1 = heap ex_st @ cfs @ nfs" and len: "length cfs = length cs"
    and each: "\<forall>i<length cs. force_class (cfs ! i) = CustomBondForce \<and>
             forceGroup (cfs ! i) = forceCount ex_st + int i \<and>
             (\<exists>ff. contacts_force ex_env (snd (cs ! i)) = Inr ff \<and> energy (cfs ! i) = energy ff \<and>
                   perBondParameters (cfs ! i) = perBondParameters ff \<and>
                   bonds (cfs ! i) = bonds ff)"
    by (elim conjE exE)
  from d d' c c' have e: "es' = ex_E" "ps' = ex_P" "xs' = ex_X" "ks' = ex_N" by auto
  from dk dn e have cse: "cs = zip ex_N (zip ex_E (zip ex_P ex_X))" and csl: "length cs = 2"
    by (auto simp: ex_N_def)
  from csl have "0 < length cs" "1 < length cs" by simp_all
  from each [rule_format, OF this(1)] each [rule_format, OF this(2)]
  have e0: "force_class (cfs ! 0) = CustomBondForce" "forceGroup (cfs ! 0) = forceCount ex_st"
    and e1: "force_class (cfs ! 1) = CustomBondForce" "forceGroup (cfs ! 1) = forceCount ex_st + 1"
    by simp_all
  from len csl have l2c: "length cfs = 2" by simp
  have x: "\<exists>cfs nfs. heap ex_s1 = heap ex_st @ cfs @ nfs \<and> length cfs = 2 \<and>
      force_class (cfs ! 0) = CustomBondForce \<and> force_class (cfs ! 1) = CustomBondForce \<and>
      forceGroup (cfs ! 0) = forceCount ex_st \<and> forceGroup (cfs ! 1) = forceCount ex_st + 1"
    apply (rule_tac x = cfs in exI)
    apply (rule_tac x = nfs in exI)
    using h l2c e0 e1 by (intro conjI)
  have m: "map_option xd_contacts (data ex_s1) = Some (ex_E, ex_P, ex_X, ex_N)"
    using d c by simp
  have cc: "contacts ex_s1 = Some (zip ex_N (zip ex_E (zip ex_P ex_X)))"
    using cs cse by simp
  from l have l1: "length ex_E = length ex_N" and l2: "length ex_P = length ex_N"
    and l3: "length ex_X = length ex_N" by blast+
  from m l1 l2 l3 dn sp na ex_loadXml cc x show ?thesis by (intro conjI)
qed

text \<open>
  C10. When \<open>loadXml\<close> finds \<open>forceApplied\<close> unset, reads a file with a \<open>nonbond\<close> section and
  returns, then periodic boundary conditions are on, and with \<open>F\<close> the forces of the
  system once the contact forces are added: \<open>F\<close> has at least two forces; one custom
  nonbonded force was created per entry of the nonbonded dictionary; each of them has
  exactly the exclusion pairs of the second force of \<open>F\<close> and one particle per particle of
  the system carrying that particle's charge from the first force of \<open>F\<close>; and the system
  ends with \<open>F\<close> without its first two forces, followed by the new nonbonded forces.
\<close>

theorem nonbond_copies_first_two:
  assumes na: "\<not> forceApplied s" and lx: "loadXml env x s = (Inr (), s')"
    and doc: "parse_xml env x = Some doc" and nb: "find_child ''nonbond'' doc \<noteq> None"
  shows "pbc s \<and>
    (\<exists>sy cfs nfs ns F. system s = Some sy \<and> heap s' = heap s @ cfs @ nfs \<and>
       nonbond s' = Some ns \<and> length nfs = length ns \<and>
       F = sys_forces sy @ [length (heap s) ..< length (heap s) + length cfs] \<and> 2 \<le> length F \<and>
       (\<forall>nf\<in>set nfs. force_class nf = CustomNonbondedForce \<and>
           F ! 0 < length (heap s) + length cfs \<and> F ! 1 < length (heap s) + length cfs \<and>
           copied_from (heap s' ! (F ! 0)) (heap s' ! (F ! 1)) (numParticles sy) nf) \<and>
       map_option sys_forces (system s') =
         Some (drop 2 (F @ [length (heap s) + length cfs ..< length (heap s')])) \<and>
       map_option numParticles (system s') = Some (numParticles sy))"
proof -
  from loadXml_chain [OF na lx] doc obtain d sI sS sC sN where
    im: "import_xml2OpenSMOG env x (s\<lparr>io_log := io_log s @ [''share/OpenSMOG_nb.xsd'', x]\<rparr>) = (Inr d, sI)"
    and sp: "splitForces_contacts (sI\<lparr>data := Some d\<rparr>) = (Inr (), sS)"
    and lc: "loadXml_contacts env sS = (Inr (), sC)"
    and ln: "loadXml_nonbond env sC = (Inr (), sN)"
    and s': "s' = sN\<lparr>forceApplied := True\<rparr>"
    by auto
  from import_frame [OF im] obtain cp np where
    sI: "sI = s\<lparr>constants_present := cp, nonbond_present := np,
                io_log := io_log s @ [''share/OpenSMOG_nb.xsd'', x] @ [x]\<rparr>"
    by auto
  from import_Inr [OF im] doc nb have pbc: "pbc s" and npI: "nonbond_present sI = Some True"
    by auto
  from sp obtain cs0 where sS: "sS = sI\<lparr>data := Some d, contacts := Some cs0\<rparr>"
    unfolding splitForces_contacts_result by auto
  from loadXml_contacts_result [OF lc] obtain cs cfs where "contacts sS = Some cs"
    and len: "length cfs = length cs"
    and "\<forall>i<length cs. built_contact env sS (forceCount sS + int i) (snd (cs ! i)) (cfs ! i)"
    and sC: "sC = sS\<lparr>heap := heap sS @ cfs,
               forcesDict := map_option (dict_updates (map fst cs) (length (heap sS))) (forcesDict sS),
               forceCount := forceCount sS + int (length cs),
               system := map_option
                 (\<lambda>sy. sy\<lparr>sys_forces := sys_forces sy @
                                          [length (heap sS) ..< length (heap sS) + length cs]\<rparr>)
                 (system sS)\<rparr>"
    by (elim exE conjE)
  have hS: "heap sS = heap s" "system sS = system s" by (simp_all add: sS sI)
  have npC: "nonbond_present sC = Some True" using npI by (simp add: sC sS)
  have hC: "heap sC = heap s @ cfs" by (simp add: sC hS)
  from loadXml_nonbond_result [OF ln] npC obtain ns nfs tys syC where nl: "length nfs = length ns"
    and ne: "\<forall>i<length ns. first_two_copied sC (nfs ! i) \<and> force_class (nfs ! i) = CustomNonbondedForce"
    and syC: "system sC = Some syC"
    and two: "2 \<le> length (sys_forces syC) + length ns"
    and sN: "sN = sC\<lparr>heap := heap sC @ nfs,
               forcesDict := map_option (dict_updates (nb_keys (map fst ns)) (length (heap sC))) (forcesDict sC),
               forceCount := forceCount sC + int (length ns),
               system := Some (syC\<lparr>sys_forces := drop 2 (sys_forces syC @
                                          [length (heap sC) ..< length (heap sC) + length ns])\<rparr>),
               nonbond := Some ns,
               atom_types := tys\<rparr>"
    by auto
  from syC obtain sy where sy: "system s = Some sy"
    and syCe: "syC = sy\<lparr>sys_forces := sys_forces sy @ [length (heap s) ..< length (heap s) + length cs]\<rparr>"
    by (cases "system s") (auto simp: sC hS)
  define F where "F = sys_forces sy @ [length (heap s) ..< length (heap s) + length cfs]"
  have FC: "sys_forces syC = F" by (simp add: syCe F_def len)
  have nP: "numParticles syC = numParticles sy" by (simp add: syCe)
  have twoF: "2 \<le> length F"
  proof (cases ns)
    case Nil
    with two FC show ?thesis by simp
  next
    case (Cons n ns')
    with ne have "first_two_copied sC (nfs ! 0)" by auto
    with syC FC show ?thesis by (simp add: first_two_copied_def)
  qed
  have hs: "heap s' = heap s @ cfs @ nfs" by (simp add: s' sN hC)
  have each: "\<forall>nf\<in>set nfs. force_class nf = CustomNonbondedForce \<and>
           F ! 0 < length (heap s) + length cfs \<and> F ! 1 < length (heap s) + length cfs \<and>
           copied_from (heap s' ! (F ! 0)) (heap s' ! (F ! 1)) (numParticles sy) nf"
  proof
    fix nf assume "nf \<in> set nfs"
    then obtain i where i: "i < length ns" and nf: "nf = nfs ! i"
      using nl by (auto simp: in_set_conv_nth)
    with ne have c: "first_two_copied sC nf" and cl: "force_class nf = CustomNonbondedForce"
      by auto
    from c syC FC nP hC have r: "F ! 0 < length (heap s) + length cfs" "F ! 1 < length (heap s) + length cfs"
      and cp: "copied_from ((heap s @ cfs) ! (F ! 0)) ((heap s @ cfs) ! (F ! 1)) (numParticles sy) nf"
      by (simp_all add: first_two_copied_def)
    have "heap s' ! (F ! 0) = (heap s @ cfs) ! (F ! 0)" "heap s' ! (F ! 1) = (heap s @ cfs) ! (F ! 1)"
      using r by (simp_all add: hs nth_append)
    with r cp cl show "force_class nf = CustomNonbondedForce \<and>
           F ! 0 < length (heap s) + length cfs \<and> F ! 1 < length (heap s) + length cfs \<and>
           copied_from (heap s' ! (F ! 0)) (heap s' ! (F ! 1)) (numParticles sy) nf"
      by simp
  qed
  have ys: "map_option sys_forces (system s') =
         Some (drop 2 (F @ [length (heap s) + length cfs ..< length (heap s')]))"
    by (simp add: s' sN FC hC hs nl add.assoc)
  have yp: "map_option numParticles (system s') = Some (numParticles sy)"
    by (simp add: s' sN nP)
  have nn: "nonbond s' = Some ns" by (simp add: s' sN)
  from sy hs nn nl twoF each ys yp have
    "\<exists>sy cfs nfs ns F. system s = Some sy \<and> heap s' = heap s @ cfs @ nfs \<and>
       nonbond s' = Some ns \<and> length nfs = length ns \<and>
       F = sys_forces sy @ [length (heap s) ..< length (heap s) + length cfs] \<and> 2 \<le> length F \<and>
       (\<forall>nf\<in>set nfs. force_class nf = CustomNonbondedForce \<and>
           F ! 0 < length (heap s) + length cfs \<and> F ! 1 < length (heap s) + length cfs \<and>
           copied_from (heap s' ! (F ! 0)) (heap s' ! (F ! 1)) (numParticles sy) nf) \<and>
       map_option sys_forces (system s') =
         Some (drop 2 (F @ [length (heap s) + length cfs ..< length (heap s')])) \<and>
       map_option numParticles (system s') = Some (numParticles sy)"
    unfolding F_def
    by (rule_tac x = sy in exI, rule_tac x = cfs in exI, rule_tac x = nfs in exI,
        rule_tac x = ns in exI, rule_tac x = F in exI) (simp add: F_def)
  with pbc show ?thesis by simp
qed

theorem nonbond_copies_first_two_witness:
  "\<not> forceApplied ex_st \<and> loadXml ex_env ''a.xml'' ex_st = (Inr (), ex_s1) \<and>
   parse_xml ex_env ''a.xml'' = Some ex_doc \<and> find_child ''nonbond'' ex_doc \<noteq> None \<and>
   pbc ex_st \<and>
   copied_from (heap ex_s1 ! 0) (heap ex_s1 ! 1) 2 (heap ex_s1 ! 9) \<and>
   exclusions (heap ex_s1 ! 9) = [(0, 1)] \<and>
   particles (heap ex_s1 ! 9) = [[Num 1, Num 0], [Num (- 1), Num 1]] \<and>
   map_option sys_forces (system ex_st) = Some [0, 1, 2, 3, 4, 5, 6] \<and>
   map_option sys_forces (system ex_s1) = Some [2, 3, 4, 5, 6, 7, 8, 9]"
proof -
  have na: "\<not> forceApplied ex_st" by code_simp
  have px: "parse_xml ex_env ''a.xml'' = Some ex_doc" by code_simp
  have fc: "find_child ''nonbond'' ex_doc \<noteq> None" by code_simp
  from nonbond_copies_first_two [OF na ex_loadXml px fc] obtain sy cfs nfs ns F where
    pbc: "pbc ex_st" and sy: "system ex_st = Some sy"
    and h: "heap ex_s1 = heap ex_st @ cfs @ nfs"
    and ns: "nonbond ex_s1 = Some ns" and nl: "length nfs = length ns"
    and F: "F = sys_forces sy @ [length (heap ex_st) ..< length (heap ex_st) + length cfs]"
    and each: "\<forall>nf\<in>set nfs. force_class nf = CustomNonbondedForce \<and>
           F ! 0 < length (heap ex_st) + length cfs \<and> F ! 1 < length (heap ex_st) + length cfs \<and>
           copied_from (heap ex_s1 ! (F ! 0)) (heap ex_s1 ! (F ! 1)) (numParticles sy) nf"
    and ys: "map_option sys_forces (system ex_s1) =
         Some (drop 2 (F @ [length (heap ex_st) + length cfs ..< length (heap ex_s1)]))"
    by (elim conjE exE)
  have v1: "map_option sys_forces (system ex_st) = Some [0, 1, 2, 3, 4, 5, 6]" by code_simp
  have v2: "map_option numParticles (system ex_st) = Some 2" by code_simp
  have v3: "length (heap ex_st) = 7 \<and> length (heap ex_s1) = 10" by code_simp
  have v4: "map_option length (nonbond ex_s1) = Some 1" by code_simp
  have v5: "exclusions (heap ex_s1 ! 9) = [(0, 1)] \<and>
      particles (heap ex_s1 ! 9) = [[Num 1, Num 0], [Num (- 1), Num 1]] \<and>
      map_option sys_forces (system ex_s1) = Some [2, 3, 4, 5, 6, 7, 8, 9]" by code_simp
  from v4 ns nl have n1: "length nfs = 1" by simp
  have "length (heap ex_s1) = length (heap ex_st) + length cfs + length nfs"
    by (simp add: h)
  with n1 v3 have c2: "length cfs = 2" by arith
  from n1 obtain nf where nfs: "nfs = [nf]" by (cases nfs) auto
  from h v3 c2 nfs have nf: "nf = heap ex_s1 ! 9" by (simp add: nth_append)
  from v1 sy F have F0: "F ! 0 = 0" "F ! 1 = 1" by auto
  from v2 sy have np: "numParticles sy = 2" by simp
  from each nfs nf F0 np have cp: "copied_from (heap ex_s1 ! 0) (heap ex_s1 ! 1) 2 (heap ex_s1 ! 9)"
    by simp
  from v5 have v5a: "exclusions (heap ex_s1 ! 9) = [(0, 1)]"
    and v5b: "particles (heap ex_s1 ! 9) = [[Num 1, Num 0], [Num (- 1), Num 1]]"
    and v5c: "map_option sys_forces (system ex_s1) = Some [2, 3, 4, 5, 6, 7, 8, 9]"
    by blast+
  from na ex_loadXml px fc pbc cp v5a v5b v1 v5c show ?thesis by (intro conjI)
qed

subsection \<open>Documents that are refused\<close>

lemma loadXml_applied: "forceApplied s \<Longrightarrow> loadXml env x s = (Inr (), s)"
  by (simp add: loadXml_def)

lemma loadXml_unparsed:
  "\<not> forceApplied s \<Longrightarrow> parse_xml env x = None \<Longrightarrow>
   loadXml env x s =
     (Inl (ExternalError ''etree.parse''), s\<lparr>io_log := io_log s @ [''share/OpenSMOG_nb.xsd'', x]\<rparr>)"
  by (simp add: loadXml_def validate_def seq_def)

lemma loadXml_invalid:
  "\<not> forceApplied s \<Longrightarrow> parse_xml env x = Some doc \<Longrightarrow> \<not> xmlschema env doc \<Longrightarrow>
   loadXml env x s =
     (Inl (ValueError ''The xml file is not in the correct format''),
      s\<lparr>io_log := io_log s @ [''share/OpenSMOG_nb.xsd'', x]\<rparr>)"
  by (simp add: loadXml_def validate_def seq_def)

lemma loadXml_import_error:
  "\<not> forceApplied s \<Longrightarrow> parse_xml env x = Some doc \<Longrightarrow> xmlschema env doc \<Longrightarrow>
   import_xml2OpenSMOG env x (s\<lparr>io_log := io_log s @ [''share/OpenSMOG_nb.xsd'', x]\<rparr>) = (Inl e, s2) \<Longrightarrow>
   loadXml env x s = (Inl e, s2)"
  by (simp add: loadXml_def validate_def seq_def)

lemma import_rejected:
  assumes p: "parse_xml env x = Some doc"
    and r: "find_child ''contacts'' doc = None \<or> (find_child ''nonbond'' doc \<noteq> None \<and> \<not> pbc s)"
  shows "\<exists>e s'. import_xml2OpenSMOG env x s = (Inl e, s')"
proof (cases "import_xml2OpenSMOG env x s")
  case (Pair res s')
  show ?thesis
  proof (cases res)
    case (Inl e)
    with Pair show ?thesis by blast
  next
    case (Inr d)
    with Pair have "import_xml2OpenSMOG env x s = (Inr d, s')" by simp
    from import_Inr [OF this] p r show ?thesis by auto
  qed
qed

lemma import_constants_readable:
  "constants_readable env doc \<Longrightarrow> \<exists>c cp. import_constants env doc s = (Inr c, s\<lparr>constants_present := cp\<rparr>)"
proof (cases "find_child ''constants'' doc")
  case None
  then have "import_constants env doc s = (Inr None, s\<lparr>constants_present := constants_present s\<rparr>)"
    by (simp add: import_constants_def)
  then show ?thesis by blast
next
  case (Some c)
  assume "constants_readable env doc"
  with Some obtain cs where "parse_constants env c = Inr cs"
    by (cases "parse_constants env c") (auto simp: constants_readable_def)
  with Some have "import_constants env doc s = (Inr (Some cs), s\<lparr>constants_present := Some True\<rparr>)"
    by (simp add: import_constants_def)
  then show ?thesis by blast
qed

lemma import_no_contacts:
  assumes p: "parse_xml env x = Some doc" and v: "find_child ''OpenSMOGminVersion'' doc \<noteq> None"
    and c: "constants_readable env doc" and n: "find_child ''contacts'' doc = None"
  shows "fst (import_xml2OpenSMOG env x s) = Inl (ValueError ''No contacts were found in the XML file'')"
proof -
  from import_constants_readable [OF c, of "s\<lparr>io_log := io_log s @ [x]\<rparr>"] obtain k cp where
    "import_constants env doc (s\<lparr>io_log := io_log s @ [x]\<rparr>) =
       (Inr k, s\<lparr>io_log := io_log s @ [x]\<rparr>\<lparr>constants_present := cp\<rparr>)" by blast
  with p v n show ?thesis
    by (auto simp: import_xml2OpenSMOG_def Let_def seq_def)
qed

lemma import_pbc_off:
  assumes p: "parse_xml env x = Some doc" and v: "find_child ''OpenSMOGminVersion'' doc \<noteq> None"
    and c: "constants_readable env doc" and n: "find_child ''contacts'' doc \<noteq> None"
    and r: "contacts_readable doc" and nb: "find_child ''nonbond'' doc \<noteq> None" and pbc: "\<not> pbc s"
  shows "fst (import_xml2OpenSMOG env x s) = Inl (ValueError ''Nonbonded forces found, but PBC is off'')"
proof -
  from import_constants_readable [OF c, of "s\<lparr>io_log := io_log s @ [x]\<rparr>"] obtain k cp where
    ic: "import_constants env doc (s\<lparr>io_log := io_log s @ [x]\<rparr>) =
       (Inr k, s\<lparr>io_log := io_log s @ [x]\<rparr>\<lparr>constants_present := cp\<rparr>)" by blast
  from n obtain cx where cx: "find_child ''contacts'' doc = Some cx" by auto
  with r obtain cont where pc: "parse_contacts cx = Inr cont"
    by (cases "parse_contacts cx") (auto simp: contacts_readable_def)
  from nb obtain nx where nx: "find_child ''nonbond'' doc = Some nx" by auto
  from nx pbc have "import_nonbond doc (s\<lparr>io_log := io_log s @ [x]\<rparr>\<lparr>constants_present := cp\<rparr>) =
      (Inl (ValueError ''Nonbonded forces found, but PBC is off''),
       s\<lparr>io_log := io_log s @ [x]\<rparr>\<lparr>constants_present := cp\<rparr>)"
    by (simp add: import_nonbond_def)
  with p v ic cx pc show ?thesis
    by (auto simp: import_xml2OpenSMOG_def Let_def seq_def)
qed

lemma loadXml_rejected_frame:
  assumes p: "parse_xml env x = Some doc" and r: "rejected env s doc"
  shows "no_force_touched s (snd (loadXml env x s)) \<and>
         (\<not> forceApplied s \<longrightarrow> (\<exists>e. fst (loadXml env x s) = Inl e))"
proof (cases "forceApplied s")
  case True
  then show ?thesis by (simp add: loadXml_applied no_force_touched_def)
next
  case fa: False
  define s1 where "s1 = s\<lparr>io_log := io_log s @ [''share/OpenSMOG_nb.xsd'', x]\<rparr>"
  show ?thesis
  proof (cases "xmlschema env doc")
    case False
    from loadXml_invalid [OF fa p False] fa show ?thesis by (simp add: no_force_touched_def)
  next
    case True
    with r have "find_child ''contacts'' doc = None \<or> (find_child ''nonbond'' doc \<noteq> None \<and> \<not> pbc s1)"
      by (simp add: rejected_def s1_def)
    from import_rejected [OF p this] obtain e s2 where i: "import_xml2OpenSMOG env x s1 = (Inl e, s2)"
      by blast
    from import_frame [OF i] obtain cp np where
      s2: "s2 = s1\<lparr>constants_present := cp, nonbond_present := np, io_log := io_log s1 @ [x]\<rparr>"
      by blast
    from loadXml_import_error [OF fa p True i [unfolded s1_def]] have "loadXml env x s = (Inl e, s2)" .
    with fa s2 show ?thesis by (simp add: no_force_touched_def s1_def)
  qed
qed

lemma loadXml_rejected_error:
  assumes p: "parse_xml env x = Some doc" and r: "rejected env s doc" and fa: "\<not> forceApplied s"
    and ok: "\<not> xmlschema env doc \<or> preamble_readable env doc"
  shows "fst (loadXml env x s) = Inl (rejection_error env doc)"
proof (cases "xmlschema env doc")
  case False
  from loadXml_invalid [OF fa p False] False show ?thesis by (simp add: rejection_error_def)
next
  case True
  define s1 where "s1 = s\<lparr>io_log := io_log s @ [''share/OpenSMOG_nb.xsd'', x]\<rparr>"
  from True ok have v: "find_child ''OpenSMOGminVersion'' doc \<noteq> None"
    and c: "constants_readable env doc" and cr: "contacts_readable doc"
    by (simp_all add: preamble_readable_def)
  obtain res s2 where i: "import_xml2OpenSMOG env x s1 = (res, s2)"
    by (cases "import_xml2OpenSMOG env x s1") auto
  have "res = Inl (rejection_error env doc)"
  proof (cases "find_child ''contacts'' doc = None")
    case n: True
    from import_no_contacts [OF p v c n, of s1] i True n show ?thesis
      by (simp add: rejection_error_def)
  next
    case n: False
    with r True have "find_child ''nonbond'' doc \<noteq> None" "\<not> pbc s1"
      by (simp_all add: rejected_def s1_def)
    from import_pbc_off [OF p v c n cr this] i True n show ?thesis
      by (simp add: rejection_error_def)
  qed
  with i have "import_xml2OpenSMOG env x s1 = (Inl (rejection_error env doc), s2)" by simp
  from loadXml_import_error [OF fa p True this [unfolded s1_def]] show ?thesis by simp
qed

lemma loadXml_touch_accepted:
  assumes "\<not> no_force_touched s (snd (loadXml env x s))"
  shows "\<exists>doc. parse_xml env x = Some doc \<and> \<not> rejected env s doc"
proof (cases "parse_xml env x")
  case None
  show ?thesis
  proof (cases "forceApplied s")
    case True
    with assms show ?thesis by (simp add: loadXml_applied no_force_touched_def)
  next
    case False
    from loadXml_unparsed [OF False None] assms show ?thesis by (simp add: no_force_touched_def)
  qed
next
  case (Some doc)
  from loadXml_rejected_frame [OF Some, of s] assms have "\<not> rejected env s doc" by blast
  with Some show ?thesis by blast
qed

text \<open>
  Claim C5. \<open>loadXml\<close> creates or adds forces only for a file whose document passes the
  schema and has a contacts element (and has no nonbond element while periodic boundary
  conditions are off). For a document that is refused on one of these three grounds, no
  force is created, added, removed or registered and the counter is unchanged; when the
  forces were not applied before, the call raises an exception, and the exception is the
  \<open>ValueError\<close> of the case whenever the schema check fails or the version, the constants
  and the contacts of the document can be read.
\<close>

theorem loadXml_rejects_before_forces:
  "(parse_xml env x = Some doc \<and> rejected env s doc \<longrightarrow>
      no_force_touched s (snd (loadXml env x s)) \<and>
      (\<not> forceApplied s \<longrightarrow>
         (\<exists>e. fst (loadXml env x s) = Inl e) \<and>
         (\<not> xmlschema env doc \<or> preamble_readable env doc \<longrightarrow>
            fst (loadXml env x s) = Inl (rejection_error env doc)))) \<and>
   (\<not> no_force_touched s (snd (loadXml env x s)) \<longrightarrow>
      (\<exists>d. parse_xml env x = Some d \<and> \<not> rejected env s d))"
proof (intro conjI impI)
  assume a: "parse_xml env x = Some doc \<and> rejected env s doc"
  then have p: "parse_xml env x = Some doc" and r: "rejected env s doc" by simp_all
  from loadXml_rejected_frame [OF p r] show "no_force_touched s (snd (loadXml env x s))" ..
  assume fa: "\<not> forceApplied s"
  from loadXml_rejected_frame [OF p r] fa show "\<exists>e. fst (loadXml env x s) = Inl e" by simp
  assume "\<not> xmlschema env doc \<or> preamble_readable env doc"
  from loadXml_rejected_error [OF p r fa this]
  show "fst (loadXml env x s) = Inl (rejection_error env doc)" .
next
  assume "\<not> no_force_touched s (snd (loadXml env x s))"
  from loadXml_touch_accepted [OF this]
  show "\<exists>d. parse_xml env x = Some d \<and> \<not> rejected env s d" .
qed

theorem loadXml_rejects_before_forces_witness:
  "parse_xml ex_env ''no_contacts.xml'' = Some ex_doc_no_contacts \<and>
   rejected ex_env ex_st ex_doc_no_contacts \<and> \<not> forceApplied ex_st \<and>
   preamble_readable ex_env ex_doc_no_contacts \<and>
   no_force_touched ex_st (snd (loadXml ex_env ''no_contacts.xml'' ex_st)) \<and>
   fst (loadXml ex_env ''no_contacts.xml'' ex_st) =
     Inl (ValueError ''No contacts were found in the XML file'') \<and>
   parse_xml ex_env ''a.xml'' = Some ex_doc \<and> rejected ex_env (ex_st\<lparr>pbc := False\<rparr>) ex_doc \<and>
   \<not> forceApplied (ex_st\<lparr>pbc := False\<rparr>) \<and> preamble_readable ex_env ex_doc \<and>
   no_force_touched (ex_st\<lparr>pbc := False\<rparr>) (snd (loadXml ex_env ''a.xml'' (ex_st\<lparr>pbc := False\<rparr>))) \<and>
   fst (loadXml ex_env ''a.xml'' (ex_st\<lparr>pbc := False\<rparr>)) =
     Inl (ValueError ''Nonbonded forces found, but PBC is off'') \<and>
   parse_xml ex_env ''other.xml'' = Some ex_doc_other \<and> rejected ex_env ex_st ex_doc_other \<and>
   fst (loadXml ex_env ''other.xml'' ex_st) =
     Inl (ValueError ''The xml file is not in the correct format'') \<and>
   \<not> no_force_touched ex_st (snd (loadXml ex_env ''a.xml'' ex_st)) \<and>
   \<not> rejected ex_env ex_st ex_doc"
proof -
  have p1: "parse_xml ex_env ''no_contacts.xml'' = Some ex_doc_no_contacts" by code_simp
  have r1: "rejected ex_env ex_st ex_doc_no_contacts" by code_simp
  have fa: "\<not> forceApplied ex_st" by code_simp
  have o1: "preamble_readable ex_env ex_doc_no_contacts" by code_simp
  have e1: "rejection_error ex_env ex_doc_no_contacts =
      ValueError ''No contacts were found in the XML file''" by code_simp
  have p2: "parse_xml ex_env ''a.xml'' = Some ex_doc" by code_simp
  have r2: "rejected ex_env (ex_st\<lparr>pbc := False\<rparr>) ex_doc" by code_simp
  have fa2: "\<not> forceApplied (ex_st\<lparr>pbc := False\<rparr>)" by code_simp
  have o2: "preamble_readable ex_env ex_doc" by code_simp
  have e2: "rejection_error ex_env ex_doc = ValueError ''Nonbonded forces found, but PBC is off''"
    by code_simp
  have p3: "parse_xml ex_env ''other.xml'' = Some ex_doc_other" by code_simp
  have r3: "rejected ex_env ex_st ex_doc_other" by code_simp
  have o3: "\<not> xmlschema ex_env ex_doc_other" by code_simp
  have e3: "rejection_error ex_env ex_doc_other =
      ValueError ''The xml file is not in the correct format''" by code_simp
  have t4: "\<not> no_force_touched ex_st (snd (loadXml ex_env ''a.xml'' ex_st))" by code_simp
  note A = loadXml_rejects_before_forces [of ex_env "''no_contacts.xml''" ex_doc_no_contacts ex_st,
      THEN conjunct1, THEN mp, OF conjI [OF p1 r1]]
  note B = loadXml_rejects_before_forces [of ex_env "''a.xml''" ex_doc "ex_st\<lparr>pbc := False\<rparr>",
      THEN conjunct1, THEN mp, OF conjI [OF p2 r2]]
  note C = loadXml_rejects_before_forces [of ex_env "''other.xml''" ex_doc_other ex_st,
      THEN conjunct1, THEN mp, OF conjI [OF p3 r3]]
  note D = loadXml_rejects_before_forces [of ex_env "''a.xml''" ex_doc ex_st,
      THEN conjunct2, THEN mp, OF t4]
  from A have a1: "no_force_touched ex_st (snd (loadXml ex_env ''no_contacts.xml'' ex_st))" ..
  from A [THEN conjunct2, THEN mp, OF fa, THEN conjunct2, THEN mp, OF disjI2 [OF o1]] e1
  have a2: "fst (loadXml ex_env ''no_contacts.xml'' ex_st) =
     Inl (ValueError ''No contacts were found in the XML file'')" by (simp only:)
  from B have b1: "no_force_touched (ex_st\<lparr>pbc := False\<rparr>)
      (snd (loadXml ex_env ''a.xml'' (ex_st\<lparr>pbc := False\<rparr>)))" ..
  from B [THEN conjunct2, THEN mp, OF fa2, THEN conjunct2, THEN mp, OF disjI2 [OF o2]] e2
  have b2: "fst (loadXml ex_env ''a.xml'' (ex_st\<lparr>pbc := False\<rparr>)) =
     Inl (ValueError ''Nonbonded forces found, but PBC is off'')" by (simp only:)
  from C [THEN conjunct2, THEN mp, OF fa, THEN conjunct2, THEN mp, OF disjI1 [OF o3]] e3
  have c2: "fst (loadXml ex_env ''other.xml'' ex_st) =
     Inl (ValueError ''The xml file is not in the correct format'')" by (simp only:)
  from D p2 have d: "\<not> rejected ex_env ex_st ex_doc" by auto
  from p1 r1 fa o1 a1 a2 p2 r2 fa2 o2 b1 b2 p3 r3 c2 t4 d show ?thesis by (intro conjI)
qed

subsection \<open>Force groups of the registered forces\<close>

lemma groups_ok_mono:
  "groups_ok h rs c b \<Longrightarrow> c \<le> c' \<Longrightarrow> b \<le> b' \<Longrightarrow> groups_ok h rs c' b'"
  by (auto simp: groups_ok_def list_all_iff)

lemma groups_ok_heap_cong:
  assumes "groups_ok h rs c b" and "\<And>r. r < b \<Longrightarrow> h' ! r = h ! r"
  shows "groups_ok h' rs c b"
proof -
  from assms(1) have b: "\<And>r. r \<in> set rs \<Longrightarrow> r < b" by (auto simp: groups_ok_def list_all_iff)
  have e: "\<And>r. r \<in> set rs \<Longrightarrow> forceGroup (h' ! r) = forceGroup (h ! r)"
    using assms(2) b by simp
  have eq: "map (\<lambda>r. forceGroup (h' ! r)) rs = map (\<lambda>r. forceGroup (h ! r)) rs"
    by (rule map_cong [OF refl]) (rule e)
  have "list_all (\<lambda>r. r < b \<and> 0 \<le> forceGroup (h' ! r) \<and> forceGroup (h' ! r) < c) rs =
        list_all (\<lambda>r. r < b \<and> 0 \<le> forceGroup (h ! r) \<and> forceGroup (h ! r) < c) rs"
    by (rule list.pred_cong [OF refl]) (simp add: e)
  with assms(1) eq show ?thesis by (simp only: groups_ok_def)
qed

lemma update_snd_subset: "set (map snd (AList.update k v al)) \<subseteq> insert v (set (map snd al))"
  by (induction al) auto

lemma update_snd_cases:
  "x \<in> set (map snd (AList.update k v al)) \<Longrightarrow> x = v \<or> x \<in> set (map snd al)"
  using update_snd_subset [of k v al] by (rule_tac subsetD [THEN insertE]) auto

lemma distinct_update_fresh:
  "distinct (map f (map snd al)) \<Longrightarrow> f v \<notin> f ` set (map snd al) \<Longrightarrow>
   distinct (map f (map snd (AList.update k v al)))"
proof (induction al)
  case Nil
  then show ?case by simp
next
  case (Cons p al)
  obtain k' v' where p: "p = (k', v')" by (cases p) auto
  show ?case
  proof (cases "k' = k")
    case True
    with Cons.prems p show ?thesis by auto
  next
    case False
    from Cons.prems p have d: "distinct (map f (map snd al))" and n: "f v \<notin> f ` set (map snd al)"
      and v': "f v' \<notin> f ` set (map snd al)" and ne: "f v \<noteq> f v'"
      by auto
    have "f v' \<notin> f ` set (map snd (AList.update k v al))"
    proof
      assume "f v' \<in> f ` set (map snd (AList.update k v al))"
      then obtain x where x: "x \<in> set (map snd (AList.update k v al))" and fx: "f v' = f x"
        by (rule imageE)
      from update_snd_cases [OF x] show False
      proof
        assume "x = v"
        with fx ne show False by simp
      next
        assume "x \<in> set (map snd al)"
        then have "f x \<in> f ` set (map snd al)" by (rule imageI)
        with fx v' show False by simp
      qed
    qed
    with Cons.IH [OF d n] False p show ?thesis by (simp add: image_image)
  qed
qed

lemma groups_ok_update:
  assumes ok: "groups_ok h (map snd fd) c b"
    and g: "c \<le> forceGroup (h ! r)" "forceGroup (h ! r) < c'" and c: "0 \<le> c"
    and r: "r < b'" and b: "b \<le> b'"
  shows "groups_ok h (map snd (AList.update k r fd)) c' b'"
proof -
  from ok have a: "\<And>x. x \<in> set (map snd fd) \<Longrightarrow> x < b \<and> 0 \<le> forceGroup (h ! x) \<and> forceGroup (h ! x) < c"
    and d: "distinct (map (\<lambda>r. forceGroup (h ! r)) (map snd fd))"
    by (auto simp: groups_ok_def list_all_iff)
  from a g have "forceGroup (h ! r) \<notin> (\<lambda>r. forceGroup (h ! r)) ` set (map snd fd)" by force
  from distinct_update_fresh [where f = "\<lambda>r. forceGroup (h ! r)", OF d this]
  have d': "distinct (map (\<lambda>r. forceGroup (h ! r)) (map snd (AList.update k r fd)))" .
  have "\<And>x. x \<in> set (map snd (AList.update k r fd)) \<Longrightarrow>
          x < b' \<and> 0 \<le> forceGroup (h ! x) \<and> forceGroup (h ! x) < c'"
  proof -
    fix x assume "x \<in> set (map snd (AList.update k r fd))"
    then have "x = r \<or> x \<in> set (map snd fd)" by (rule update_snd_cases)
    then show "x < b' \<and> 0 \<le> forceGroup (h ! x) \<and> forceGroup (h ! x) < c'"
    proof
      assume "x = r"
      with g c r show ?thesis by simp
    next
      assume "x \<in> set (map snd fd)"
      from a [OF this] g b show ?thesis by simp
    qed
  qed
  with d' show ?thesis unfolding groups_ok_def list_all_iff by blast
qed

lemma groups_inv_frame:
  "forcesDict s' = forcesDict s \<Longrightarrow> heap s' = heap s \<Longrightarrow> forceCount s' = forceCount s \<Longrightarrow>
   groups_inv s' = groups_inv s"
  by (simp add: groups_inv_def split: option.splits)

lemma groups_inv_registered:
  assumes i: "groups_inv s" and fd: "forcesDict s = Some fd"
  shows "groups_inv (s\<lparr>heap := heap s @ [ff\<lparr>forceGroup := forceCount s\<rparr>],
                      forcesDict := Some (AList.update key (length (heap s)) fd),
                      forceCount := forceCount s + 1\<rparr>)"
proof -
  let ?h = "heap s @ [ff\<lparr>forceGroup := forceCount s\<rparr>]"
  from i fd have c: "0 \<le> forceCount s"
    and ok: "groups_ok (heap s) (map snd fd) (forceCount s) (length (heap s))"
    by (simp_all add: groups_inv_def)
  from ok have "groups_ok ?h (map snd fd) (forceCount s) (length (heap s))"
    by (rule groups_ok_heap_cong) (simp add: nth_append)
  then have "groups_ok ?h (map snd (AList.update key (length (heap s)) fd)) (forceCount s + 1)
      (length ?h)"
    by (rule groups_ok_update) (use c in simp_all)
  with c show ?thesis by (simp add: groups_inv_def)
qed

lemma groups_inv_register_force: "groups_inv s \<Longrightarrow> groups_inv (snd (register_force key ff s))"
proof (cases "forcesDict s")
  case None
  assume "groups_inv s"
  with None show ?thesis by (simp add: register_force_def)
next
  case (Some fd)
  assume i: "groups_inv s"
  from Some have "register_force key ff s =
     (Inr (), s\<lparr>heap := heap s @ [ff\<lparr>forceGroup := forceCount s\<rparr>],
                forcesDict := Some (AList.update key (length (heap s)) fd),
                forceCount := forceCount s + 1\<rparr>)"
    by (simp add: register_force_result)
  with groups_inv_registered [OF i Some] show ?thesis by simp
qed

lemma groups_inv_customSmogForce:
  "groups_inv s \<Longrightarrow> groups_inv (snd (customSmogForce env n d s))"
  by (auto simp: customSmogForce_def groups_inv_register_force split: sum.splits)

lemma groups_inv_customSmogForce_nb:
  assumes "groups_inv s"
  shows "groups_inv (snd (customSmogForce_nb env n d s))"
proof -
  have a: "\<And>t. groups_inv (s\<lparr>atom_types := t\<rparr>)"
    using assms by (simp add: groups_inv_def split: option.splits)
  show ?thesis
    using assms a
    by (auto simp: customSmogForce_nb_def Let_def groups_inv_register_force
             split: sum.splits prod.splits)
qed

lemma groups_inv_addForce_of: "groups_inv s \<Longrightarrow> groups_inv (snd (addForce_of k s))"
  by (auto simp: addForce_of_def groups_inv_def split: option.splits)

lemma groups_inv_removeForce: "groups_inv s \<Longrightarrow> groups_inv (snd (removeForce i s))"
  by (auto simp: removeForce_def groups_inv_def split: option.splits)

lemma groups_inv_splitForces_contacts: "groups_inv s \<Longrightarrow> groups_inv (snd (splitForces_contacts s))"
  by (auto simp: splitForces_contacts_def groups_inv_def split: option.splits sum.splits prod.splits)

lemma groups_inv_splitForces_nb: "groups_inv s \<Longrightarrow> groups_inv (snd (splitForces_nb s))"
  by (auto simp: splitForces_nb_def groups_inv_def split: option.splits sum.splits prod.splits)

lemma seq_inv:
  assumes "P s" and "\<And>s. P s \<Longrightarrow> Q (snd (m s))" and "\<And>s. Q s \<Longrightarrow> R s"
    and "\<And>x s. Q s \<Longrightarrow> R (snd (f x s))"
  shows "R (snd (seq m f s))"
proof (cases "m s")
  case (Pair res s1)
  from assms(2) [OF assms(1)] Pair have q: "Q s1" by simp
  show ?thesis
  proof (cases res)
    case (Inl e)
    with Pair q assms(3) show ?thesis by (simp add: seq_def)
  next
    case (Inr x)
    with Pair assms(4) [OF q, of x] show ?thesis by (simp add: seq_def)
  qed
qed

lemma for_each_inv:
  assumes "\<And>x s. P s \<Longrightarrow> P (snd (body x s))"
  shows "P s \<Longrightarrow> P (snd (for_each xs body s))"
proof (induction xs arbitrary: s)
  case Nil
  then show ?case by simp
next
  case (Cons x xs)
  obtain res s1 where b: "body x s = (res, s1)" by (cases "body x s") auto
  from assms [OF Cons.prems, of x] b have p: "P s1" by simp
  show ?case
  proof (cases res)
    case (Inl e)
    with b p show ?thesis by simp
  next
    case (Inr u)
    with b Cons.IH [OF p] show ?thesis by simp
  qed
qed

lemma groups_inv_loadXml_contacts: "groups_inv s \<Longrightarrow> groups_inv (snd (loadXml_contacts env s))"
proof (cases "contacts s")
  case None
  assume "groups_inv s"
  with None show ?thesis by (simp add: loadXml_contacts_def)
next
  case (Some cs)
  assume i: "groups_inv s"
  have "groups_inv (snd (for_each cs (\<lambda>entry. seq (customSmogForce env (fst entry) (snd entry))
                                  (\<lambda>_. addForce_of (fst entry))) s))"
    by (rule for_each_inv [where P = groups_inv, OF _ i],
        rule seq_inv [where P = groups_inv and Q = groups_inv])
       (simp_all add: groups_inv_customSmogForce groups_inv_addForce_of)
  with Some show ?thesis by (simp add: loadXml_contacts_def)
qed

lemma groups_inv_loadXml_nonbond_forces:
  "groups_inv s \<Longrightarrow> groups_inv (snd (loadXml_nonbond_forces env s))"
proof (cases "nonbond s")
  case None
  assume "groups_inv s"
  with None show ?thesis by (simp add: loadXml_nonbond_forces_def)
next
  case (Some ns)
  assume i: "groups_inv s"
  have "groups_inv (snd (for_each ns (\<lambda>entry. seq (customSmogForce_nb env (fst entry) (snd entry))
                                  (\<lambda>_. addForce_of (''Nonbonded'' @ str_nat (fst entry)))) s))"
    by (rule for_each_inv [where P = groups_inv, OF _ i],
        rule seq_inv [where P = groups_inv and Q = groups_inv])
       (simp_all add: groups_inv_customSmogForce_nb groups_inv_addForce_of)
  with Some show ?thesis by (simp add: loadXml_nonbond_forces_def)
qed

lemma groups_inv_loadXml_nonbond: "groups_inv s \<Longrightarrow> groups_inv (snd (loadXml_nonbond env s))"
proof (cases "nonbond_present s")
  case None
  assume "groups_inv s"
  with None show ?thesis by (simp add: loadXml_nonbond_def)
next
  case (Some b)
  assume i: "groups_inv s"
  show ?thesis
  proof (cases b)
    case False
    with Some i show ?thesis by (simp add: loadXml_nonbond_def)
  next
    case True
    have "groups_inv (snd (seq splitForces_nb (\<lambda>_. seq (loadXml_nonbond_forces env) (\<lambda>_.
            seq (removeForce 0) (\<lambda>_. removeForce 0))) s))"
      by (rule seq_inv [where P = groups_inv and Q = groups_inv, OF i],
          simp_all add: groups_inv_splitForces_nb,
          rule seq_inv [where P = groups_inv and Q = groups_inv],
          simp_all add: groups_inv_loadXml_nonbond_forces,
          rule seq_inv [where P = groups_inv and Q = groups_inv],
          simp_all add: groups_inv_removeForce)
    with Some True show ?thesis by (simp add: loadXml_nonbond_def)
  qed
qed

lemma groups_inv_validate: "groups_inv s \<Longrightarrow> groups_inv (snd (validate env x s))"
  by (auto simp: validate_def Let_def groups_inv_def split: option.splits)

lemma groups_inv_import: "groups_inv s \<Longrightarrow> groups_inv (snd (import_xml2OpenSMOG env x s))"
proof -
  assume i: "groups_inv s"
  obtain r s' where a: "import_xml2OpenSMOG env x s = (r, s')"
    by (cases "import_xml2OpenSMOG env x s") auto
  from import_frame [OF a] obtain cp np where
    "s' = s\<lparr>constants_present := cp, nonbond_present := np, io_log := io_log s @ [x]\<rparr>" by blast
  with i a show ?thesis by (simp add: groups_inv_def split: option.splits)
qed

lemma groups_inv_loadXml: "groups_inv s \<Longrightarrow> groups_inv (snd (loadXml env x s))"
proof (cases "forceApplied s")
  case True
  assume "groups_inv s"
  with True show ?thesis by (simp add: loadXml_def)
next
  case False
  assume i: "groups_inv s"
  have d: "\<And>d s. groups_inv s \<Longrightarrow> groups_inv (s\<lparr>data := d\<rparr>)"
    by (simp add: groups_inv_def split: option.splits)
  have f: "\<And>b s. groups_inv s \<Longrightarrow> groups_inv (s\<lparr>forceApplied := b\<rparr>)"
    by (simp add: groups_inv_def split: option.splits)
  have tail: "\<And>dd s2. groups_inv s2 \<Longrightarrow>
      groups_inv (snd (seq splitForces_contacts (\<lambda>_.
              seq (loadXml_contacts env) (\<lambda>_.
              seq (loadXml_nonbond env) (\<lambda>_ s3.
              (Inr (), s3\<lparr>forceApplied := True\<rparr>)))) (s2\<lparr>data := Some dd\<rparr>)))"
    by (rule seq_inv [where P = groups_inv and Q = groups_inv],
        simp_all add: d groups_inv_splitForces_contacts,
        rule seq_inv [where P = groups_inv and Q = groups_inv],
        simp_all add: groups_inv_loadXml_contacts,
        rule seq_inv [where P = groups_inv and Q = groups_inv],
        simp_all add: groups_inv_loadXml_nonbond f)
  have "groups_inv (snd (seq (validate env x) (\<lambda>valid s1.
          if \<not> valid then (Inl (ValueError ''The xml file is not in the correct format''), s1)
          else
            seq (import_xml2OpenSMOG env x) (\<lambda>d s2.
              seq splitForces_contacts (\<lambda>_.
              seq (loadXml_contacts env) (\<lambda>_.
              seq (loadXml_nonbond env) (\<lambda>_ s3.
              (Inr (), s3\<lparr>forceApplied := True\<rparr>)))) (s2\<lparr>data := Some d\<rparr>)) s1) s))"
  proof (rule seq_inv [where P = groups_inv and Q = groups_inv, OF i])
    fix s assume "groups_inv s" then show "groups_inv (snd (validate env x s))"
      by (rule groups_inv_validate)
  next
    fix s :: sbm assume "groups_inv s" then show "groups_inv s" .
  next
    fix valid s1 assume q: "groups_inv s1"
    show "groups_inv (snd (if \<not> valid then (Inl (ValueError ''The xml file is not in the correct format''), s1)
          else
            seq (import_xml2OpenSMOG env x) (\<lambda>d s2.
              seq splitForces_contacts (\<lambda>_.
              seq (loadXml_contacts env) (\<lambda>_.
              seq (loadXml_nonbond env) (\<lambda>_ s3.
              (Inr (), s3\<lparr>forceApplied := True\<rparr>)))) (s2\<lparr>data := Some d\<rparr>)) s1))"
    proof (cases valid)
      case False
      with q show ?thesis by simp
    next
      case True
      have "groups_inv (snd (seq (import_xml2OpenSMOG env x) (\<lambda>d s2.
              seq splitForces_contacts (\<lambda>_.
              seq (loadXml_contacts env) (\<lambda>_.
              seq (loadXml_nonbond env) (\<lambda>_ s3.
              (Inr (), s3\<lparr>forceApplied := True\<rparr>)))) (s2\<lparr>data := Some d\<rparr>)) s1))"
        by (rule seq_inv [where P = groups_inv and Q = groups_inv, OF q])
           (simp_all add: groups_inv_import tail)
      with True show ?thesis by simp
    qed
  qed
  with False show ?thesis by (simp add: loadXml_def)
qed

lemma setForceGroup_simps:
  "length (heap (setForceGroup r g s)) = length (heap s)"
  "r' \<noteq> r \<Longrightarrow> heap (setForceGroup r g s) ! r' = heap s ! r'"
  "r < length (heap s) \<Longrightarrow> forceGroup (heap (setForceGroup r g s) ! r) = g"
  "forcesDict (setForceGroup r g s) = forcesDict s"
  "forceCount (setForceGroup r g s) = forceCount s"
  by (simp_all add: setForceGroup_def)

lemma loadTop_invD:
  "loadTop_inv n l j s \<Longrightarrow> length (heap s) = l + n"
  "loadTop_inv n l j s \<Longrightarrow> forceCount s = int (min j (registered_count n))"
  "loadTop_inv n l j s \<Longrightarrow> forcesDict s = Some fd \<Longrightarrow>
   groups_ok (heap s) (map snd fd) (forceCount s) (l + j)"
  by (auto simp: loadTop_inv_def)

lemma loadTop_invI:
  "length (heap s) = l + n \<Longrightarrow> forceCount s = int (min j (registered_count n)) \<Longrightarrow>
   (\<And>fd. forcesDict s = Some fd \<Longrightarrow> groups_ok (heap s) (map snd fd) (forceCount s) (l + j)) \<Longrightarrow>
   loadTop_inv n l j s"
  by (auto simp: loadTop_inv_def split: option.splits)

lemma groups_invI:
  "0 \<le> forceCount s \<Longrightarrow>
   (\<And>fd. forcesDict s = Some fd \<Longrightarrow>
      groups_ok (heap s) (map snd fd) (forceCount s) (length (heap s))) \<Longrightarrow>
   groups_inv s"
  by (auto simp: groups_inv_def split: option.splits)

lemma loadTop_inv_groups_inv:
  assumes i: "loadTop_inv n l j s" and "j \<le> n"
  shows "groups_inv s"
proof (rule groups_invI)
  from loadTop_invD(2) [OF i] show "0 \<le> forceCount s" by simp
next
  fix fd assume "forcesDict s = Some fd"
  from loadTop_invD(3) [OF i this]
  show "groups_ok (heap s) (map snd fd) (forceCount s) (length (heap s))"
    by (rule groups_ok_mono) (use assms(2) loadTop_invD(1) [OF i] in simp_all)
qed

lemma loadTop_inv_frame:
  assumes i: "loadTop_inv n l j s" and len: "length (heap s1) = length (heap s)"
    and h: "\<And>r. r < l + j \<Longrightarrow> heap s1 ! r = heap s ! r"
    and fd: "forcesDict s1 = forcesDict s" and fc: "forceCount s1 = forceCount s"
  shows "loadTop_inv n l j s1"
proof (rule loadTop_invI)
  from loadTop_invD(1) [OF i] len show "length (heap s1) = l + n" by simp
next
  from loadTop_invD(2) [OF i] fc show "forceCount s1 = int (min j (registered_count n))" by simp
next
  fix d assume "forcesDict s1 = Some d"
  with fd have "forcesDict s = Some d" by simp
  from loadTop_invD(3) [OF i this] have "groups_ok (heap s1) (map snd d) (forceCount s) (l + j)"
    by (rule groups_ok_heap_cong) (rule h)
  with fc show "groups_ok (heap s1) (map snd d) (forceCount s1) (l + j)" by simp
qed

lemma loadTop_inv_skip:
  assumes i: "loadTop_inv n l j s" and c: "registered_count n \<le> j"
  shows "loadTop_inv n l (Suc j) s"
proof (rule loadTop_invI)
  from loadTop_invD(1) [OF i] show "length (heap s) = l + n" .
next
  from loadTop_invD(2) [OF i] c show "forceCount s = int (min (Suc j) (registered_count n))"
    by (simp add: min_def)
next
  fix d assume "forcesDict s = Some d"
  from loadTop_invD(3) [OF i this]
  show "groups_ok (heap s) (map snd d) (forceCount s) (l + Suc j)"
    by (rule groups_ok_mono) simp_all
qed

lemma loadTop_inv_register:
  assumes i: "loadTop_inv n l j s" and c: "j < registered_count n"
    and fd: "forcesDict s = Some d" and g: "forceGroup (heap s ! (l + j)) = int j"
  shows "loadTop_inv n l (Suc j)
           (s\<lparr>forcesDict := Some (AList.update nm (l + j) d), forceCount := forceCount s + 1\<rparr>)"
proof -
  from loadTop_invD(2) [OF i] c have fc: "forceCount s = int j" by (simp add: min_def)
  from loadTop_invD(3) [OF i fd]
  have ok: "groups_ok (heap s) (map snd (AList.update nm (l + j) d)) (forceCount s + 1) (l + Suc j)"
    by (rule groups_ok_update) (simp_all add: g fc)
  show ?thesis
  proof (rule loadTop_invI)
    from loadTop_invD(1) [OF i]
    show "length (heap (s\<lparr>forcesDict := Some (AList.update nm (l + j) d),
        forceCount := forceCount s + 1\<rparr>)) = l + n" by simp
  next
    from fc c show "forceCount (s\<lparr>forcesDict := Some (AList.update nm (l + j) d),
        forceCount := forceCount s + 1\<rparr>) = int (min (Suc j) (registered_count n))"
      by (simp add: min_def)
  next
    fix fd' assume "forcesDict (s\<lparr>forcesDict := Some (AList.update nm (l + j) d),
        forceCount := forceCount s + 1\<rparr>) = Some fd'"
    then have "fd' = AList.update nm (l + j) d" by simp
    with ok show "groups_ok (heap (s\<lparr>forcesDict := Some (AList.update nm (l + j) d),
        forceCount := forceCount s + 1\<rparr>)) (map snd fd')
        (forceCount (s\<lparr>forcesDict := Some (AList.update nm (l + j) d),
        forceCount := forceCount s + 1\<rparr>)) (l + Suc j)" by simp
  qed
qed

lemma register_top_force_cases:
  "register_top_force names j r s =
     (case forcesDict s of
        None \<Rightarrow> (Inl (AttributeError ''forcesDict''), setForceGroup r (int j) s)
      | Some fd \<Rightarrow>
          (case map_of names j of
             None \<Rightarrow> (Inl (KeyError None), setForceGroup r (int j) s)
           | Some nm \<Rightarrow>
               (Inr (), (setForceGroup r (int j) s)\<lparr>forcesDict := Some (AList.update nm r fd),
                                                   forceCount := forceCount s + 1\<rparr>)))"
  by (simp add: register_top_force_def Let_def setForceGroup_def split: option.splits)

lemma register_top_force_step:
  assumes i: "loadTop_inv n l j s" and c: "j < registered_count n" and jn: "j < n"
    and r: "register_top_force names j (l + j) s = (res, s')"
  shows "groups_inv s' \<and>
         (res = Inr () \<longrightarrow>
            loadTop_inv n l (Suc j) s' \<and> forceGroup (heap s' ! (l + j)) = forceCount s \<and>
            forceCount s' = forceCount s + 1 \<and>
            (\<exists>fd nm. forcesDict s = Some fd \<and> forcesDict s' = Some (AList.update nm (l + j) fd)))"
proof -
  define s1 where "s1 = setForceGroup (l + j) (int j) s"
  from loadTop_invD(1) [OF i] have len: "length (heap s) = l + n" .
  from loadTop_invD(2) [OF i] c have fc: "forceCount s = int j" by (simp add: min_def)
  have i1: "loadTop_inv n l j s1"
    by (rule loadTop_inv_frame [OF i]) (simp_all add: s1_def setForceGroup_simps)
  from len jn have g1: "forceGroup (heap s1 ! (l + j)) = int j"
    by (simp add: s1_def setForceGroup_simps)
  have fd1: "forcesDict s1 = forcesDict s" and fc1: "forceCount s1 = forceCount s"
    by (simp_all add: s1_def setForceGroup_simps)
  from loadTop_inv_groups_inv [OF i1] jn have gi1: "groups_inv s1" by simp
  show ?thesis
  proof (cases "forcesDict s")
    case None
    with r have "s' = s1" "res \<noteq> Inr ()"
      by (auto simp: register_top_force_cases s1_def)
    with gi1 show ?thesis by simp
  next
    case (Some fd)
    show ?thesis
    proof (cases "map_of names j")
      case None
      with r Some have "s' = s1" "res \<noteq> Inr ()"
        by (auto simp: register_top_force_cases s1_def)
      with gi1 show ?thesis by simp
    next
      case nm: (Some nm)
      with r Some have s': "s' = s1\<lparr>forcesDict := Some (AList.update nm (l + j) fd),
                                     forceCount := forceCount s1 + 1\<rparr>"
        by (auto simp: register_top_force_cases s1_def fc1 [unfolded s1_def])
      from Some fd1 have "forcesDict s1 = Some fd" by simp
      from loadTop_inv_register [OF i1 c this g1, of nm] have i': "loadTop_inv n l (Suc j) s'"
        by (simp add: s')
      from loadTop_inv_groups_inv [OF i'] jn have "groups_inv s'" by simp
      moreover have "forceGroup (heap s' ! (l + j)) = forceCount s" by (simp add: s' g1 fc)
      moreover have "forceCount s' = forceCount s + 1" by (simp add: s' fc1)
      moreover have "forcesDict s' = Some (AList.update nm (l + j) fd)" by (simp add: s')
      ultimately show ?thesis using i' Some by blast
    qed
  qed
qed

lemma loadTop_body_step:
  assumes i: "loadTop_inv n l j s" and jn: "j < n"
    and r: "loadTop_body n (j, l + j) s = (res, s')"
  shows "groups_inv s' \<and>
         (res = Inr () \<longrightarrow>
            loadTop_inv n l (Suc j) s' \<and>
            (forcesDict s' = forcesDict s \<and> forceCount s' = forceCount s \<or>
             forceGroup (heap s' ! (l + j)) = forceCount s \<and>
             forceCount s' = forceCount s + 1 \<and>
             (\<exists>fd nm. forcesDict s = Some fd \<and> forcesDict s' = Some (AList.update nm (l + j) fd))))"
proof -
  have skip: "groups_inv s' \<and> loadTop_inv n l (Suc j) s' \<and> forcesDict s' = forcesDict s \<and>
      forceCount s' = forceCount s"
    if c: "registered_count n \<le> j" and s': "s' = s \<or> s' = setForceGroup (l + j) 30 s"
  proof -
    have "loadTop_inv n l j s'"
      using s' by (rule disjE) (simp add: i, rule loadTop_inv_frame [OF i], simp_all add: setForceGroup_simps)
    then have a: "loadTop_inv n l (Suc j) s'" using c by (rule loadTop_inv_skip)
    from loadTop_inv_groups_inv [OF a] jn have "groups_inv s'" by simp
    with a s' show ?thesis by (auto simp: setForceGroup_simps)
  qed
  consider (ca) "n = 7" "j \<le> 4" | (cs) "n = 7" "\<not> j \<le> 4" | (aa) "n = 8" "j \<le> 5"
    | (as) "n = 8" "\<not> j \<le> 5" | (other) "n \<noteq> 7" "n \<noteq> 8" by blast
  then show ?thesis
  proof cases
    case ca
    with r have "register_top_force forceNamesCA j (l + j) s = (res, s')"
      by (simp add: loadTop_body_def)
    from register_top_force_step [OF i _ jn this] ca show ?thesis
      by (simp add: registered_count_def)
  next
    case cs
    with r have "s' = setForceGroup (l + j) 30 s" by (simp add: loadTop_body_def)
    with skip cs show ?thesis by (simp add: registered_count_def)
  next
    case aa
    with r have "register_top_force forceNamesAA j (l + j) s = (res, s')"
      by (simp add: loadTop_body_def)
    from register_top_force_step [OF i _ jn this] aa show ?thesis
      by (simp add: registered_count_def)
  next
    case as
    with r have "s' = setForceGroup (l + j) 30 s" by (simp add: loadTop_body_def)
    with skip as show ?thesis by (simp add: registered_count_def)
  next
    case other
    with r have "s' = s" by (simp add: loadTop_body_def)
    with skip other show ?thesis by (simp add: registered_count_def)
  qed
qed

lemma loadTop_loop:
  "loadTop_inv n l j s \<Longrightarrow> j \<le> n \<Longrightarrow>
   groups_inv (snd (for_each (map (\<lambda>i. (i, l + i)) [j ..< n]) (loadTop_body n) s))"
proof (induction "n - j" arbitrary: j s)
  case 0
  then have "j = n" by simp
  with "0.prems" show ?case by (simp add: loadTop_inv_groups_inv)
next
  case (Suc k)
  then have jn: "j < n" by simp
  then have u: "[j ..< n] = j # [Suc j ..< n]" by (rule upt_conv_Cons)
  obtain res s' where b: "loadTop_body n (j, l + j) s = (res, s')"
    by (cases "loadTop_body n (j, l + j) s") auto
  note st = loadTop_body_step [OF Suc.prems(1) jn b]
  show ?case
  proof (cases res)
    case (Inl e)
    with st b show ?thesis by (simp add: u)
  next
    case (Inr x)
    with st have i': "loadTop_inv n l (Suc j) s'" by simp
    from Suc.hyps(2) have "k = n - Suc j" by simp
    from Suc.hyps(1) [OF this i'] jn Inr b show ?thesis by (simp add: u)
  qed
qed

lemma zip_upt_refs: "zip [0 ..< n] [l ..< l + n] = map (\<lambda>i. (i, l + i)) [0 ..< n]"
  by (rule nth_equalityI) simp_all

lemma loadTop_inv_start:
  assumes i: "groups_inv s" and z: "forceCount s = 0"
    and h: "heap s' = heap s @ fs" and fd: "forcesDict s' = forcesDict s"
    and fc: "forceCount s' = forceCount s"
  shows "loadTop_inv (length fs) (length (heap s)) 0 s'"
proof (rule loadTop_invI)
  from h show "length (heap s') = length (heap s) + length fs" by simp
next
  from z fc show "forceCount s' = int (min 0 (registered_count (length fs)))" by simp
next
  fix d assume "forcesDict s' = Some d"
  with fd have "forcesDict s = Some d" by simp
  with i have "groups_ok (heap s) (map snd d) (forceCount s) (length (heap s))"
    by (auto simp: groups_inv_def)
  then have "groups_ok (heap s @ fs) (map snd d) (forceCount s) (length (heap s))"
    by (rule groups_ok_heap_cong) (simp add: nth_append)
  with h fc show "groups_ok (heap s') (map snd d) (forceCount s') (length (heap s) + 0)" by simp
qed

lemma groups_inv_loadTop_system:
  assumes i: "groups_inv s" and z: "forceCount s = 0"
  shows "groups_inv (snd (loadTop_system env f cell method s))"
proof -
  have fr: "\<And>l t. groups_inv (s\<lparr>io_log := l\<rparr>) \<and> groups_inv (s\<lparr>io_log := l, Top := t\<rparr>)"
    using i by (simp add: groups_inv_def split: option.splits)
  show ?thesis
  proof (cases "GromacsTopFile env f cell")
    case None
    with fr show ?thesis by (simp add: loadTop_system_def)
  next
    case (Some t)
    show ?thesis
    proof (cases "createSystem env t method (rcutoff s)")
      case None
      with Some fr show ?thesis by (simp add: loadTop_system_def)
    next
      case sy: (Some p)
      obtain fs np where p: "p = (fs, np)" by (cases p) auto
      define s3 where "s3 = s\<lparr>io_log := io_log s @ [f], Top := Some t, heap := heap s @ fs,
          system := Some \<lparr>sys_forces = [length (heap s) ..< length (heap s) + length fs],
                          numParticles = np\<rparr>\<rparr>"
      have "loadTop_inv (length fs) (length (heap s)) 0 s3"
        by (rule loadTop_inv_start [OF i z]) (simp_all add: s3_def)
      then have "groups_inv (snd (for_each (map (\<lambda>i. (i, length (heap s) + i)) [0 ..< length fs])
          (loadTop_body (length fs)) s3))"
        by (rule loadTop_loop) simp
      with Some sy p show ?thesis
        by (simp add: loadTop_system_def Let_def s3_def zip_upt_refs)
    qed
  qed
qed

lemma groups_inv_loadTop:
  "groups_inv s \<Longrightarrow> forceCount s = 0 \<Longrightarrow> groups_inv (snd (loadTop env f s))"
  by (simp add: loadTop_def groups_inv_loadTop_system split: option.splits)

lemma fresh_loadGro:
  "groups_inv s \<and> forceCount s = 0 \<Longrightarrow>
   groups_inv (snd (loadGro env f s)) \<and> forceCount (snd (loadGro env f s)) = 0"
  by (auto simp: loadGro_def Let_def groups_inv_def split: option.splits)

lemma fresh_setup_openmm:
  "groups_inv (snd (setup_openmm env p q g i (SBM_init a b c d e f))) \<and>
   forceCount (snd (setup_openmm env p q g i (SBM_init a b c d e f))) = 0"
  by (auto simp: setup_openmm_def Let_def SBM_init_def groups_inv_def groups_ok_def
           split: option.splits prod.splits)

lemma groups_inv_loadSystem:
  assumes i: "groups_inv s" and z: "forceCount s = 0"
  shows "groups_inv (snd (loadSystem env gf tf xf s))"
proof -
  let ?Z = "\<lambda>s. groups_inv s \<and> forceCount s = 0"
  from i z have z0: "?Z (s\<lparr>inputNames := Some [gf, tf, xf]\<rparr>)"
    by (simp add: groups_inv_def split: option.splits)
  have x: "\<And>s. groups_inv s \<Longrightarrow>
      groups_inv (snd (seq (\<lambda>s'. (check_file xf ''.xml'', s')) (\<lambda>_. loadXml env xf) s))"
    by (rule seq_inv [where P = groups_inv and Q = groups_inv])
       (simp_all add: groups_inv_loadXml)
  have t: "\<And>s. ?Z s \<Longrightarrow>
      groups_inv (snd (seq (loadTop env tf) (\<lambda>_.
        seq (\<lambda>s'. (check_file xf ''.xml'', s')) (\<lambda>_. loadXml env xf)) s))"
    by (rule seq_inv [where P = ?Z and Q = groups_inv])
       (simp_all add: groups_inv_loadTop x)
  have ct: "\<And>s. ?Z s \<Longrightarrow>
      groups_inv (snd (seq (\<lambda>s'. (check_file tf ''.top'', s')) (\<lambda>_. seq (loadTop env tf) (\<lambda>_.
        seq (\<lambda>s'. (check_file xf ''.xml'', s')) (\<lambda>_. loadXml env xf))) s))"
    by (rule seq_inv [where P = ?Z and Q = ?Z]) (simp_all add: t)
  have g: "\<And>s. ?Z s \<Longrightarrow>
      groups_inv (snd (seq (loadGro env gf) (\<lambda>_.
        seq (\<lambda>s'. (check_file tf ''.top'', s')) (\<lambda>_. seq (loadTop env tf) (\<lambda>_.
        seq (\<lambda>s'. (check_file xf ''.xml'', s')) (\<lambda>_. loadXml env xf)))) s))"
    by (rule seq_inv [where P = ?Z and Q = ?Z]) (simp_all add: ct fresh_loadGro)
  have "groups_inv (snd (seq (\<lambda>s'. (check_file gf ''.gro'', s')) (\<lambda>_. seq (loadGro env gf) (\<lambda>_.
        seq (\<lambda>s'. (check_file tf ''.top'', s')) (\<lambda>_. seq (loadTop env tf) (\<lambda>_.
        seq (\<lambda>s'. (check_file xf ''.xml'', s')) (\<lambda>_. loadXml env xf)))))
        (s\<lparr>inputNames := Some [gf, tf, xf]\<rparr>)))"
    by (rule seq_inv [where P = ?Z and Q = ?Z, OF z0]) (simp_all add: g)
  then show ?thesis by (simp add: loadSystem_def Let_def)
qed

text \<open>
  Claim C9. Each of the two force builders gives the new force the value of \<open>forceCount\<close>
  as its group, stores it in \<open>forcesDict\<close> and increments the counter. In \<open>loadTop\<close> the loop
  invariant holds at the start when the counter is 0, every step maintains it, and a step
  that registers a force gives it the current value of the counter as its group (the index
  of the force) and increments the counter. Hence \<open>groups_inv\<close>, which says that the forces
  in \<open>forcesDict\<close> have pairwise distinct groups below the counter, is kept by \<open>loadXml\<close>
  always and by \<open>loadTop\<close> and \<open>loadSystem\<close> from a counter of 0, and holds after
  \<open>setup_openmm\<close> and \<open>loadSystem\<close> on a new object, whatever their outcome.
\<close>

theorem force_groups_distinct:
  "(customSmogForce env nm d s = (Inr (), s') \<longrightarrow>
      forceGroup (heap s' ! length (heap s)) = forceCount s \<and>
      forceCount s' = forceCount s + 1 \<and> forcesDict s' \<noteq> None \<and>
      forcesDict s' = map_option (AList.update nm (length (heap s))) (forcesDict s)) \<and>
   (customSmogForce_nb env k d s = (Inr (), s') \<longrightarrow>
      forceGroup (heap s' ! length (heap s)) = forceCount s \<and>
      forceCount s' = forceCount s + 1 \<and> forcesDict s' \<noteq> None \<and>
      forcesDict s' =
        map_option (AList.update (''Nonbonded'' @ str_nat k) (length (heap s))) (forcesDict s)) \<and>
   (groups_inv s \<and> forceCount s = 0 \<and> heap s1 = heap s @ fs \<and>
    forcesDict s1 = forcesDict s \<and> forceCount s1 = forceCount s \<longrightarrow>
      loadTop_inv (length fs) (length (heap s)) 0 s1) \<and>
   (loadTop_inv n l j s \<and> j < n \<and> loadTop_body n (j, l + j) s = (Inr (), s') \<longrightarrow>
      loadTop_inv n l (Suc j) s' \<and>
      (forcesDict s' = forcesDict s \<and> forceCount s' = forceCount s \<or>
       forceGroup (heap s' ! (l + j)) = forceCount s \<and> forceCount s' = forceCount s + 1 \<and>
       (\<exists>fd name. forcesDict s = Some fd \<and>
                  forcesDict s' = Some (AList.update name (l + j) fd)))) \<and>
   (groups_inv s \<longrightarrow>
      groups_inv (snd (loadXml env xf s)) \<and>
      (forceCount s = 0 \<longrightarrow>
         groups_inv (snd (loadTop env tf s)) \<and> groups_inv (snd (loadSystem env gf tf xf s)))) \<and>
   (groups_inv s \<and> forcesDict s = Some fd \<longrightarrow>
      distinct (map (\<lambda>p. forceGroup (heap s ! snd p)) fd)) \<and>
   groups_inv (snd (loadSystem env gf tf xf
      (snd (setup_openmm env pf pr gi ig (SBM_init a b c e pb nm0)))))"
proof (intro conjI impI)
  assume "customSmogForce env nm d s = (Inr (), s')"
  then obtain ff' fd where fd: "forcesDict s = Some fd"
    and s': "s' = s\<lparr>heap := heap s @ [ff'\<lparr>forceGroup := forceCount s\<rparr>],
               forcesDict := Some (AList.update nm (length (heap s)) fd),
               forceCount := forceCount s + 1\<rparr>"
    unfolding customSmogForce_result by (elim exE conjE)
  from s' show "forceGroup (heap s' ! length (heap s)) = forceCount s" by simp
  from s' show "forceCount s' = forceCount s + 1" by simp
  from s' show "forcesDict s' \<noteq> None" by simp
  from s' fd show "forcesDict s' = map_option (AList.update nm (length (heap s))) (forcesDict s)"
    by simp
next
  assume "customSmogForce_nb env k d s = (Inr (), s')"
  from customSmogForce_nb_result [OF this] obtain nf fd types where fd: "forcesDict s = Some fd"
    and s': "s' = s\<lparr>heap := heap s @ [nf\<lparr>forceGroup := forceCount s\<rparr>],
                  forcesDict := Some (AList.update (''Nonbonded'' @ str_nat k) (length (heap s)) fd),
                  forceCount := forceCount s + 1,
                  atom_types := Some types\<rparr>"
    by (elim exE conjE)
  from s' show "forceGroup (heap s' ! length (heap s)) = forceCount s" by simp
  from s' show "forceCount s' = forceCount s + 1" by simp
  from s' show "forcesDict s' \<noteq> None" by simp
  from s' fd show "forcesDict s' =
      map_option (AList.update (''Nonbonded'' @ str_nat k) (length (heap s))) (forcesDict s)"
    by simp
next
  assume "groups_inv s \<and> forceCount s = 0 \<and> heap s1 = heap s @ fs \<and>
    forcesDict s1 = forcesDict s \<and> forceCount s1 = forceCount s"
  then show "loadTop_inv (length fs) (length (heap s)) 0 s1"
    by (intro loadTop_inv_start) simp_all
next
  assume a: "loadTop_inv n l j s \<and> j < n \<and> loadTop_body n (j, l + j) s = (Inr (), s')"
  then have i: "loadTop_inv n l j s" and jn: "j < n"
    and b: "loadTop_body n (j, l + j) s = (Inr (), s')" by simp_all
  note st = loadTop_body_step [OF i jn b]
  from st show "loadTop_inv n l (Suc j) s'" by simp
  from st show "forcesDict s' = forcesDict s \<and> forceCount s' = forceCount s \<or>
       forceGroup (heap s' ! (l + j)) = forceCount s \<and> forceCount s' = forceCount s + 1 \<and>
       (\<exists>fd name. forcesDict s = Some fd \<and>
                  forcesDict s' = Some (AList.update name (l + j) fd))" by simp
next
  assume i: "groups_inv s"
  then show "groups_inv (snd (loadXml env xf s))" by (rule groups_inv_loadXml)
  assume z: "forceCount s = 0"
  from i z show "groups_inv (snd (loadTop env tf s))" by (rule groups_inv_loadTop)
  from i z show "groups_inv (snd (loadSystem env gf tf xf s))" by (rule groups_inv_loadSystem)
next
  assume "groups_inv s \<and> forcesDict s = Some fd"
  then have "distinct (map (\<lambda>r. forceGroup (heap s ! r)) (map snd fd))"
    by (auto simp: groups_inv_def groups_ok_def)
  then show "distinct (map (\<lambda>p. forceGroup (heap s ! snd p)) fd)"
    by (simp add: comp_def)
next
  from fresh_setup_openmm [of env pf pr gi ig a b c e pb nm0]
  show "groups_inv (snd (loadSystem env gf tf xf
      (snd (setup_openmm env pf pr gi ig (SBM_init a b c e pb nm0)))))"
    by (intro groups_inv_loadSystem) simp_all
qed

theorem force_groups_distinct_witness:
  "customSmogForce ex_env ''c3'' (''A/r^12'', [Some ''A''], ex_inters) ex_s1 = (Inr (), ex_sc) \<and>
   forceGroup (heap ex_sc ! length (heap ex_s1)) = forceCount ex_s1 \<and>
   forceCount ex_sc = forceCount ex_s1 + 1 \<and> forceCount ex_s1 = 8 \<and>
   customSmogForce_nb ex_env 1
     (''C12(type1,type2)/r^12'', [Some ''C12''],
      [ex_pair ''A'' ''A'' ''1'', ex_pair ''B'' ''A'' ''2'', ex_pair ''B'' ''B'' ''3''])
     (ex_st\<lparr>constants_present := Some False\<rparr>) = (Inr (), ex_sn) \<and>
   forceGroup (heap ex_sn ! length (heap ex_st)) = forceCount ex_st \<and>
   forceCount ex_sn = forceCount ex_st + 1 \<and> forceCount ex_st = 5 \<and>
   groups_inv ex_sg \<and> forceCount ex_sg = 0 \<and> loadTop_inv 7 0 0 ex_l0 \<and>
   loadTop_body 7 (0, 0) ex_l0 = (Inr (), ex_l1) \<and> loadTop_inv 7 0 1 ex_l1 \<and>
   forceGroup (heap ex_l1 ! 0) = forceCount ex_l0 \<and> forceCount ex_l1 = forceCount ex_l0 + 1 \<and>
   groups_inv ex_st \<and> groups_inv ex_s1 \<and>
   groups_inv ex_sf \<and> forcesDict ex_sf = Some ex_fd \<and>
   distinct (map (\<lambda>p. forceGroup (heap ex_sf ! snd p)) ex_fd) \<and>
   map (\<lambda>p. forceGroup (heap ex_sf ! snd p)) ex_fd = [0, 1, 2, 3, 4, 5, 6, 7]"
proof -
  have t1: "customSmogForce ex_env ''c3'' (''A/r^12'', [Some ''A''], ex_inters) ex_s1 =
      (Inr (), ex_sc)" by code_simp
  have t2: "customSmogForce_nb ex_env 1
     (''C12(type1,type2)/r^12'', [Some ''C12''],
      [ex_pair ''A'' ''A'' ''1'', ex_pair ''B'' ''A'' ''2'', ex_pair ''B'' ''B'' ''3''])
     (ex_st\<lparr>constants_present := Some False\<rparr>) = (Inr (), ex_sn)" by code_simp
  have v1: "forceCount ex_s1 = 8" by code_simp
  have v2: "forceCount ex_st = 5" by code_simp
  have g0: "groups_inv ex_sg" by code_simp
  have z0: "forceCount ex_sg = 0" by code_simp
  have l0: "length ex_forces = 7" "length (heap ex_sg) = 0" by code_simp+
  have h0: "heap ex_l0 = heap ex_sg @ ex_forces" "forcesDict ex_l0 = forcesDict ex_sg"
    "forceCount ex_l0 = forceCount ex_sg" by (simp_all add: ex_l0_def)
  have t4: "loadTop_body 7 (0, 0 + 0) ex_l0 = (Inr (), ex_l1)" by code_simp
  have v4: "forceCount ex_l0 = 0" "forceCount ex_l1 = 1" "forceGroup (heap ex_l1 ! 0) = 0"
    by code_simp+
  have fd: "forcesDict ex_sf = Some ex_fd" by code_simp
  have v5: "map (\<lambda>p. forceGroup (heap ex_sf ! snd p)) ex_fd = [0, 1, 2, 3, 4, 5, 6, 7]"
    by code_simp
  have st: "ex_st = snd (loadTop ex_env ''a.top'' ex_sg)" by (simp add: ex_st_def)
  have gst: "groups_inv ex_st"
    unfolding st
    using force_groups_distinct [where s = ex_sg and env = ex_env and tf = "''a.top''",
        THEN conjunct2, THEN conjunct2, THEN conjunct2, THEN conjunct2, THEN conjunct1,
        THEN mp, OF g0, THEN conjunct2, THEN mp, OF z0, THEN conjunct1] .
  have s1: "ex_s1 = snd (loadXml ex_env ''a.xml'' ex_st)" by (simp add: ex_s1_def)
  have gs1: "groups_inv ex_s1"
    unfolding s1
    using force_groups_distinct [where s = ex_st and env = ex_env and xf = "''a.xml''",
        THEN conjunct2, THEN conjunct2, THEN conjunct2, THEN conjunct2, THEN conjunct1,
        THEN mp, OF gst, THEN conjunct1] .
  note A = force_groups_distinct [where env = ex_env and nm = "''c3''"
      and d = "(''A/r^12'', [Some ''A''], ex_inters)" and s = ex_s1 and s' = ex_sc,
      THEN conjunct1, THEN mp, OF t1]
  note B = force_groups_distinct [where env = ex_env and k = 1
      and d = "(''C12(type1,type2)/r^12'', [Some ''C12''],
      [ex_pair ''A'' ''A'' ''1'', ex_pair ''B'' ''A'' ''2'', ex_pair ''B'' ''B'' ''3''])"
      and s = "ex_st\<lparr>constants_present := Some False\<rparr>" and s' = ex_sn,
      THEN conjunct2, THEN conjunct1, THEN mp, OF t2]
  have C: "loadTop_inv 7 0 0 ex_l0"
    using force_groups_distinct [where s = ex_sg and ?s1.0 = ex_l0 and fs = ex_forces,
      THEN conjunct2, THEN conjunct2, THEN conjunct1, THEN mp,
      OF conjI [OF g0 conjI [OF z0 conjI [OF h0(1) conjI [OF h0(2) h0(3)]]]]]
    by (simp add: l0)
  note D = force_groups_distinct [where n = 7 and l = 0 and j = 0 and s = ex_l0 and s' = ex_l1,
      THEN conjunct2, THEN conjunct2, THEN conjunct2, THEN conjunct1, THEN mp,
      OF conjI [OF C conjI [OF _ t4]]]
  have D1: "loadTop_inv 7 0 1 ex_l1" using D by simp
  have E: "groups_inv ex_sf"
    unfolding ex_sf_def ex_fresh_def
    using force_groups_distinct [THEN conjunct2, THEN conjunct2, THEN conjunct2,
      THEN conjunct2, THEN conjunct2, THEN conjunct2] .
  have F: "distinct (map (\<lambda>p. forceGroup (heap ex_sf ! snd p)) ex_fd)"
    using force_groups_distinct [where s = ex_sf and fd = ex_fd, THEN conjunct2, THEN conjunct2,
      THEN conjunct2, THEN conjunct2, THEN conjunct2, THEN conjunct1, THEN mp,
      OF conjI [OF E fd]] .
  from A have a1: "forceGroup (heap ex_sc ! length (heap ex_s1)) = forceCount ex_s1"
    and a2: "forceCount ex_sc = forceCount ex_s1 + 1" by simp_all
  from B have b1: "forceGroup (heap ex_sn ! length (heap ex_st)) = forceCount ex_st"
    and b2: "forceCount ex_sn = forceCount ex_st + 1" by simp_all
  have t4': "loadTop_body 7 (0, 0) ex_l0 = (Inr (), ex_l1)" using t4 by simp
  have d1: "forceGroup (heap ex_l1 ! 0) = forceCount ex_l0"
    and d2: "forceCount ex_l1 = forceCount ex_l0 + 1" by (simp_all add: v4)
  from t1 a1 a2 v1 t2 b1 b2 v2 g0 z0 C t4' D1 d1 d2 gst gs1 E fd F v5
  show ?thesis by (intro conjI)
qed

end
